theory Spec2Isabelle
  imports Complex_Main "HOL-Library.Word" "HOL-Library.AList"
begin

chapter \<open>The model\<close>

unbundle bit_operations_syntax

section \<open>Python values shared by the models\<close>

text \<open>
  Exceptions of the Python runtime that the modelled code can raise. A function that can
  raise returns \<open>PyError + 'a\<close>, with \<open>Inl\<close> for the exception.
  Wall-clock readings (\<open>time.time()\<close>) are passed in as a parameter \<open>now\<close>.
\<close>

datatype PyError = IndexError | KeyError | CancelledError

text \<open>\<open>xs[i]\<close> on a Python list: a negative index counts from the end.\<close>

definition norm_index :: "'a list \<Rightarrow> int \<Rightarrow> int" where
  "norm_index xs i = (if i < 0 then int (length xs) + i else i)"

definition list_getitem :: "'a list \<Rightarrow> int \<Rightarrow> PyError + 'a" where
  "list_getitem xs i =
     (let j = norm_index xs i
      in if 0 \<le> j \<and> j < int (length xs) then Inr (xs ! nat j) else Inl IndexError)"

text \<open>\<open>xs[:count]\<close>: a negative bound drops that many elements from the end.\<close>

definition slice_to :: "'a list \<Rightarrow> int \<Rightarrow> 'a list" where
  "slice_to xs count =
     (if 0 \<le> count then take (nat count) xs else take (length xs - nat (- count)) xs)"

section \<open>dht/node.py: NodeID, Node, KBucket, RoutingTable\<close>

datatype NodeID = NodeID (id_bytes: "8 word list")

text \<open>\<open>int.from_bytes(bs, byteorder='big')\<close>.\<close>

definition from_bytes_big :: "8 word list \<Rightarrow> nat" where
  "from_bytes_big bs = foldl (\<lambda>acc b. acc * 256 + unat b) 0 bs"

text \<open>\<open>NodeID.distance\<close>: the bytes are paired by \<open>zip\<close> (which stops at the
  shorter id), XOR-ed, and read as a big-endian integer.\<close>

definition distance :: "NodeID \<Rightarrow> NodeID \<Rightarrow> nat" where
  "distance a b = from_bytes_big (map (\<lambda>(x, y). x XOR y) (zip (id_bytes a) (id_bytes b)))"

text \<open>\<open>int.bit_length()\<close> on a non-negative integer.\<close>

fun bit_length :: "nat \<Rightarrow> nat" where
  "bit_length n = (if n = 0 then 0 else Suc (bit_length (n div 2)))"

declare bit_length.simps [simp del]

record Node =
  node_id :: NodeID
  ip :: string
  port :: int
  last_seen :: real

text \<open>\<open>Node.__init__\<close> stamps \<open>last_seen\<close> with the current time.\<close>

definition Node_init :: "NodeID \<Rightarrow> string \<Rightarrow> int \<Rightarrow> real \<Rightarrow> Node" where
  "Node_init nid host prt now = \<lparr>node_id = nid, ip = host, port = prt, last_seen = now\<rparr>"

record KBucket =
  kb_nodes :: "Node list"
  kb_k :: int

definition KBucket_init :: "int \<Rightarrow> KBucket" where
  "KBucket_init cap = \<lparr>kb_nodes = [], kb_k = cap\<rparr>"

text \<open>The \<open>for i, existing_node in enumerate(self.nodes)\<close> loop of
  \<open>KBucket.add_node\<close>: the first entry with the node id is popped; \<open>None\<close> when the
  loop ends without a match.\<close>

fun pop_existing :: "NodeID \<Rightarrow> Node list \<Rightarrow> Node list option" where
  "pop_existing nid [] = None"
| "pop_existing nid (x # xs) =
     (if node_id x = nid then Some xs else map_option ((#) x) (pop_existing nid xs))"

definition KBucket_add_node :: "KBucket \<Rightarrow> Node \<Rightarrow> bool \<times> KBucket" where
  "KBucket_add_node b node =
     (case pop_existing (node_id node) (kb_nodes b) of
        Some rest \<Rightarrow> (True, b\<lparr>kb_nodes := rest @ [node]\<rparr>)
      | None \<Rightarrow>
          if int (length (kb_nodes b)) < kb_k b
          then (True, b\<lparr>kb_nodes := kb_nodes b @ [node]\<rparr>)
          else (False, b))"

definition get_nodes :: "KBucket \<Rightarrow> Node list" where
  "get_nodes b = kb_nodes b"

text \<open>A bucket as a program can reach it: created empty, then changed by \<open>add_node\<close> only.\<close>

definition bucket_after :: "int \<Rightarrow> Node list \<Rightarrow> KBucket" where
  "bucket_after cap ns = foldl (\<lambda>b n. snd (KBucket_add_node b n)) (KBucket_init cap) ns"

record RoutingTable =
  local_node_id :: NodeID
  rt_k :: int
  rt_bits :: int
  buckets :: "KBucket list"

definition RoutingTable_init :: "NodeID \<Rightarrow> int \<Rightarrow> int \<Rightarrow> RoutingTable" where
  "RoutingTable_init local cap nbits =
     \<lparr>local_node_id = local, rt_k = cap, rt_bits = nbits,
      buckets = replicate (nat nbits) (KBucket_init cap)\<rparr>"

definition get_bucket_index :: "RoutingTable \<Rightarrow> NodeID \<Rightarrow> int" where
  "get_bucket_index rt nid =
     (let d = distance (local_node_id rt) nid
      in if d = 0 then 0 else rt_bits rt - int (bit_length d))"

definition RoutingTable_add_node :: "RoutingTable \<Rightarrow> Node \<Rightarrow> PyError + (bool \<times> RoutingTable)" where
  "RoutingTable_add_node rt node =
     (if node_id node = local_node_id rt then Inr (False, rt)
      else
        let bucket_index = get_bucket_index rt (node_id node)
        in case list_getitem (buckets rt) bucket_index of
             Inl e \<Rightarrow> Inl e
           | Inr b \<Rightarrow>
               let (added, b') = KBucket_add_node b node
               in Inr (added,
                    rt\<lparr>buckets := (buckets rt)[nat (norm_index (buckets rt) bucket_index) := b']\<rparr>))"

text \<open>\<open>nodes.extend(self.buckets[i].get_nodes())\<close>.\<close>

definition extend_from :: "RoutingTable \<Rightarrow> Node list \<Rightarrow> int \<Rightarrow> PyError + Node list" where
  "extend_from rt nodes i =
     (case list_getitem (buckets rt) i of
        Inl e \<Rightarrow> Inl e
      | Inr b \<Rightarrow> Inr (nodes @ get_nodes b))"

text \<open>The \<open>while\<close> loop of \<open>get_closest_nodes\<close>: while fewer than \<open>count\<close> nodes are
  collected and a direction is left, take the next bucket to the left and the next to the
  right.\<close>

function collect_adjacent ::
  "RoutingTable \<Rightarrow> int \<Rightarrow> Node list \<Rightarrow> int \<Rightarrow> int \<Rightarrow> PyError + Node list" where
  "collect_adjacent rt count nodes left_bucket right_bucket =
     (if int (length nodes) < count \<and> (0 \<le> left_bucket \<or> right_bucket < rt_bits rt) then
        (case (if 0 \<le> left_bucket then extend_from rt nodes left_bucket else Inr nodes) of
           Inl e \<Rightarrow> Inl e
         | Inr nodes1 \<Rightarrow>
             (case (if right_bucket < rt_bits rt then extend_from rt nodes1 right_bucket
                    else Inr nodes1) of
                Inl e \<Rightarrow> Inl e
              | Inr nodes2 \<Rightarrow>
                  collect_adjacent rt count nodes2
                    (if 0 \<le> left_bucket then left_bucket - 1 else left_bucket)
                    (if right_bucket < rt_bits rt then right_bucket + 1 else right_bucket)))
      else Inr nodes)"
  by pat_completeness auto

termination
  by (relation "measure (\<lambda>(rt, count, nodes, l, r). nat (l + 1) + nat (rt_bits rt - r))")
     (auto split: if_splits)

declare collect_adjacent.simps [simp del]

definition get_closest_nodes :: "RoutingTable \<Rightarrow> NodeID \<Rightarrow> int \<Rightarrow> PyError + Node list" where
  "get_closest_nodes rt target_id count =
     (let bucket_index = get_bucket_index rt target_id
      in case list_getitem (buckets rt) bucket_index of
           Inl e \<Rightarrow> Inl e
         | Inr b \<Rightarrow>
             (case collect_adjacent rt count (get_nodes b) (bucket_index - 1) (bucket_index + 1) of
                Inl e \<Rightarrow> Inl e
              | Inr nodes \<Rightarrow>
                  Inr (slice_to (sort_key (\<lambda>node. distance target_id (node_id node)) nodes) count)))"

text \<open>The brute-force scan the specification compares with: every contact of every
  bucket, sorted by distance to the target, cut to the first \<open>count\<close>.\<close>

definition all_contacts :: "RoutingTable \<Rightarrow> Node list" where
  "all_contacts rt = concat (map kb_nodes (buckets rt))"

definition closest_brute_force :: "RoutingTable \<Rightarrow> NodeID \<Rightarrow> int \<Rightarrow> Node list" where
  "closest_brute_force rt target_id count =
     slice_to (sort_key (\<lambda>node. distance target_id (node_id node)) (all_contacts rt)) count"

text \<open>A routing table as a program can reach it: created empty, then filled by
  \<open>RoutingTable.add_node\<close>.\<close>

fun table_after :: "RoutingTable \<Rightarrow> Node list \<Rightarrow> PyError + RoutingTable" where
  "table_after rt [] = Inr rt"
| "table_after rt (n # ns) =
     (case RoutingTable_add_node rt n of
        Inl e \<Rightarrow> Inl e
      | Inr (added, rt') \<Rightarrow> table_after rt' ns)"

subsection \<open>Example contacts\<close>

definition ex_a :: Node where "ex_a = Node_init (NodeID [1]) ''10.0.0.1'' 9000 0"

definition ex_b :: Node where "ex_b = Node_init (NodeID [2]) ''10.0.0.2'' 9000 0"

definition ex_a2 :: Node where "ex_a2 = Node_init (NodeID [1]) ''10.0.0.9'' 9001 5"

definition ex_c :: Node where "ex_c = Node_init (NodeID [3]) ''10.0.0.3'' 9000 0"

definition ex_full :: KBucket where "ex_full = \<lparr>kb_nodes = [ex_a, ex_b], kb_k = 2\<rparr>"

definition ex_room :: KBucket where "ex_room = \<lparr>kb_nodes = [ex_a, ex_b], kb_k = 3\<rparr>"

subsection \<open>An example table\<close>

text \<open>
  A table of a node with the all-zero id, 160 bits and bucket capacity 20, into which two
  contacts are added: \<open>c1_far\<close> (id \<open>00..08\<close>) lands in bucket 156 and \<open>c1_near\<close>
  (id \<open>00..01\<close>) in bucket 159. The target \<open>00..04\<close> belongs to the empty bucket 157.
\<close>

definition c1_local :: NodeID where "c1_local = NodeID (replicate 20 0)"

definition c1_target :: NodeID where "c1_target = NodeID (replicate 19 0 @ [4])"

definition c1_far :: Node where
  "c1_far = Node_init (NodeID (replicate 19 0 @ [8])) ''10.0.0.1'' 9000 0"

definition c1_near :: Node where
  "c1_near = Node_init (NodeID (replicate 19 0 @ [1])) ''10.0.0.2'' 9000 0"

definition c1_table :: RoutingTable where
  "c1_table =
     \<lparr>local_node_id = c1_local, rt_k = 20, rt_bits = 160,
      buckets = (replicate 160 (KBucket_init 20))
        [156 := \<lparr>kb_nodes = [c1_far], kb_k = 20\<rparr>, 159 := \<lparr>kb_nodes = [c1_near], kb_k = 20\<rparr>]\<rparr>"

section \<open>dht/node.py: DHT\<close>

text \<open>
  Python passes dictionaries by reference. The dictionaries a caller hands to the DHT live
  in a store of objects; a \<open>ref\<close> names one of them, and writing through a reference
  changes the object for everyone who holds it.
\<close>

datatype pyval = PyFloat real | PyStr string | PyInt int | PyList "pyval list"

type_synonym ref = nat

type_synonym pydict = "string \<rightharpoonup> pyval"

type_synonym heap = "ref \<Rightarrow> pydict"

text \<open>\<open>d[key] = v\<close> on the dictionary object that \<open>r\<close> names.\<close>

definition dict_setitem :: "heap \<Rightarrow> ref \<Rightarrow> string \<Rightarrow> pyval \<Rightarrow> heap" where
  "dict_setitem h r key v = h(r := (h r)(key \<mapsto> v))"

text \<open>\<open>bytes.hex()\<close>, which is \<open>NodeID.__str__\<close>.\<close>

definition hex_digit :: "nat \<Rightarrow> char" where
  "hex_digit n = ''0123456789abcdef'' ! n"

definition hex_byte :: "8 word \<Rightarrow> string" where
  "hex_byte b = [hex_digit (unat b div 16), hex_digit (unat b mod 16)]"

definition NodeID_str :: "NodeID \<Rightarrow> string" where
  "NodeID_str n = concat (map hex_byte (id_bytes n))"

record 'v DHT =
  dht_node_id :: NodeID
  dht_ip :: string
  dht_port :: int
  local_node :: Node
  routing_table :: RoutingTable
  data_store :: "string \<rightharpoonup> 'v"

definition DHT_init :: "string \<Rightarrow> int \<Rightarrow> NodeID \<Rightarrow> int \<Rightarrow> real \<Rightarrow> 'v DHT" where
  "DHT_init host prt nid cap now =
     \<lparr>dht_node_id = nid, dht_ip = host, dht_port = prt,
      local_node = Node_init nid host prt now,
      routing_table = RoutingTable_init nid cap 160,
      data_store = Map.empty\<rparr>"

definition DHT_store :: "'v DHT \<Rightarrow> string \<Rightarrow> 'v \<Rightarrow> bool \<times> 'v DHT" where
  "DHT_store d key v = (True, d\<lparr>data_store := (data_store d)(key \<mapsto> v)\<rparr>)"

definition DHT_lookup :: "'v DHT \<Rightarrow> string \<Rightarrow> 'v option" where
  "DHT_lookup d key = data_store d key"

definition agent_key :: "string \<Rightarrow> string" where
  "agent_key agent_id = ''agent:'' @ agent_id"

definition DHT_register_agent ::
  "heap \<Rightarrow> ref DHT \<Rightarrow> string \<Rightarrow> ref \<Rightarrow> real \<Rightarrow> heap \<times> bool \<times> ref DHT" where
  "DHT_register_agent h d agent_id metadata now =
     (let key = agent_key agent_id;
          h1 = dict_setitem h metadata ''last_update'' (PyFloat now);
          h2 = dict_setitem h1 metadata ''node_id'' (PyStr (NodeID_str (dht_node_id d)));
          h3 = dict_setitem h2 metadata ''node_ip'' (PyStr (dht_ip d));
          h4 = dict_setitem h3 metadata ''node_port'' (PyInt (dht_port d));
          (ok, d') = DHT_store d key metadata
      in (h4, ok, d'))"

definition DHT_find_agent :: "'v DHT \<Rightarrow> string \<Rightarrow> 'v option" where
  "DHT_find_agent d agent_id = DHT_lookup d (agent_key agent_id)"

definition c8_dht :: "ref DHT" where
  "c8_dht = DHT_init ''127.0.0.1'' 9000 (NodeID (replicate 19 0 @ [171])) 20 0"

definition c8_heap :: heap where
  "c8_heap = (\<lambda>r. Map.empty)(0 := [''k'' \<mapsto> PyStr ''v''])"

section \<open>dht/protocol.py: Message, DHTProtocol\<close>

text \<open>The keys of a message's \<open>data\<close> dictionary that the protocol reads or writes;
  \<open>None\<close> is a key that is absent (for \<open>value\<close>: absent or \<open>null\<close>).\<close>

record 'v MsgData =
  md_request_id :: "string option"
  md_status :: "string option"
  md_key :: "string option"
  md_value :: "'v option"
  md_target_id :: "string option"
  md_nodes :: "(string \<times> string \<times> int) list option"

definition empty_data :: "'v MsgData" where
  "empty_data =
     \<lparr>md_request_id = None, md_status = None, md_key = None, md_value = None,
      md_target_id = None, md_nodes = None\<rparr>"

record 'v Message =
  msg_type :: string
  msg_sender_id :: string
  msg_data :: "'v MsgData"
  msg_message_id :: string

text \<open>Python's truth value of an optional string: absent and empty are false.\<close>

definition truthy :: "string option \<Rightarrow> bool" where
  "truthy s = (case s of None \<Rightarrow> False | Some v \<Rightarrow> v \<noteq> [])"

text \<open>\<open>str(n)\<close> of an integer, in decimal.\<close>

definition digit_char :: "nat \<Rightarrow> char" where
  "digit_char n = ''0123456789'' ! n"

fun str_nat :: "nat \<Rightarrow> string" where
  "str_nat n = (if n < 10 then [digit_char n] else str_nat (n div 10) @ [digit_char (n mod 10)])"

declare str_nat.simps [simp del]

definition str_int :: "int \<Rightarrow> string" where
  "str_int i = (if i < 0 then CHR ''-'' # str_nat (nat (- i)) else str_nat (nat i))"

text \<open>\<open>Message.__init__\<close>: a message without an id derives one,
  \<open>str(hash(str(data) + str(sender_id)))\<close>. The interpreter's string hash, applied to the
  data and the sender, is the parameter \<open>H\<close>.\<close>

definition derive_id :: "('v MsgData \<Rightarrow> string \<Rightarrow> int) \<Rightarrow> 'v MsgData \<Rightarrow> string \<Rightarrow> string" where
  "derive_id H d sender = str_int (H d sender)"

definition Message_init ::
  "('v MsgData \<Rightarrow> string \<Rightarrow> int) \<Rightarrow> string \<Rightarrow> string \<Rightarrow> 'v MsgData \<Rightarrow> string option \<Rightarrow> 'v Message" where
  "Message_init H mtype sender d mid =
     \<lparr>msg_type = mtype, msg_sender_id = sender, msg_data = d,
      msg_message_id = (if truthy mid then the mid else derive_id H d sender)\<rparr>"

definition MSG_PONG :: string where "MSG_PONG = ''pong''"

text \<open>A future (\<open>asyncio.Future\<close>) is an object: the pending-request table and the
  waiting coroutine hold references to it.\<close>

datatype 'm Future = Pending | Result 'm | Cancelled

record 'v DHTProtocol =
  dht :: "'v DHT"
  transport :: bool
  pending_requests :: "string \<rightharpoonup> nat"
  futures :: "nat \<rightharpoonup> 'v Message Future"
  next_future :: nat
  sent :: "('v Message \<times> string \<times> int) list"

text \<open>\<open>_send_message\<close>: the datagram goes out when a transport is there; otherwise the
  error is logged and nothing is sent. \<open>sent\<close> records what was handed to
  \<open>transport.sendto\<close>.\<close>

definition send_message :: "'v DHTProtocol \<Rightarrow> 'v Message \<Rightarrow> string \<times> int \<Rightarrow> 'v DHTProtocol" where
  "send_message p message addr =
     (if transport p then p\<lparr>sent := sent p @ [(message, addr)]\<rparr> else p)"

definition handle_store ::
  "('v MsgData \<Rightarrow> string \<Rightarrow> int) \<Rightarrow> 'v DHTProtocol \<Rightarrow> 'v Message \<Rightarrow> string \<times> int \<Rightarrow> 'v DHTProtocol" where
  "handle_store H p message addr =
     (let key = md_key (msg_data message); v = md_value (msg_data message)
      in if truthy key \<and> v \<noteq> None then
           let p1 = p\<lparr>dht := (dht p)\<lparr>data_store := (data_store (dht p))(the key \<mapsto> the v)\<rparr>\<rparr>;
               response = Message_init H MSG_PONG (NodeID_str (dht_node_id (dht p1)))
                 (empty_data\<lparr>md_request_id := Some (msg_message_id message),
                              md_status := Some ''success''\<rparr>) None
           in send_message p1 response addr
         else p)"

text \<open>The pong that acknowledges a store request.\<close>

definition store_ack :: "('v MsgData \<Rightarrow> string \<Rightarrow> int) \<Rightarrow> 'v DHTProtocol \<Rightarrow> 'v Message \<Rightarrow> 'v Message" where
  "store_ack H p message =
     (let d = empty_data\<lparr>md_request_id := Some (msg_message_id message),
                         md_status := Some ''success''\<rparr>;
          sender = NodeID_str (dht_node_id (dht p))
      in \<lparr>msg_type = ''pong'', msg_sender_id = sender, msg_data = d,
          msg_message_id = derive_id H d sender\<rparr>)"

definition demo_proto :: "int DHTProtocol" where
  "demo_proto =
     \<lparr>dht = DHT_init ''127.0.0.1'' 9000 (NodeID (replicate 19 0 @ [171])) 20 0,
      transport = True, pending_requests = Map.empty, futures = Map.empty, next_future = 0,
      sent = []\<rparr>"

definition demo_dht_hash :: "int MsgData \<Rightarrow> string \<Rightarrow> int" where
  "demo_dht_hash d sender = int (length sender) + 7"

definition c10_request :: "string option \<Rightarrow> int option \<Rightarrow> int Message" where
  "c10_request key v =
     \<lparr>msg_type = ''store'', msg_sender_id = ''peer'',
      msg_data = empty_data\<lparr>md_key := key, md_value := v\<rparr>, msg_message_id = ''77''\<rparr>"

subsection \<open>Requests and their pending futures\<close>













section \<open>gossip/protocol.py: GossipMessage\<close>

definition DEFAULT_GOSSIP_INTERVAL :: real where "DEFAULT_GOSSIP_INTERVAL = 5"

definition DEFAULT_CLEANUP_INTERVAL :: real where "DEFAULT_CLEANUP_INTERVAL = 30"

definition DEFAULT_SUSPICION_TIMEOUT :: real where "DEFAULT_SUSPICION_TIMEOUT = 10"

definition DEFAULT_DEAD_TIMEOUT :: real where "DEFAULT_DEAD_TIMEOUT = 60"

definition DEFAULT_MAX_TRANSMIT_COUNT :: int where "DEFAULT_MAX_TRANSMIT_COUNT = 3"

text \<open>\<open>NodeState\<close>: the three state strings.\<close>

definition ALIVE :: string where "ALIVE = ''alive''"

definition SUSPECT :: string where "SUSPECT = ''suspect''"

definition DEAD :: string where "DEAD = ''dead''"

text \<open>A peer dictionary, with the keys the protocol reads; a key can be absent (an entry
  taken over from a \<open>state\<close> message has the keys its sender put there).\<close>

record PeerEntry =
  peer_ip :: "string option"
  peer_port :: "int option"
  peer_state :: "string option"
  peer_last_seen :: "real option"
  peer_suspect_time :: "real option"
  peer_incarnation :: "int option"

text \<open>The dictionary form of an agent presence, as it travels in a message.\<close>

record PresenceDict =
  pd_agent_id :: "string option"
  pd_node_id :: "string option"
  pd_capabilities :: "string list option"
  pd_last_updated :: "real option"
  pd_status :: "string option"

text \<open>The \<open>data\<close> dictionary of a gossip message, with the keys the protocol and the
  presence service read.\<close>

record GossipData =
  gd_target :: "string option"
  gd_peers :: "(string \<times> PeerEntry) list option"
  gd_peer_id :: "string option"
  gd_presence :: "PresenceDict option"
  gd_agent_id :: "string option"
  gd_node_id :: "string option"
  gd_requester :: "string option"
  gd_error :: "string option"

definition no_data :: GossipData where
  "no_data =
     \<lparr>gd_target = None, gd_peers = None, gd_peer_id = None, gd_presence = None,
      gd_agent_id = None, gd_node_id = None, gd_requester = None, gd_error = None\<rparr>"

text \<open>The message id is the string \<open>f"{sender_id}:{timestamp}:{hash(str(data))}"\<close>; the
  model keeps its three parts. The interpreter's hash of \<open>str(data)\<close> is the parameter
  \<open>H\<close>.\<close>

record GossipMessage =
  sender_id :: string
  message_type :: string
  data :: GossipData
  timestamp :: real
  ttl :: int
  message_id :: "string \<times> real \<times> int"

text \<open>\<open>GossipMessage.__init__\<close>; \<open>timestamp or time.time()\<close> replaces a missing or
  zero timestamp by the current time.\<close>

definition GossipMessage_init ::
  "(GossipData \<Rightarrow> int) \<Rightarrow> string \<Rightarrow> string \<Rightarrow> GossipData \<Rightarrow> real option \<Rightarrow> int \<Rightarrow> real \<Rightarrow> GossipMessage" where
  "GossipMessage_init H sender mtype d ts hops now =
     (let t = (case ts of None \<Rightarrow> now | Some v \<Rightarrow> if v = 0 then now else v)
      in \<lparr>sender_id = sender, message_type = mtype, data = d, timestamp = t, ttl = hops,
          message_id = (sender, t, H d)\<rparr>)"

text \<open>A decoded JSON object of a datagram, and \<open>GossipMessage.from_dict\<close>.\<close>

record WireMessage =
  w_sender_id :: "string option"
  w_type :: "string option"
  w_data :: "GossipData option"
  w_timestamp :: "real option"
  w_ttl :: "int option"

definition from_dict :: "(GossipData \<Rightarrow> int) \<Rightarrow> WireMessage \<Rightarrow> real \<Rightarrow> GossipMessage" where
  "from_dict H w now =
     GossipMessage_init H
       (case w_sender_id w of None \<Rightarrow> [] | Some s \<Rightarrow> s)
       (case w_type w of None \<Rightarrow> [] | Some t \<Rightarrow> t)
       (case w_data w of None \<Rightarrow> no_data | Some d \<Rightarrow> d)
       (Some (case w_timestamp w of None \<Rightarrow> now | Some t \<Rightarrow> t))
       (case w_ttl w of None \<Rightarrow> DEFAULT_MAX_TRANSMIT_COUNT | Some h \<Rightarrow> h)
       now"

text \<open>A datagram either fails to parse as JSON or carries an object whose fields have
  the types that the protocol expects.\<close>

datatype datagram = Malformed | Json WireMessage

definition decode :: "(GossipData \<Rightarrow> int) \<Rightarrow> datagram \<Rightarrow> real \<Rightarrow> GossipMessage" where
  "decode H dg now =
     (case dg of
        Malformed \<Rightarrow>
          GossipMessage_init H ''unknown'' ''error''
            (no_data\<lparr>gd_error := Some ''Invalid message format''\<rparr>) None
            DEFAULT_MAX_TRANSMIT_COUNT now
      | Json w \<Rightarrow> from_dict H w now)"

section \<open>gossip/protocol.py: GossipProtocol\<close>

text \<open>
  The protocol object. \<open>peers\<close> and \<open>message_cache\<close> are dictionaries in insertion
  order. Registered callbacks are named by numbers. \<open>gp_sent\<close> lists the datagrams
  handed to the transport and \<open>gp_fired\<close> the callback invocations, both oldest first.
\<close>

record GossipProtocol =
  gp_node_id :: string
  gp_transport :: bool
  peers :: "(string \<times> PeerEntry) list"
  message_cache :: "((string \<times> real \<times> int) \<times> real) list"
  callbacks :: "(string \<times> nat list) list"
  gossip_interval :: real
  cleanup_interval :: real
  suspicion_timeout :: real
  dead_timeout :: real
  gp_sent :: "(GossipMessage \<times> string \<times> int) list"
  gp_fired :: "(nat \<times> GossipMessage) list"

definition GossipProtocol_init :: "string \<Rightarrow> GossipProtocol" where
  "GossipProtocol_init nid =
     \<lparr>gp_node_id = nid, gp_transport = False, peers = [], message_cache = [], callbacks = [],
      gossip_interval = DEFAULT_GOSSIP_INTERVAL, cleanup_interval = DEFAULT_CLEANUP_INTERVAL,
      suspicion_timeout = DEFAULT_SUSPICION_TIMEOUT, dead_timeout = DEFAULT_DEAD_TIMEOUT,
      gp_sent = [], gp_fired = []\<rparr>"

text \<open>A step either returns or raises; in both cases the changes made so far stay.\<close>

datatype outcome = Ok GossipProtocol | Raise PyError GossipProtocol

fun state_of :: "outcome \<Rightarrow> GossipProtocol" where
  "state_of (Ok s) = s"
| "state_of (Raise e s) = s"

fun and_then :: "outcome \<Rightarrow> (GossipProtocol \<Rightarrow> outcome) \<Rightarrow> outcome" where
  "and_then (Ok s) f = f s"
| "and_then (Raise e s) f = Raise e s"

definition set_peer :: "GossipProtocol \<Rightarrow> string \<Rightarrow> PeerEntry \<Rightarrow> GossipProtocol" where
  "set_peer s peer_id e = s\<lparr>peers := AList.update peer_id e (peers s)\<rparr>"

definition should_process_message :: "GossipProtocol \<Rightarrow> GossipMessage \<Rightarrow> real \<Rightarrow> bool \<times> GossipProtocol" where
  "should_process_message s message now =
     (if sender_id message = gp_node_id s then (False, s)
      else if map_of (message_cache s) (message_id message) \<noteq> None then (False, s)
      else if ttl message \<le> 0 then (False, s)
      else (True, s\<lparr>message_cache := AList.update (message_id message) now (message_cache s)\<rparr>))"

text \<open>\<open>_update_peer\<close>. Reading a key that the entry lacks raises \<open>KeyError\<close>.\<close>

definition update_peer ::
  "GossipProtocol \<Rightarrow> string \<Rightarrow> string \<Rightarrow> int \<Rightarrow> string \<Rightarrow> real \<Rightarrow> outcome" where
  "update_peer s peer_id host prt st now =
     (if peer_id = gp_node_id s then Ok s
      else
        case map_of (peers s) peer_id of
          Some e \<Rightarrow>
            let e1 = e\<lparr>peer_last_seen := Some now\<rparr>
            in (case (if st = DEAD then Inr True
                      else if st = SUSPECT then
                        (case peer_state e1 of None \<Rightarrow> Inl KeyError | Some cur \<Rightarrow> Inr (cur = ALIVE))
                      else Inr False) of
                  Inl err \<Rightarrow> Raise err (set_peer s peer_id e1)
                | Inr newer \<Rightarrow>
                    let e2 = (if newer then e1\<lparr>peer_state := Some st\<rparr> else e1)
                    in (case peer_ip e2 of
                          None \<Rightarrow> Raise KeyError (set_peer s peer_id e2)
                        | Some cur_ip \<Rightarrow>
                            if cur_ip \<noteq> host
                            then Ok (set_peer s peer_id (e2\<lparr>peer_ip := Some host, peer_port := Some prt\<rparr>))
                            else
                              (case peer_port e2 of
                                 None \<Rightarrow> Raise KeyError (set_peer s peer_id e2)
                               | Some cur_port \<Rightarrow>
                                   if cur_port \<noteq> prt
                                   then Ok (set_peer s peer_id
                                          (e2\<lparr>peer_ip := Some host, peer_port := Some prt\<rparr>))
                                   else Ok (set_peer s peer_id e2))))
        | None \<Rightarrow>
            Ok (set_peer s peer_id
                 \<lparr>peer_ip = Some host, peer_port = Some prt, peer_state = Some st,
                  peer_last_seen = Some now, peer_suspect_time = None,
                  peer_incarnation = Some 0\<rparr>))"

text \<open>\<open>_send_message\<close>: without a transport the error is logged and nothing is sent.\<close>

definition gossip_send :: "GossipProtocol \<Rightarrow> GossipMessage \<Rightarrow> string \<times> int \<Rightarrow> GossipProtocol" where
  "gossip_send s message addr =
     (if gp_transport s then s\<lparr>gp_sent := gp_sent s @ [(message, addr)]\<rparr> else s)"

text \<open>\<open>[p for p in self.peers.values() if p["state"] != NodeState.DEAD]\<close>.\<close>

fun live_peers :: "(string \<times> PeerEntry) list \<Rightarrow> PyError + PeerEntry list" where
  "live_peers [] = Inr []"
| "live_peers ((peer_id, e) # ps) =
     (case peer_state e of
        None \<Rightarrow> Inl KeyError
      | Some st \<Rightarrow>
          (case live_peers ps of
             Inl err \<Rightarrow> Inl err
           | Inr rest \<Rightarrow> Inr (if st \<noteq> DEAD then e # rest else rest)))"

text \<open>\<open>for peer in targets: self._send_message(message, (peer["ip"], peer["port"]))\<close>.\<close>

fun send_to_peers :: "GossipProtocol \<Rightarrow> GossipMessage \<Rightarrow> PeerEntry list \<Rightarrow> outcome" where
  "send_to_peers s message [] = Ok s"
| "send_to_peers s message (peer # rest) =
     (case peer_ip peer of
        None \<Rightarrow> Raise KeyError s
      | Some host \<Rightarrow>
          (case peer_port peer of
             None \<Rightarrow> Raise KeyError s
           | Some prt \<Rightarrow> send_to_peers (gossip_send s message (host, prt)) message rest))"

text \<open>\<open>int(n ** 0.5)\<close>: the integer part of the square root, here computed on integers.\<close>

fun floor_sqrt_upto :: "nat \<Rightarrow> nat \<Rightarrow> nat" where
  "floor_sqrt_upto n 0 = 0"
| "floor_sqrt_upto n (Suc r) = (if Suc r * Suc r \<le> n then Suc r else floor_sqrt_upto n r)"

definition floor_sqrt :: "nat \<Rightarrow> nat" where
  "floor_sqrt n = floor_sqrt_upto n n"

definition target_count :: "nat \<Rightarrow> nat" where
  "target_count n = min n (max 3 (floor_sqrt n))"

text \<open>\<open>_propagate_message\<close>. The outcome of \<open>random.sample\<close> is the parameter
  \<open>pick\<close>.\<close>

definition propagate_message ::
  "(GossipData \<Rightarrow> int) \<Rightarrow> (PeerEntry list \<Rightarrow> nat \<Rightarrow> PeerEntry list) \<Rightarrow>
     GossipProtocol \<Rightarrow> GossipMessage \<Rightarrow> real \<Rightarrow> outcome" where
  "propagate_message H pick s message now =
     (if ttl message \<le> 1 then Ok s
      else
        let new_message = GossipMessage_init H (sender_id message) (message_type message)
              (data message) (Some (timestamp message)) (ttl message - 1) now
        in case live_peers (peers s) of
             Inl err \<Rightarrow> Raise err s
           | Inr live \<Rightarrow>
               if live = [] then Ok s
               else send_to_peers s new_message (pick live (target_count (length live))))"

definition handle_ping ::
  "(GossipData \<Rightarrow> int) \<Rightarrow> GossipProtocol \<Rightarrow> GossipMessage \<Rightarrow> string \<times> int \<Rightarrow> real \<Rightarrow> GossipProtocol" where
  "handle_ping H s message addr now =
     gossip_send s
       (GossipMessage_init H (gp_node_id s) ''ack'' (no_data\<lparr>gd_target := Some (sender_id message)\<rparr>)
          None DEFAULT_MAX_TRANSMIT_COUNT now)
       addr"

definition handle_ack :: "GossipProtocol \<Rightarrow> GossipMessage \<Rightarrow> outcome" where
  "handle_ack s message =
     (if gd_target (data message) = Some (gp_node_id s) then
        (case map_of (peers s) (sender_id message) of
           None \<Rightarrow> Ok s
         | Some e \<Rightarrow>
             (case peer_state e of
                None \<Rightarrow> Raise KeyError s
              | Some st \<Rightarrow>
                  if st = SUSPECT then Ok (set_peer s (sender_id message) (e\<lparr>peer_state := Some ALIVE\<rparr>))
                  else Ok s))
      else Ok s)"

definition handle_sync ::
  "(GossipData \<Rightarrow> int) \<Rightarrow> GossipProtocol \<Rightarrow> GossipMessage \<Rightarrow> string \<times> int \<Rightarrow> real \<Rightarrow> GossipProtocol" where
  "handle_sync H s message addr now =
     gossip_send s
       (GossipMessage_init H (gp_node_id s) ''state'' (no_data\<lparr>gd_peers := Some (peers s)\<rparr>)
          None DEFAULT_MAX_TRANSMIT_COUNT now)
       addr"

text \<open>\<open>peer_data.get("incarnation", 0)\<close> and \<open>dict.update\<close>: the keys of the second
  dictionary overwrite those of the first.\<close>

definition incarnation_of :: "PeerEntry \<Rightarrow> int" where
  "incarnation_of e = (case peer_incarnation e of None \<Rightarrow> 0 | Some i \<Rightarrow> i)"

definition or_else :: "'a option \<Rightarrow> 'a option \<Rightarrow> 'a option" where
  "or_else x y = (case x of None \<Rightarrow> y | Some v \<Rightarrow> Some v)"

definition entry_update :: "PeerEntry \<Rightarrow> PeerEntry \<Rightarrow> PeerEntry" where
  "entry_update e d =
     \<lparr>peer_ip = or_else (peer_ip d) (peer_ip e),
      peer_port = or_else (peer_port d) (peer_port e),
      peer_state = or_else (peer_state d) (peer_state e),
      peer_last_seen = or_else (peer_last_seen d) (peer_last_seen e),
      peer_suspect_time = or_else (peer_suspect_time d) (peer_suspect_time e),
      peer_incarnation = or_else (peer_incarnation d) (peer_incarnation e)\<rparr>"

text \<open>
  One round of the loop of \<open>_handle_state\<close>. The dictionary of a new peer is taken
  over by reference, \<open>self.peers[peer_id] = peer_data\<close>, and then stamped with
  \<open>last_seen\<close>: the stamp lands in the message's data as well. The round returns the
  peer table and the entry as the message holds it afterwards.
\<close>

definition merge_remote_peer ::
  "string \<Rightarrow> real \<Rightarrow> string \<times> PeerEntry \<Rightarrow> (string \<times> PeerEntry) list \<Rightarrow>
     (string \<times> PeerEntry) list \<times> (string \<times> PeerEntry)" where
  "merge_remote_peer self now remote ps =
     (let peer_id = fst remote; peer_data = snd remote
      in if peer_id = self then (ps, remote)
         else
           case map_of ps peer_id of
             Some e \<Rightarrow>
               if incarnation_of peer_data > incarnation_of e
               then (AList.update peer_id (entry_update e peer_data) ps, remote)
               else (ps, remote)
           | None \<Rightarrow>
               if peer_ip peer_data \<noteq> None \<and> peer_port peer_data \<noteq> None
               then
                 let stamped = peer_data\<lparr>peer_last_seen := Some now\<rparr>
                 in (AList.update peer_id stamped ps, (peer_id, stamped))
               else (ps, remote))"

text \<open>The loop over \<open>remote_peers.items()\<close>.\<close>

fun merge_remote_peers ::
  "string \<Rightarrow> real \<Rightarrow> (string \<times> PeerEntry) list \<Rightarrow> (string \<times> PeerEntry) list \<Rightarrow>
     (string \<times> PeerEntry) list \<times> (string \<times> PeerEntry) list" where
  "merge_remote_peers self now [] ps = (ps, [])"
| "merge_remote_peers self now (remote # rest) ps =
     (let (ps1, remote') = merge_remote_peer self now remote ps;
          (ps2, rest') = merge_remote_peers self now rest ps1
      in (ps2, remote' # rest'))"

text \<open>\<open>_handle_state\<close> returns the protocol state and the message, whose \<open>peers\<close>
  entries it may have stamped.\<close>

definition handle_state ::
  "GossipProtocol \<Rightarrow> GossipMessage \<Rightarrow> real \<Rightarrow> GossipProtocol \<times> GossipMessage" where
  "handle_state s message now =
     (case gd_peers (data message) of
        None \<Rightarrow> (s, message)
      | Some remote_peers \<Rightarrow>
          let (ps, remote_peers') = merge_remote_peers (gp_node_id s) now remote_peers (peers s)
          in (s\<lparr>peers := ps\<rparr>,
              message\<lparr>data := (data message)\<lparr>gd_peers := Some remote_peers'\<rparr>\<rparr>))"

definition handle_suspect :: "GossipProtocol \<Rightarrow> GossipMessage \<Rightarrow> real \<Rightarrow> outcome" where
  "handle_suspect s message now =
     (let suspect_id = gd_peer_id (data message)
      in if \<not> truthy suspect_id \<or> suspect_id = Some (gp_node_id s) then Ok s
         else
           case map_of (peers s) (the suspect_id) of
             None \<Rightarrow> Ok s
           | Some e \<Rightarrow>
               (case peer_state e of
                  None \<Rightarrow> Raise KeyError s
                | Some st \<Rightarrow>
                    if st \<noteq> DEAD
                    then Ok (set_peer s (the suspect_id)
                           (e\<lparr>peer_state := Some SUSPECT, peer_suspect_time := Some now\<rparr>))
                    else Ok s))"

definition handle_dead :: "GossipProtocol \<Rightarrow> GossipMessage \<Rightarrow> GossipProtocol" where
  "handle_dead s message =
     (let dead_id = gd_peer_id (data message)
      in if \<not> truthy dead_id \<or> dead_id = Some (gp_node_id s) then s
         else
           case map_of (peers s) (the dead_id) of
             None \<Rightarrow> s
           | Some e \<Rightarrow> set_peer s (the dead_id) (e\<lparr>peer_state := Some DEAD\<rparr>))"

text \<open>\<open>_trigger_callbacks\<close>: every callback registered for the message type is called
  with the message; what a callback raises is caught and logged.\<close>

definition registered :: "GossipProtocol \<Rightarrow> string \<Rightarrow> nat list" where
  "registered s mtype = (case map_of (callbacks s) mtype of None \<Rightarrow> [] | Some cbs \<Rightarrow> cbs)"

definition trigger_callbacks :: "GossipProtocol \<Rightarrow> GossipMessage \<Rightarrow> GossipProtocol" where
  "trigger_callbacks s message =
     s\<lparr>gp_fired := gp_fired s @ map (\<lambda>cb. (cb, message)) (registered s (message_type message))\<rparr>"

definition register_callback :: "GossipProtocol \<Rightarrow> string \<Rightarrow> nat \<Rightarrow> GossipProtocol" where
  "register_callback s mtype cb =
     s\<lparr>callbacks := AList.update mtype (registered s mtype @ [cb]) (callbacks s)\<rparr>"

text \<open>The \<open>if/elif\<close> chain of \<open>_process_message\<close> that picks the handler. The
  message is an object that the handler can write to; it is returned as the handler
  leaves it.\<close>

definition dispatch ::
  "(GossipData \<Rightarrow> int) \<Rightarrow> GossipProtocol \<Rightarrow> GossipMessage \<Rightarrow> string \<times> int \<Rightarrow> real \<Rightarrow>
     outcome \<times> GossipMessage" where
  "dispatch H s message addr now =
     (if message_type message = ''ping'' then (Ok (handle_ping H s message addr now), message)
      else if message_type message = ''ack'' then (handle_ack s message, message)
      else if message_type message = ''sync'' then (Ok (handle_sync H s message addr now), message)
      else if message_type message = ''state'' then
        (let (s1, message1) = handle_state s message now in (Ok s1, message1))
      else if message_type message = ''suspect'' then (handle_suspect s message now, message)
      else if message_type message = ''dead'' then (Ok (handle_dead s message), message)
      else (Ok s, message))"

text \<open>The part of \<open>_process_message\<close> before the callbacks: the sender is noted as
  alive, then the handler of the message type runs.\<close>

definition builtin_handling ::
  "(GossipData \<Rightarrow> int) \<Rightarrow> GossipProtocol \<Rightarrow> GossipMessage \<Rightarrow> string \<times> int \<Rightarrow> real \<Rightarrow>
     outcome \<times> GossipMessage" where
  "builtin_handling H s message addr now =
     (case update_peer s (sender_id message) (fst addr) (snd addr) ALIVE now of
        Raise err s1 \<Rightarrow> (Raise err s1, message)
      | Ok s1 \<Rightarrow> dispatch H s1 message addr now)"

text \<open>\<open>_process_message\<close>: after the handler, the callbacks and the propagation work on
  the message as the handler left it.\<close>

definition process_message ::
  "(GossipData \<Rightarrow> int) \<Rightarrow> (PeerEntry list \<Rightarrow> nat \<Rightarrow> PeerEntry list) \<Rightarrow>
     GossipProtocol \<Rightarrow> GossipMessage \<Rightarrow> string \<times> int \<Rightarrow> real \<Rightarrow> outcome" where
  "process_message H pick s message addr now =
     (let (handled, message1) = builtin_handling H s message addr now
      in and_then handled
           (\<lambda>s2. propagate_message H pick (trigger_callbacks s2 message1) message1 now))"

text \<open>\<open>datagram_received\<close>: whatever the processing raises is caught and logged.\<close>

definition datagram_received ::
  "(GossipData \<Rightarrow> int) \<Rightarrow> (PeerEntry list \<Rightarrow> nat \<Rightarrow> PeerEntry list) \<Rightarrow>
     GossipProtocol \<Rightarrow> datagram \<Rightarrow> string \<times> int \<Rightarrow> real \<Rightarrow> GossipProtocol" where
  "datagram_received H pick s dg addr now =
     (let message = decode H dg now;
          (ok, s1) = should_process_message s message now
      in if ok then state_of (process_message H pick s1 message addr now) else s1)"

definition add_peer :: "GossipProtocol \<Rightarrow> string \<Rightarrow> string \<Rightarrow> int \<Rightarrow> real \<Rightarrow> outcome" where
  "add_peer s peer_id host prt now = update_peer s peer_id host prt ALIVE now"

text \<open>\<open>_propagate_to_all\<close>.\<close>

fun propagate_to_entries :: "GossipProtocol \<Rightarrow> GossipMessage \<Rightarrow> PeerEntry list \<Rightarrow> outcome" where
  "propagate_to_entries s message [] = Ok s"
| "propagate_to_entries s message (peer # rest) =
     (case peer_state peer of
        None \<Rightarrow> Raise KeyError s
      | Some st \<Rightarrow>
          if st \<noteq> DEAD then
            (case peer_ip peer of
               None \<Rightarrow> Raise KeyError s
             | Some host \<Rightarrow>
                 (case peer_port peer of
                    None \<Rightarrow> Raise KeyError s
                  | Some prt \<Rightarrow>
                      propagate_to_entries (gossip_send s message (host, prt)) message rest))
          else propagate_to_entries s message rest)"

definition propagate_to_all :: "GossipProtocol \<Rightarrow> GossipMessage \<Rightarrow> outcome" where
  "propagate_to_all s message = propagate_to_entries s message (map snd (peers s))"

text \<open>The body of the loop of \<open>_check_peers\<close> for one peer of the snapshot
  \<open>list(self.peers.items())\<close>, and the loop over the snapshot's keys.\<close>

definition check_peer :: "(GossipData \<Rightarrow> int) \<Rightarrow> real \<Rightarrow> string \<Rightarrow> GossipProtocol \<Rightarrow> outcome" where
  "check_peer H now peer_id s =
     (case map_of (peers s) peer_id of
        None \<Rightarrow> Ok s
      | Some peer \<Rightarrow>
          (case peer_state peer of
             None \<Rightarrow> Raise KeyError s
           | Some st \<Rightarrow>
               if st = DEAD then
                 (case peer_last_seen peer of
                    None \<Rightarrow> Raise KeyError s
                  | Some seen \<Rightarrow>
                      if now - seen > dead_timeout s
                      then Ok (s\<lparr>peers := AList.delete peer_id (peers s)\<rparr>)
                      else Ok s)
               else if st = SUSPECT then
                 (case peer_suspect_time peer of
                    None \<Rightarrow> Ok s
                  | Some since \<Rightarrow>
                      if now - since > suspicion_timeout s then
                        propagate_to_all (set_peer s peer_id (peer\<lparr>peer_state := Some DEAD\<rparr>))
                          (GossipMessage_init H (gp_node_id s) ''dead''
                             (no_data\<lparr>gd_peer_id := Some peer_id\<rparr>) None
                             DEFAULT_MAX_TRANSMIT_COUNT now)
                      else Ok s)
               else if st = ALIVE then
                 (case peer_last_seen peer of
                    None \<Rightarrow> Raise KeyError s
                  | Some seen \<Rightarrow>
                      if now - seen > suspicion_timeout s then
                        let s1 = set_peer s peer_id
                              (peer\<lparr>peer_state := Some SUSPECT, peer_suspect_time := Some now\<rparr>)
                        in and_then
                             (send_to_peers s1
                                (GossipMessage_init H (gp_node_id s) ''ping'' no_data None
                                   DEFAULT_MAX_TRANSMIT_COUNT now)
                                [peer])
                             (\<lambda>s2. propagate_to_all s2
                                (GossipMessage_init H (gp_node_id s) ''suspect''
                                   (no_data\<lparr>gd_peer_id := Some peer_id\<rparr>) None
                                   DEFAULT_MAX_TRANSMIT_COUNT now))
                      else Ok s)
               else Ok s))"

fun check_peers_loop :: "(GossipData \<Rightarrow> int) \<Rightarrow> real \<Rightarrow> string list \<Rightarrow> GossipProtocol \<Rightarrow> outcome" where
  "check_peers_loop H now [] s = Ok s"
| "check_peers_loop H now (peer_id # rest) s =
     and_then (check_peer H now peer_id s) (check_peers_loop H now rest)"

definition check_peers :: "(GossipData \<Rightarrow> int) \<Rightarrow> GossipProtocol \<Rightarrow> real \<Rightarrow> outcome" where
  "check_peers H s now = check_peers_loop H now (map fst (peers s)) s"

definition clean_message_cache :: "GossipProtocol \<Rightarrow> real \<Rightarrow> GossipProtocol" where
  "clean_message_cache s now =
     s\<lparr>message_cache :=
         filter (\<lambda>(msg_id, received). \<not> now - received > cleanup_interval s * 2) (message_cache s)\<rparr>"

text \<open>One round of \<open>_cleanup_task\<close>: when \<open>_check_peers\<close> raises, the round ends there
  and the cache is not cleaned.\<close>

definition cleanup_round :: "(GossipData \<Rightarrow> int) \<Rightarrow> GossipProtocol \<Rightarrow> real \<Rightarrow> GossipProtocol" where
  "cleanup_round H s now =
     (case check_peers H s now of
        Raise err s1 \<Rightarrow> s1
      | Ok s1 \<Rightarrow> clean_message_cache s1 now)"

text \<open>\<open>_gossip\<close>, one round of the gossip task; \<open>select\<close> is the outcome of
  \<open>random.choice\<close>.\<close>

definition gossip_round ::
  "(GossipData \<Rightarrow> int) \<Rightarrow> (PeerEntry list \<Rightarrow> PeerEntry) \<Rightarrow> GossipProtocol \<Rightarrow> real \<Rightarrow> GossipProtocol" where
  "gossip_round H select s now =
     (case live_peers (peers s) of
        Inl err \<Rightarrow> s
      | Inr live \<Rightarrow>
          if live = [] then s
          else state_of (send_to_peers s
                 (GossipMessage_init H (gp_node_id s) ''sync'' no_data None
                    DEFAULT_MAX_TRANSMIT_COUNT now)
                 [select live]))"

text \<open>The events that change a node's peer table, each with the outcome of the random
  draw it makes, and a node's run through a list of timed events.\<close>

datatype gossip_event =
    Receive datagram "string \<times> int" "PeerEntry list \<Rightarrow> nat \<Rightarrow> PeerEntry list"
  | AddPeer string string int
  | CleanupRound
  | GossipRound "PeerEntry list \<Rightarrow> PeerEntry"

definition gossip_step ::
  "(GossipData \<Rightarrow> int) \<Rightarrow> GossipProtocol \<Rightarrow> gossip_event \<Rightarrow> real \<Rightarrow> GossipProtocol" where
  "gossip_step H s ev now =
     (case ev of
        Receive dg addr pick \<Rightarrow> datagram_received H pick s dg addr now
      | AddPeer peer_id host prt \<Rightarrow> state_of (add_peer s peer_id host prt now)
      | CleanupRound \<Rightarrow> cleanup_round H s now
      | GossipRound select \<Rightarrow> gossip_round H select s now)"

fun gossip_run ::
  "(GossipData \<Rightarrow> int) \<Rightarrow> GossipProtocol \<Rightarrow> (gossip_event \<times> real) list \<Rightarrow> GossipProtocol" where
  "gossip_run H s [] = s"
| "gossip_run H s ((ev, now) # rest) = gossip_run H (gossip_step H s ev now) rest"

text \<open>The peer is recorded as dead, with incarnation \<open>i\<close>.\<close>

definition dead_with :: "GossipProtocol \<Rightarrow> string \<Rightarrow> int \<Rightarrow> bool" where
  "dead_with s p i =
     (case map_of (peers s) p of
        None \<Rightarrow> False
      | Some e \<Rightarrow> peer_state e = Some DEAD \<and> incarnation_of e = i)"

text \<open>The cleanup round finds the dead peer unseen for longer than \<open>dead_timeout\<close>.\<close>

definition expired :: "GossipProtocol \<Rightarrow> string \<Rightarrow> real \<Rightarrow> bool" where
  "expired s p now =
     (case map_of (peers s) p of
        None \<Rightarrow> False
      | Some e \<Rightarrow>
          (case peer_last_seen e of None \<Rightarrow> False | Some seen \<Rightarrow> now - seen > dead_timeout s))"

text \<open>The event is an accepted \<open>state\<close> message with an entry for the peer whose
  incarnation (0 when the entry has none) is above \<open>i\<close>.\<close>

definition remote_peers :: "GossipMessage \<Rightarrow> (string \<times> PeerEntry) list" where
  "remote_peers message = (case gd_peers (data message) of None \<Rightarrow> [] | Some ps \<Rightarrow> ps)"

definition higher_incarnation_sync ::
  "(GossipData \<Rightarrow> int) \<Rightarrow> GossipProtocol \<Rightarrow> gossip_event \<Rightarrow> real \<Rightarrow> string \<Rightarrow> int \<Rightarrow> bool" where
  "higher_incarnation_sync H s ev now p i =
     (case ev of
        Receive dg addr pick \<Rightarrow>
          message_type (decode H dg now) = ''state'' \<and>
          fst (should_process_message s (decode H dg now) now) \<and>
          list_ex (\<lambda>(q, d). q = p \<and> incarnation_of d > i) (remote_peers (decode H dg now))
      | _ \<Rightarrow> False)"

text \<open>The two ways out of the dead state.\<close>

definition leaves_dead ::
  "(GossipData \<Rightarrow> int) \<Rightarrow> GossipProtocol \<Rightarrow> gossip_event \<Rightarrow> real \<Rightarrow> string \<Rightarrow> int \<Rightarrow> bool" where
  "leaves_dead H s ev now p i =
     ((ev = CleanupRound \<and> expired s p now \<and> map_of (peers (gossip_step H s ev now)) p = None)
      \<or> higher_incarnation_sync H s ev now p i)"

definition demo_hash :: "GossipData \<Rightarrow> int" where
  "demo_hash d = (case gd_target d of None \<Rightarrow> 1 | Some t \<Rightarrow> 2)"

definition demo_dead_peer :: PeerEntry where
  "demo_dead_peer =
     \<lparr>peer_ip = Some ''10.0.0.2'', peer_port = Some 8001, peer_state = Some DEAD,
      peer_last_seen = Some 100, peer_suspect_time = Some 110, peer_incarnation = Some 0\<rparr>"

definition c2_state :: GossipProtocol where
  "c2_state = (GossipProtocol_init ''a'')\<lparr>gp_transport := True, peers := [(''b'', demo_dead_peer)]\<rparr>"

definition demo_wire :: "string \<Rightarrow> GossipData \<Rightarrow> datagram" where
  "demo_wire mtype d =
     Json \<lparr>w_sender_id = Some ''b'', w_type = Some mtype, w_data = Some d,
           w_timestamp = Some 120, w_ttl = Some 1\<rparr>"

text \<open>A draw that takes the first peers of the list.\<close>

definition first_peers :: "PeerEntry list \<Rightarrow> nat \<Rightarrow> PeerEntry list" where
  "first_peers live n = take n live"

definition c2_events :: "(gossip_event \<times> real) list" where
  "c2_events =
     [(Receive (demo_wire ''ping'' no_data) (''10.0.0.2'', 8001) first_peers, 121),
      (Receive (demo_wire ''ack'' (no_data\<lparr>gd_target := Some ''a''\<rparr>)) (''10.0.0.2'', 8001) first_peers, 122),
      (AddPeer ''b'' ''10.0.0.2'' 8001, 123),
      (CleanupRound, 124)]"

section \<open>Predicates on the gossip state\<close>

text \<open>Two protocol states that differ at most in the peer table and in the list of sent
  datagrams.\<close>

definition frame :: "GossipProtocol \<Rightarrow> GossipProtocol \<Rightarrow> bool" where
  "frame s s' =
     (gp_node_id s' = gp_node_id s \<and> gp_transport s' = gp_transport s \<and>
      message_cache s' = message_cache s \<and> callbacks s' = callbacks s \<and>
      gossip_interval s' = gossip_interval s \<and> cleanup_interval s' = cleanup_interval s \<and>
      suspicion_timeout s' = suspicion_timeout s \<and> dead_timeout s' = dead_timeout s \<and>
      gp_fired s' = gp_fired s)"


text \<open>The message as the built-in handling leaves it.\<close>

definition handled_message ::
  "(GossipData \<Rightarrow> int) \<Rightarrow> GossipProtocol \<Rightarrow> GossipMessage \<Rightarrow> string \<times> int \<Rightarrow> real \<Rightarrow> GossipMessage" where
  "handled_message H s message addr now = snd (builtin_handling H s message addr now)"

text \<open>A message is dropped when it comes from the node itself, when its id is in the
  dedup cache, or when its TTL is used up.\<close>

definition dropped :: "GossipProtocol \<Rightarrow> GossipMessage \<Rightarrow> bool" where
  "dropped s message =
     (sender_id message = gp_node_id s \<or> map_of (message_cache s) (message_id message) \<noteq> None \<or>
      ttl message \<le> 0)"

definition note_message :: "GossipProtocol \<Rightarrow> GossipMessage \<Rightarrow> real \<Rightarrow> GossipProtocol" where
  "note_message s message now =
     s\<lparr>message_cache := AList.update (message_id message) now (message_cache s)\<rparr>"

text \<open>Peer entries that have the keys \<open>ip\<close>, \<open>port\<close> and \<open>state\<close>, as every entry
  has that the node created itself.\<close>

definition complete_entry :: "PeerEntry \<Rightarrow> bool" where
  "complete_entry e = (peer_ip e \<noteq> None \<and> peer_port e \<noteq> None \<and> peer_state e \<noteq> None)"

definition complete_peers :: "GossipProtocol \<Rightarrow> bool" where
  "complete_peers s = list_all (\<lambda>(q, e). complete_entry e) (peers s)"

definition c4_state :: GossipProtocol where
  "c4_state =
     (GossipProtocol_init ''a'')
       \<lparr>gp_transport := True, callbacks := [(''agent_active'', [7])],
        peers := [(''b'', demo_dead_peer\<lparr>peer_state := Some ALIVE\<rparr>)]\<rparr>"


definition c4_addr :: "string \<times> int" where "c4_addr = (''10.0.0.2'', 8001)"

text \<open>A \<open>state\<close> message from node \<open>b\<close> that tells of a peer \<open>c\<close>, which \<open>b\<close>
  saw last at time 50.\<close>

definition state_datagram :: datagram where
  "state_datagram =
     Json \<lparr>w_sender_id = Some ''b'', w_type = Some ''state'',
           w_data = Some (no_data\<lparr>gd_peers := Some
             [(''c'', \<lparr>peer_ip = Some ''10.0.0.3'', peer_port = Some 8001, peer_state = Some ALIVE,
                      peer_last_seen = Some 50, peer_suspect_time = None,
                      peer_incarnation = Some 0\<rparr>)]\<rparr>),
           w_timestamp = Some 120, w_ttl = Some 3\<rparr>"

text \<open>The peers that are not recorded as dead, in the order of the peer table.\<close>

definition non_dead_peers :: "GossipProtocol \<Rightarrow> PeerEntry list" where
  "non_dead_peers s = filter (\<lambda>e. peer_state e \<noteq> Some DEAD) (map snd (peers s))"

text \<open>A sample of \<open>k\<close> elements of a population, as \<open>random.sample\<close> draws it: the
  elements at \<open>k\<close> different positions, in some order.\<close>

definition is_sample :: "'a list \<Rightarrow> nat \<Rightarrow> 'a list \<Rightarrow> bool" where
  "is_sample population k chosen =
     (\<exists>idx. length idx = k \<and> distinct idx \<and> list_all (\<lambda>i. i < length population) idx \<and>
            chosen = map ((!) population) idx)"

text \<open>The message that is forwarded.\<close>

definition forward_copy :: "(GossipData \<Rightarrow> int) \<Rightarrow> GossipMessage \<Rightarrow> real \<Rightarrow> GossipMessage" where
  "forward_copy H message now =
     GossipMessage_init H (sender_id message) (message_type message) (data message)
       (Some (timestamp message)) (ttl message - 1) now"

definition peer_addr :: "PeerEntry \<Rightarrow> string \<times> int" where
  "peer_addr e = (the (peer_ip e), the (peer_port e))"

text \<open>Ten peers, all alive, and a message with TTL 3 from one of them.\<close>

definition c6_peer :: "nat \<Rightarrow> string \<times> PeerEntry" where
  "c6_peer i =
     (''n'' @ str_nat i,
      \<lparr>peer_ip = Some (''10.0.1.'' @ str_nat i), peer_port = Some 8001, peer_state = Some ALIVE,
       peer_last_seen = Some 100, peer_suspect_time = None, peer_incarnation = Some 0\<rparr>)"

definition c6_state :: GossipProtocol where
  "c6_state = (GossipProtocol_init ''a'')\<lparr>gp_transport := True, peers := map c6_peer [0..<10]\<rparr>"

definition c6_message :: GossipMessage where
  "c6_message = GossipMessage_init demo_hash ''n0'' ''agent_active'' no_data (Some 120) 3 121"

section \<open>gossip/agent_presence.py: AgentPresence\<close>

record AgentPresence =
  ap_agent_id :: string
  ap_node_id :: string
  ap_capabilities :: "string list"
  ap_last_updated :: real
  ap_status :: string

text \<open>\<open>AgentPresence.__init__\<close>: \<open>capabilities or []\<close> and
  \<open>last_updated or time.time()\<close>.\<close>

definition AgentPresence_init ::
  "string \<Rightarrow> string \<Rightarrow> string list option \<Rightarrow> real option \<Rightarrow> real \<Rightarrow> AgentPresence" where
  "AgentPresence_init agent_id nid caps updated now =
     \<lparr>ap_agent_id = agent_id, ap_node_id = nid,
      ap_capabilities = (case caps of None \<Rightarrow> [] | Some c \<Rightarrow> c),
      ap_last_updated = (case updated of None \<Rightarrow> now | Some t \<Rightarrow> if t = 0 then now else t),
      ap_status = ''active''\<rparr>"

definition to_dict :: "AgentPresence \<Rightarrow> PresenceDict" where
  "to_dict p =
     \<lparr>pd_agent_id = Some (ap_agent_id p), pd_node_id = Some (ap_node_id p),
      pd_capabilities = Some (ap_capabilities p), pd_last_updated = Some (ap_last_updated p),
      pd_status = Some (ap_status p)\<rparr>"

definition AgentPresence_from_dict :: "PresenceDict \<Rightarrow> real \<Rightarrow> AgentPresence" where
  "AgentPresence_from_dict d now =
     AgentPresence_init
       (case pd_agent_id d of None \<Rightarrow> [] | Some a \<Rightarrow> a)
       (case pd_node_id d of None \<Rightarrow> [] | Some n \<Rightarrow> n)
       (Some (case pd_capabilities d of None \<Rightarrow> [] | Some c \<Rightarrow> c))
       (Some (case pd_last_updated d of None \<Rightarrow> now | Some t \<Rightarrow> t))
       now"

text \<open>\<open>not presence_data\<close>: the dictionary is empty.\<close>

definition empty_dict :: "PresenceDict \<Rightarrow> bool" where
  "empty_dict d =
     (pd_agent_id d = None \<and> pd_node_id d = None \<and> pd_capabilities d = None \<and>
      pd_last_updated d = None \<and> pd_status d = None)"

section \<open>gossip/agent_presence.py: AgentPresenceService\<close>

text \<open>
  The service with its gossip protocol object (\<open>None\<close> before the first start).
  \<open>aps_fired\<close> lists the callback invocations: the callback, the event type, the agent
  id and the presence dictionary it was called with.
\<close>

record AgentPresenceService =
  aps_node_id :: string
  aps_running :: bool
  aps_gossip :: "GossipProtocol option"
  local_agents :: "(string \<times> AgentPresence) list"
  remote_agents :: "(string \<times> AgentPresence) list"
  aps_callbacks :: "(string \<times> nat list) list"
  aps_fired :: "(nat \<times> string \<times> string \<times> PresenceDict) list"

definition MSG_AGENT_ACTIVE :: string where "MSG_AGENT_ACTIVE = ''agent_active''"

definition MSG_AGENT_INACTIVE :: string where "MSG_AGENT_INACTIVE = ''agent_inactive''"

definition MSG_AGENT_QUERY :: string where "MSG_AGENT_QUERY = ''agent_query''"

definition MSG_AGENT_INFO :: string where "MSG_AGENT_INFO = ''agent_info''"

definition AgentPresenceService_init :: "string \<Rightarrow> AgentPresenceService" where
  "AgentPresenceService_init nid =
     \<lparr>aps_node_id = nid, aps_running = False, aps_gossip = None, local_agents = [],
      remote_agents = [],
      aps_callbacks = [(''agent_active'', []), (''agent_inactive'', []), (''agent_updated'', []),
                       (''agent_discovered'', [])],
      aps_fired = []\<rparr>"

text \<open>The four message handlers, as the gossip protocol knows them.\<close>

definition H_ACTIVE :: nat where "H_ACTIVE = 0"

definition H_INACTIVE :: nat where "H_INACTIVE = 1"

definition H_QUERY :: nat where "H_QUERY = 2"

definition H_INFO :: nat where "H_INFO = 3"

text \<open>\<open>start\<close>. Creating the datagram endpoint can fail (\<open>bound\<close> is false); then the
  protocol object exists, without transport and handlers, and the service is not
  running.\<close>

definition start :: "AgentPresenceService \<Rightarrow> bool \<Rightarrow> AgentPresenceService" where
  "start s bound =
     (if aps_running s then s
      else if \<not> bound then s\<lparr>aps_gossip := Some (GossipProtocol_init (aps_node_id s))\<rparr>
      else
        let g0 = (GossipProtocol_init (aps_node_id s))\<lparr>gp_transport := True\<rparr>;
            g1 = register_callback g0 MSG_AGENT_ACTIVE H_ACTIVE;
            g2 = register_callback g1 MSG_AGENT_INACTIVE H_INACTIVE;
            g3 = register_callback g2 MSG_AGENT_QUERY H_QUERY;
            g4 = register_callback g3 MSG_AGENT_INFO H_INFO
        in s\<lparr>aps_gossip := Some g4, aps_running := True\<rparr>)"

definition stop :: "AgentPresenceService \<Rightarrow> AgentPresenceService" where
  "stop s = (if \<not> aps_running s then s else s\<lparr>aps_running := False\<rparr>)"

text \<open>Sending one message to every peer that is not dead
  (\<open>for peer in self.gossip.get_active_peers().values()\<close>); the result says whether
  it went through without an exception.\<close>

definition broadcast :: "AgentPresenceService \<Rightarrow> GossipMessage \<Rightarrow> bool \<times> AgentPresenceService" where
  "broadcast s message =
     (case aps_gossip s of
        None \<Rightarrow> (True, s)
      | Some g \<Rightarrow>
          (case live_peers (peers g) of
             Inl err \<Rightarrow> (False, s)
           | Inr live \<Rightarrow>
               (case send_to_peers g message live of
                  Ok g' \<Rightarrow> (True, s\<lparr>aps_gossip := Some g'\<rparr>)
                | Raise err g' \<Rightarrow> (False, s\<lparr>aps_gossip := Some g'\<rparr>))))"

definition propagate_agent_active ::
  "(GossipData \<Rightarrow> int) \<Rightarrow> AgentPresenceService \<Rightarrow> AgentPresence \<Rightarrow> real \<Rightarrow> bool \<times> AgentPresenceService" where
  "propagate_agent_active H s presence now =
     broadcast s
       (GossipMessage_init H (aps_node_id s) MSG_AGENT_ACTIVE
          (no_data\<lparr>gd_presence := Some (to_dict presence)\<rparr>) None DEFAULT_MAX_TRANSMIT_COUNT now)"

definition propagate_agent_inactive ::
  "(GossipData \<Rightarrow> int) \<Rightarrow> AgentPresenceService \<Rightarrow> AgentPresence \<Rightarrow> real \<Rightarrow> bool \<times> AgentPresenceService" where
  "propagate_agent_inactive H s presence now =
     broadcast s
       (GossipMessage_init H (aps_node_id s) MSG_AGENT_INACTIVE
          (no_data\<lparr>gd_agent_id := Some (ap_agent_id presence),
                    gd_node_id := Some (ap_node_id presence)\<rparr>)
          None DEFAULT_MAX_TRANSMIT_COUNT now)"

definition propagate_agent_query ::
  "(GossipData \<Rightarrow> int) \<Rightarrow> AgentPresenceService \<Rightarrow> string \<Rightarrow> real \<Rightarrow> bool \<times> AgentPresenceService" where
  "propagate_agent_query H s agent_id now =
     broadcast s
       (GossipMessage_init H (aps_node_id s) MSG_AGENT_QUERY
          (no_data\<lparr>gd_agent_id := Some agent_id, gd_requester := Some (aps_node_id s)\<rparr>)
          None DEFAULT_MAX_TRANSMIT_COUNT now)"

text \<open>\<open>register_agent\<close>, \<open>unregister_agent\<close>, \<open>update_agent_capabilities\<close>: an
  exception while propagating is caught and makes the result false; the change to
  \<open>local_agents\<close> has happened by then.\<close>

definition register_agent ::
  "(GossipData \<Rightarrow> int) \<Rightarrow> AgentPresenceService \<Rightarrow> string \<Rightarrow> string list option \<Rightarrow> real \<Rightarrow>
     bool \<times> AgentPresenceService" where
  "register_agent H s agent_id caps now =
     (if \<not> aps_running s then (False, s)
      else
        let presence = AgentPresence_init agent_id (aps_node_id s) caps None now;
            s1 = s\<lparr>local_agents := AList.update agent_id presence (local_agents s)\<rparr>
        in propagate_agent_active H s1 presence now)"

definition unregister_agent ::
  "(GossipData \<Rightarrow> int) \<Rightarrow> AgentPresenceService \<Rightarrow> string \<Rightarrow> real \<Rightarrow> bool \<times> AgentPresenceService" where
  "unregister_agent H s agent_id now =
     (if \<not> aps_running s then (False, s)
      else
        case map_of (local_agents s) agent_id of
          Some presence \<Rightarrow>
            propagate_agent_inactive H
              (s\<lparr>local_agents := AList.delete agent_id (local_agents s)\<rparr>) presence now
        | None \<Rightarrow> (False, s))"

definition update_agent_capabilities ::
  "(GossipData \<Rightarrow> int) \<Rightarrow> AgentPresenceService \<Rightarrow> string \<Rightarrow> string list \<Rightarrow> real \<Rightarrow>
     bool \<times> AgentPresenceService" where
  "update_agent_capabilities H s agent_id caps now =
     (if \<not> aps_running s then (False, s)
      else
        case map_of (local_agents s) agent_id of
          Some presence \<Rightarrow>
            let presence' = presence\<lparr>ap_capabilities := caps, ap_last_updated := now\<rparr>
            in propagate_agent_active H
                 (s\<lparr>local_agents := AList.update agent_id presence' (local_agents s)\<rparr>)
                 presence' now
        | None \<Rightarrow> (False, s))"

text \<open>\<open>query_agent\<close> does not catch what the propagation of the query raises.\<close>

definition query_agent ::
  "(GossipData \<Rightarrow> int) \<Rightarrow> AgentPresenceService \<Rightarrow> string \<Rightarrow> real \<Rightarrow>
     (PyError + AgentPresence option) \<times> AgentPresenceService" where
  "query_agent H s agent_id now =
     (case map_of (local_agents s) agent_id of
        Some presence \<Rightarrow> (Inr (Some presence), s)
      | None \<Rightarrow>
          (case map_of (remote_agents s) agent_id of
             Some presence \<Rightarrow> (Inr (Some presence), s)
           | None \<Rightarrow>
               if aps_running s then
                 (let (sent_all, s1) = propagate_agent_query H s agent_id now
                  in (if sent_all then Inr None else Inl KeyError, s1))
               else (Inr None, s)))"

text \<open>\<open>_trigger_callbacks\<close> of the service.\<close>

definition aps_registered :: "AgentPresenceService \<Rightarrow> string \<Rightarrow> nat list" where
  "aps_registered s event_type =
     (case map_of (aps_callbacks s) event_type of None \<Rightarrow> [] | Some cbs \<Rightarrow> cbs)"

definition aps_trigger_callbacks ::
  "AgentPresenceService \<Rightarrow> string \<Rightarrow> string \<Rightarrow> AgentPresence \<Rightarrow> AgentPresenceService" where
  "aps_trigger_callbacks s event_type agent_id presence =
     s\<lparr>aps_fired := aps_fired s @
          map (\<lambda>cb. (cb, event_type, agent_id, to_dict presence)) (aps_registered s event_type)\<rparr>"

text \<open>\<open>register_callback\<close> of the service accepts the four known event types only.\<close>

definition aps_register_callback :: "AgentPresenceService \<Rightarrow> string \<Rightarrow> nat \<Rightarrow> AgentPresenceService" where
  "aps_register_callback s event_type cb =
     (case map_of (aps_callbacks s) event_type of
        None \<Rightarrow> s
      | Some cbs \<Rightarrow> s\<lparr>aps_callbacks := AList.update event_type (cbs @ [cb]) (aps_callbacks s)\<rparr>)"

text \<open>The part that \<open>_handle_agent_active\<close> and \<open>_handle_agent_info\<close> share: the
  presence of another node replaces the cached one only if it is strictly newer.\<close>

definition merge_presence :: "AgentPresenceService \<Rightarrow> AgentPresence \<Rightarrow> AgentPresenceService" where
  "merge_presence s presence =
     (let agent_id = ap_agent_id presence
      in if ap_node_id presence = aps_node_id s then s
         else
           case map_of (remote_agents s) agent_id of
             None \<Rightarrow>
               aps_trigger_callbacks
                 (s\<lparr>remote_agents := AList.update agent_id presence (remote_agents s)\<rparr>)
                 ''agent_discovered'' agent_id presence
           | Some existing_presence \<Rightarrow>
               if ap_last_updated presence > ap_last_updated existing_presence
               then aps_trigger_callbacks
                      (s\<lparr>remote_agents := AList.update agent_id presence (remote_agents s)\<rparr>)
                      ''agent_updated'' agent_id presence
               else s)"

definition handle_agent_active :: "AgentPresenceService \<Rightarrow> GossipMessage \<Rightarrow> real \<Rightarrow> AgentPresenceService" where
  "handle_agent_active s message now =
     (case gd_presence (data message) of
        None \<Rightarrow> s
      | Some presence_data \<Rightarrow>
          if empty_dict presence_data then s
          else merge_presence s (AgentPresence_from_dict presence_data now))"

definition handle_agent_info :: "AgentPresenceService \<Rightarrow> GossipMessage \<Rightarrow> real \<Rightarrow> AgentPresenceService" where
  "handle_agent_info s message now =
     (case gd_presence (data message) of
        None \<Rightarrow> s
      | Some presence_data \<Rightarrow>
          if empty_dict presence_data \<or> gd_target (data message) \<noteq> Some (aps_node_id s) then s
          else merge_presence s (AgentPresence_from_dict presence_data now))"

definition handle_agent_inactive :: "AgentPresenceService \<Rightarrow> GossipMessage \<Rightarrow> AgentPresenceService" where
  "handle_agent_inactive s message =
     (let agent_id = gd_agent_id (data message); nid = gd_node_id (data message)
      in if \<not> truthy agent_id \<or> \<not> truthy nid then s
         else
           case map_of (remote_agents s) (the agent_id) of
             None \<Rightarrow> s
           | Some presence \<Rightarrow>
               if ap_node_id presence = the nid
               then aps_trigger_callbacks
                      (s\<lparr>remote_agents := AList.delete (the agent_id) (remote_agents s)\<rparr>)
                      ''agent_inactive'' (the agent_id) presence
               else s)"

text \<open>\<open>_send_agent_info\<close> and \<open>_handle_agent_query\<close>. An exception is caught by the
  gossip protocol, which called the handler.\<close>

definition send_agent_info ::
  "(GossipData \<Rightarrow> int) \<Rightarrow> AgentPresenceService \<Rightarrow> AgentPresence \<Rightarrow> string \<Rightarrow> real \<Rightarrow> AgentPresenceService" where
  "send_agent_info H s presence target_node now =
     (case aps_gossip s of
        None \<Rightarrow> s
      | Some g \<Rightarrow>
          (case map_of (peers g) target_node of
             None \<Rightarrow> s
           | Some peer_data \<Rightarrow>
               s\<lparr>aps_gossip := Some (state_of (send_to_peers g
                    (GossipMessage_init H (aps_node_id s) MSG_AGENT_INFO
                       (no_data\<lparr>gd_presence := Some (to_dict presence),
                                 gd_target := Some target_node\<rparr>)
                       None DEFAULT_MAX_TRANSMIT_COUNT now)
                    [peer_data]))\<rparr>))"

definition handle_agent_query ::
  "(GossipData \<Rightarrow> int) \<Rightarrow> AgentPresenceService \<Rightarrow> GossipMessage \<Rightarrow> real \<Rightarrow> AgentPresenceService" where
  "handle_agent_query H s message now =
     (let agent_id = gd_agent_id (data message); requester = gd_requester (data message)
      in if \<not> truthy agent_id \<or> \<not> truthy requester \<or> requester = Some (aps_node_id s) then s
         else
           case map_of (local_agents s) (the agent_id) of
             Some presence \<Rightarrow> send_agent_info H s presence (the requester) now
           | None \<Rightarrow>
               (case map_of (remote_agents s) (the agent_id) of
                  Some presence \<Rightarrow> send_agent_info H s presence (the requester) now
                | None \<Rightarrow> s))"

text \<open>The handlers registered with the gossip protocol for the type of a message, called
  one after the other.\<close>

definition run_handler ::
  "(GossipData \<Rightarrow> int) \<Rightarrow> GossipMessage \<Rightarrow> real \<Rightarrow> AgentPresenceService \<Rightarrow> nat \<Rightarrow> AgentPresenceService" where
  "run_handler H message now s cb =
     (if cb = H_ACTIVE then handle_agent_active s message now
      else if cb = H_INACTIVE then handle_agent_inactive s message
      else if cb = H_QUERY then handle_agent_query H s message now
      else if cb = H_INFO then handle_agent_info s message now
      else s)"

definition deliver ::
  "(GossipData \<Rightarrow> int) \<Rightarrow> AgentPresenceService \<Rightarrow> GossipMessage \<Rightarrow> real \<Rightarrow> AgentPresenceService" where
  "deliver H s message now =
     (case aps_gossip s of
        None \<Rightarrow> s
      | Some g \<Rightarrow> foldl (run_handler H message now) s (registered g (message_type message)))"

text \<open>
  A datagram that arrives at the service's gossip protocol: \<open>datagram_received\<close>, with
  the service's handlers running where the protocol triggers its callbacks, that is after
  the built-in handling and before the propagation.
\<close>

definition service_datagram_received ::
  "(GossipData \<Rightarrow> int) \<Rightarrow> (PeerEntry list \<Rightarrow> nat \<Rightarrow> PeerEntry list) \<Rightarrow>
     AgentPresenceService \<Rightarrow> datagram \<Rightarrow> string \<times> int \<Rightarrow> real \<Rightarrow> AgentPresenceService" where
  "service_datagram_received H pick s dg addr now =
     (case aps_gossip s of
        None \<Rightarrow> s
      | Some g \<Rightarrow>
          let message = decode H dg now;
              (ok, g1) = should_process_message g message now
          in if \<not> ok then s\<lparr>aps_gossip := Some g1\<rparr>
             else
               case builtin_handling H g1 message addr now of
                 (Raise err g2, message1) \<Rightarrow> s\<lparr>aps_gossip := Some g2\<rparr>
               | (Ok g2, message1) \<Rightarrow>
                   let s1 = deliver H (s\<lparr>aps_gossip := Some (trigger_callbacks g2 message1)\<rparr>)
                              message1 now
                   in s1\<lparr>aps_gossip :=
                          map_option (\<lambda>g3. state_of (propagate_message H pick g3 message1 now))
                            (aps_gossip s1)\<rparr>)"

text \<open>What can happen to a service, and a run of the service through a list of timed
  events. \<open>Inbound\<close> is a direct call of the handlers registered for a message.\<close>

datatype presence_event =
    Start bool
  | Stop
  | Register string "string list option"
  | Unregister string
  | UpdateCapabilities string "string list"
  | Query string
  | RegisterCallback string nat
  | Inbound GossipMessage
  | Gossip gossip_event

definition presence_step ::
  "(GossipData \<Rightarrow> int) \<Rightarrow> AgentPresenceService \<Rightarrow> presence_event \<Rightarrow> real \<Rightarrow> AgentPresenceService" where
  "presence_step H s ev now =
     (case ev of
        Start bound \<Rightarrow> start s bound
      | Stop \<Rightarrow> stop s
      | Register agent_id caps \<Rightarrow> snd (register_agent H s agent_id caps now)
      | Unregister agent_id \<Rightarrow> snd (unregister_agent H s agent_id now)
      | UpdateCapabilities agent_id caps \<Rightarrow> snd (update_agent_capabilities H s agent_id caps now)
      | Query agent_id \<Rightarrow> snd (query_agent H s agent_id now)
      | RegisterCallback event_type cb \<Rightarrow> aps_register_callback s event_type cb
      | Inbound message \<Rightarrow> deliver H s message now
      | Gossip gev \<Rightarrow>
          (case gev of
             Receive dg addr pick \<Rightarrow> service_datagram_received H pick s dg addr now
           | _ \<Rightarrow> s\<lparr>aps_gossip := map_option (\<lambda>g. gossip_step H g gev now) (aps_gossip s)\<rparr>))"

text \<open>The events that run the service's message handlers.\<close>

fun runs_handlers :: "presence_event \<Rightarrow> bool" where
  "runs_handlers (Inbound message) = True"
| "runs_handlers (Gossip (Receive dg addr pick)) = True"
| "runs_handlers ev = False"

fun presence_run ::
  "(GossipData \<Rightarrow> int) \<Rightarrow> AgentPresenceService \<Rightarrow> (presence_event \<times> real) list \<Rightarrow> AgentPresenceService" where
  "presence_run H s [] = s"
| "presence_run H s ((ev, now) # rest) = presence_run H (presence_step H s ev now) rest"

section \<open>Predicates on the presence service\<close>

text \<open>Steps that leave the node id and the two maps as they are.\<close>

definition same_maps :: "AgentPresenceService \<Rightarrow> AgentPresenceService \<Rightarrow> bool" where
  "same_maps s s' =
     (aps_node_id s' = aps_node_id s \<and> local_agents s' = local_agents s \<and>
      remote_agents s' = remote_agents s)"

text \<open>Every record of \<open>local_agents\<close> is hosted on this node and every record of
  \<open>remote_agents\<close> on another node; each is stored under its agent id.\<close>

definition hosted_apart :: "AgentPresenceService \<Rightarrow> bool" where
  "hosted_apart s =
     (list_all (\<lambda>(a, p). ap_node_id p = aps_node_id s \<and> ap_agent_id p = a) (local_agents s) \<and>
      list_all (\<lambda>(a, p). ap_node_id p \<noteq> aps_node_id s \<and> ap_agent_id p = a) (remote_agents s))"

text \<open>The presence of an agent \<open>x\<close> that node \<open>b\<close> hosts.\<close>

definition presence_x :: "real \<Rightarrow> PresenceDict" where
  "presence_x updated =
     \<lparr>pd_agent_id = Some ''x'', pd_node_id = Some ''b'', pd_capabilities = Some [''text''],
      pd_last_updated = Some updated, pd_status = Some ''active''\<rparr>"

text \<open>Node \<open>a\<close> starts, registers agent \<open>x\<close>, and then receives the datagram in
  which node \<open>b\<close> announces that it hosts an agent \<open>x\<close> as well.\<close>

definition both_maps_events :: "(presence_event \<times> real) list" where
  "both_maps_events =
     [(Start True, 1), (Register ''x'' None, 2),
      (Gossip (Receive (demo_wire ''agent_active'' (no_data\<lparr>gd_presence := Some (presence_x 2)\<rparr>))
                 (''10.0.0.2'', 8001) first_peers), 3)]"

text \<open>The handler that an inbound presence message reaches.\<close>

datatype inbound =
    ActiveMessage GossipMessage
  | InfoMessage GossipMessage
  | InactiveMessage GossipMessage

fun inbound_step :: "AgentPresenceService \<Rightarrow> inbound \<Rightarrow> real \<Rightarrow> AgentPresenceService" where
  "inbound_step s (ActiveMessage m) now = handle_agent_active s m now"
| "inbound_step s (InfoMessage m) now = handle_agent_info s m now"
| "inbound_step s (InactiveMessage m) now = handle_agent_inactive s m"

text \<open>An \<open>agent_inactive\<close> message that names the agent.\<close>

fun unregisters :: "string \<Rightarrow> inbound \<Rightarrow> bool" where
  "unregisters a (InactiveMessage m) = (gd_agent_id (data m) = Some a)"
| "unregisters a i = False"

fun inbound_run :: "AgentPresenceService \<Rightarrow> (inbound \<times> real) list \<Rightarrow> AgentPresenceService" where
  "inbound_run s [] = s"
| "inbound_run s ((i, now) # rest) = inbound_run (inbound_step s i now) rest"

text \<open>Node \<open>a\<close> with callbacks for discovery and update, after it has learned of agent
  \<open>x\<close> on node \<open>b\<close> (last updated at 2); then an older and a newer presence of
  \<open>x\<close> arrive.\<close>

definition c5_state :: AgentPresenceService where
  "c5_state =
     presence_run demo_hash (AgentPresenceService_init ''a'')
       [(Start True, 1), (RegisterCallback ''agent_discovered'' 4, 1),
        (RegisterCallback ''agent_updated'' 5, 1),
        (Gossip (Receive (demo_wire ''agent_active'' (no_data\<lparr>gd_presence := Some (presence_x 2)\<rparr>))
                   (''10.0.0.2'', 8001) first_peers), 3)]"

definition c5_message :: "real \<Rightarrow> GossipMessage" where
  "c5_message updated =
     GossipMessage_init demo_hash ''b'' ''agent_active''
       (no_data\<lparr>gd_presence := Some (presence_x updated), gd_target := Some ''a''\<rparr>)
       (Some updated) 3 updated"

text \<open>Node \<open>b\<close> announces that its agent \<open>x\<close> is gone.\<close>

definition inactive_x :: GossipMessage where
  "inactive_x =
     GossipMessage_init demo_hash ''b'' ''agent_inactive''
       (no_data\<lparr>gd_agent_id := Some ''x'', gd_node_id := Some ''b''\<rparr>) (Some 7) 3 7"

chapter \<open>Properties\<close>

section \<open>KBucket insertion\<close>

lemma pop_existing_None: "pop_existing nid xs = None \<longleftrightarrow> nid \<notin> node_id ` set xs"
  by (induction xs) auto

lemma pop_existing_Some:
  "pop_existing nid xs = Some rest \<Longrightarrow>
     \<exists>ys old zs. xs = ys @ old # zs \<and> node_id old = nid \<and> nid \<notin> node_id ` set ys \<and> rest = ys @ zs"
proof (induction xs arbitrary: rest)
  case Nil
  then show ?case by simp
next
  case (Cons x xs)
  show ?case
  proof (cases "node_id x = nid")
    case True
    with Cons.prems have "rest = xs" by simp
    with True have "x # xs = [] @ x # xs \<and> node_id x = nid \<and> nid \<notin> node_id ` set [] \<and> rest = [] @ xs"
      by simp
    then show ?thesis by blast
  next
    case False
    with Cons.prems obtain r where r: "pop_existing nid xs = Some r" and rest: "rest = x # r"
      by auto
    from Cons.IH [OF r] obtain ys old zs where
      "xs = ys @ old # zs" "node_id old = nid" "nid \<notin> node_id ` set ys" "r = ys @ zs"
      by blast
    with False rest have
      "x # xs = (x # ys) @ old # zs \<and> node_id old = nid \<and> nid \<notin> node_id ` set (x # ys) \<and>
       rest = (x # ys) @ zs"
      by auto
    then show ?thesis by blast
  qed
qed

lemma pop_existing_length:
  "pop_existing nid xs = Some rest \<Longrightarrow> Suc (length rest) = length xs"
  by (induction xs arbitrary: rest) (auto split: if_splits)

lemma pop_existing_distinct:
  "pop_existing nid xs = Some rest \<Longrightarrow> distinct (map node_id xs) \<Longrightarrow>
     distinct (map node_id rest) \<and> nid \<notin> node_id ` set rest \<and> rest = filter (\<lambda>m. node_id m \<noteq> nid) xs"
proof (induction xs arbitrary: rest)
  case Nil
  then show ?case by simp
next
  case (Cons x xs)
  show ?case
  proof (cases "node_id x = nid")
    case True
    with Cons.prems have rest: "rest = xs" and notin: "nid \<notin> node_id ` set xs"
      by auto
    from notin have "filter (\<lambda>m. node_id m \<noteq> nid) xs = xs"
      by (induction xs) auto
    with True rest notin Cons.prems show ?thesis by simp
  next
    case False
    with Cons.prems obtain r where r: "pop_existing nid xs = Some r" and rest: "rest = x # r"
      by auto
    from Cons.prems have d: "distinct (map node_id xs)" and nx: "node_id x \<notin> node_id ` set xs"
      by auto
    from Cons.IH [OF r d] have
      ih: "distinct (map node_id r)" "nid \<notin> node_id ` set r" "r = filter (\<lambda>m. node_id m \<noteq> nid) xs"
      by auto
    from ih(3) have "set r \<subseteq> set xs" by auto
    with nx have "node_id x \<notin> node_id ` set r" by auto
    with ih False rest show ?thesis by auto
  qed
qed

lemma add_node_distinct:
  "distinct (map node_id (kb_nodes b)) \<Longrightarrow>
     distinct (map node_id (kb_nodes (snd (KBucket_add_node b n))))"
  by (auto simp: KBucket_add_node_def pop_existing_None split: option.splits
      dest: pop_existing_distinct)

lemma bucket_after_distinct: "distinct (map node_id (kb_nodes (bucket_after cap ns)))"
proof -
  have "distinct (map node_id (kb_nodes b)) \<Longrightarrow>
        distinct (map node_id (kb_nodes (foldl (\<lambda>b n. snd (KBucket_add_node b n)) b ns)))" for b
    by (induction ns arbitrary: b) (simp_all add: add_node_distinct)
  then show ?thesis
    by (simp add: bucket_after_def KBucket_init_def)
qed

text \<open>
  Claim C3. For every KBucket of capacity k: adding a contact whose node id already occurs
  in the bucket removes the old entry (the first one with that id) and appends the new
  contact at the tail, returns inserted, and keeps the length; adding a contact with a
  fresh node id appends it at the tail iff the current length is below k, and is refused
  with the bucket unchanged when the bucket is full. The node ids of a bucket stay pairwise
  distinct under \<open>add_node\<close>, and so every bucket built from the empty one by
  \<open>add_node\<close> holds no two contacts with the same node id.
\<close>

theorem C3_kbucket_add_node:
  "(node_id n \<in> node_id ` set (kb_nodes b) \<longrightarrow>
      (\<exists>ys old zs. kb_nodes b = ys @ old # zs \<and> node_id old = node_id n \<and>
          node_id n \<notin> node_id ` set ys \<and>
          KBucket_add_node b n = (True, b\<lparr>kb_nodes := ys @ zs @ [n]\<rparr>)) \<and>
      length (kb_nodes (snd (KBucket_add_node b n))) = length (kb_nodes b))
   \<and> (node_id n \<notin> node_id ` set (kb_nodes b) \<and> int (length (kb_nodes b)) < kb_k b \<longrightarrow>
         KBucket_add_node b n = (True, b\<lparr>kb_nodes := kb_nodes b @ [n]\<rparr>))
   \<and> (node_id n \<notin> node_id ` set (kb_nodes b) \<and> \<not> int (length (kb_nodes b)) < kb_k b \<longrightarrow>
         KBucket_add_node b n = (False, b))
   \<and> (distinct (map node_id (kb_nodes b)) \<longrightarrow>
         kb_nodes (snd (KBucket_add_node b n)) =
           (if node_id n \<in> node_id ` set (kb_nodes b)
            then filter (\<lambda>m. node_id m \<noteq> node_id n) (kb_nodes b) @ [n]
            else if int (length (kb_nodes b)) < kb_k b then kb_nodes b @ [n]
            else kb_nodes b) \<and>
         distinct (map node_id (kb_nodes (snd (KBucket_add_node b n)))))
   \<and> distinct (map node_id (kb_nodes (bucket_after cap ns)))"
proof (intro conjI impI)
  assume a: "node_id n \<in> node_id ` set (kb_nodes b)"
  then obtain rest where r: "pop_existing (node_id n) (kb_nodes b) = Some rest"
    using pop_existing_None [of "node_id n" "kb_nodes b"]
    by (cases "pop_existing (node_id n) (kb_nodes b)") auto
  from pop_existing_Some [OF r] obtain ys old zs where
    d: "kb_nodes b = ys @ old # zs" "node_id old = node_id n"
       "node_id n \<notin> node_id ` set ys" "rest = ys @ zs"
    by blast
  with r have "KBucket_add_node b n = (True, b\<lparr>kb_nodes := ys @ zs @ [n]\<rparr>)"
    by (simp add: KBucket_add_node_def)
  with d show "\<exists>ys old zs. kb_nodes b = ys @ old # zs \<and> node_id old = node_id n \<and>
          node_id n \<notin> node_id ` set ys \<and>
          KBucket_add_node b n = (True, b\<lparr>kb_nodes := ys @ zs @ [n]\<rparr>)"
    by blast
  from r pop_existing_length [OF r]
  show "length (kb_nodes (snd (KBucket_add_node b n))) = length (kb_nodes b)"
    by (simp add: KBucket_add_node_def)
next
  assume "node_id n \<notin> node_id ` set (kb_nodes b) \<and> int (length (kb_nodes b)) < kb_k b"
  then show "KBucket_add_node b n = (True, b\<lparr>kb_nodes := kb_nodes b @ [n]\<rparr>)"
    using pop_existing_None [of "node_id n" "kb_nodes b"] by (simp add: KBucket_add_node_def)
next
  assume "node_id n \<notin> node_id ` set (kb_nodes b) \<and> \<not> int (length (kb_nodes b)) < kb_k b"
  then show "KBucket_add_node b n = (False, b)"
    using pop_existing_None [of "node_id n" "kb_nodes b"] by (simp add: KBucket_add_node_def)
next
  assume d: "distinct (map node_id (kb_nodes b))"
  show "kb_nodes (snd (KBucket_add_node b n)) =
           (if node_id n \<in> node_id ` set (kb_nodes b)
            then filter (\<lambda>m. node_id m \<noteq> node_id n) (kb_nodes b) @ [n]
            else if int (length (kb_nodes b)) < kb_k b then kb_nodes b @ [n]
            else kb_nodes b)"
  proof (cases "pop_existing (node_id n) (kb_nodes b)")
    case None
    then show ?thesis
      using pop_existing_None [of "node_id n" "kb_nodes b"] by (simp add: KBucket_add_node_def)
  next
    case (Some rest)
    with pop_existing_None [of "node_id n" "kb_nodes b"]
    have "node_id n \<in> node_id ` set (kb_nodes b)" by simp
    with Some pop_existing_distinct [OF Some d] show ?thesis
      by (simp add: KBucket_add_node_def)
  qed
next
  assume "distinct (map node_id (kb_nodes b))"
  then show "distinct (map node_id (kb_nodes (snd (KBucket_add_node b n))))"
    by (rule add_node_distinct)
next
  show "distinct (map node_id (kb_nodes (bucket_after cap ns)))"
    by (rule bucket_after_distinct)
qed

theorem C3_kbucket_add_node_witness:
  "node_id ex_a2 \<in> node_id ` set (kb_nodes ex_full)
   \<and> length (kb_nodes (snd (KBucket_add_node ex_full ex_a2))) = length (kb_nodes ex_full)
   \<and> KBucket_add_node ex_full ex_a2 = (True, \<lparr>kb_nodes = [ex_b, ex_a2], kb_k = 2\<rparr>)
   \<and> node_id ex_c \<notin> node_id ` set (kb_nodes ex_room)
   \<and> KBucket_add_node ex_room ex_c = (True, ex_room\<lparr>kb_nodes := kb_nodes ex_room @ [ex_c]\<rparr>)
   \<and> node_id ex_c \<notin> node_id ` set (kb_nodes ex_full)
   \<and> KBucket_add_node ex_full ex_c = (False, ex_full)
   \<and> distinct (map node_id (kb_nodes ex_full))
   \<and> distinct (map node_id (kb_nodes (snd (KBucket_add_node ex_full ex_a2))))
   \<and> distinct (map node_id (kb_nodes (bucket_after 2 [ex_a, ex_b, ex_a2, ex_c])))"
proof -
  have h1: "node_id ex_a2 \<in> node_id ` set (kb_nodes ex_full)"
    by (simp add: ex_a2_def ex_full_def ex_a_def ex_b_def Node_init_def)
  have h2: "node_id ex_c \<notin> node_id ` set (kb_nodes ex_room) \<and>
            int (length (kb_nodes ex_room)) < kb_k ex_room"
    by (simp add: ex_c_def ex_room_def ex_a_def ex_b_def Node_init_def)
  have h3: "node_id ex_c \<notin> node_id ` set (kb_nodes ex_full) \<and>
            \<not> int (length (kb_nodes ex_full)) < kb_k ex_full"
    by (simp add: ex_c_def ex_full_def ex_a_def ex_b_def Node_init_def)
  have h4: "distinct (map node_id (kb_nodes ex_full))"
    by (simp add: ex_full_def ex_a_def ex_b_def Node_init_def)
  have c1: "length (kb_nodes (snd (KBucket_add_node ex_full ex_a2))) = length (kb_nodes ex_full)"
    using C3_kbucket_add_node [of ex_a2 ex_full 2 "[]"] h1 by blast
  have c2: "KBucket_add_node ex_room ex_c = (True, ex_room\<lparr>kb_nodes := kb_nodes ex_room @ [ex_c]\<rparr>)"
    using C3_kbucket_add_node [of ex_c ex_room 2 "[]"] h2 by blast
  have c3: "KBucket_add_node ex_full ex_c = (False, ex_full)"
    using C3_kbucket_add_node [of ex_c ex_full 2 "[]"] h3 by blast
  have c4: "distinct (map node_id (kb_nodes (snd (KBucket_add_node ex_full ex_a2))))"
    using C3_kbucket_add_node [of ex_a2 ex_full 2 "[]"] h4 by blast
  have c5: "distinct (map node_id (kb_nodes (bucket_after 2 [ex_a, ex_b, ex_a2, ex_c])))"
    using C3_kbucket_add_node [of ex_a2 ex_full 2 "[ex_a, ex_b, ex_a2, ex_c]"] by blast
  have c6: "KBucket_add_node ex_full ex_a2 = (True, \<lparr>kb_nodes = [ex_b, ex_a2], kb_k = 2\<rparr>)"
    by code_simp
  from h1 h2 h3 h4 c1 c2 c3 c4 c5 c6 show ?thesis by blast
qed

section \<open>Closest contacts\<close>

text \<open>
  Claim C1 says that \<open>get_closest_nodes t c\<close> returns the c contacts of the whole table
  that are closest to t, as a brute-force scan would. On the table above, asked for the
  one contact closest to \<open>c1_target\<close>, the code looks into bucket 157 (empty), then
  into buckets 156 and 158 together, and stops because one contact is collected: it
  returns \<open>c1_far\<close> at distance 12, while \<open>c1_near\<close> in bucket 159, never visited,
  is at distance 5 and is what the brute-force scan returns.
\<close>

theorem C1_get_closest_nodes_skips_closer_contact:
  "table_after (RoutingTable_init c1_local 20 160) [c1_far, c1_near] = Inr c1_table
   \<and> get_bucket_index c1_table c1_target = 157
   \<and> get_closest_nodes c1_table c1_target 1 = Inr [c1_far]
   \<and> closest_brute_force c1_table c1_target 1 = [c1_near]
   \<and> distance c1_target (node_id c1_far) = 12
   \<and> distance c1_target (node_id c1_near) = 5"
  by code_simp

section \<open>Agent registration in the DHT\<close>

text \<open>
  Claim C8 as stated says that \<open>register_agent\<close> writes its four stamps into a copy of
  \<open>metadata\<close> and leaves the caller's map unchanged. The code writes them into the
  caller's dictionary itself: with the caller's map \<open>{k: v}\<close> at reference 0, the object
  at reference 0 has a \<open>last_update\<close> afterwards, and the stored record is that very
  object.
\<close>

theorem C8_register_agent_changes_caller_metadata:
  "fst (DHT_register_agent c8_heap c8_dht ''a1'' 0 1000) 0 \<noteq> c8_heap 0
   \<and> fst (DHT_register_agent c8_heap c8_dht ''a1'' 0 1000) 0 ''last_update'' = Some (PyFloat 1000)
   \<and> c8_heap 0 ''last_update'' = None
   \<and> DHT_find_agent (snd (snd (DHT_register_agent c8_heap c8_dht ''a1'' 0 1000))) ''a1'' = Some 0"
proof -
  let ?h = "fst (DHT_register_agent c8_heap c8_dht ''a1'' 0 1000)"
  have a: "?h 0 ''last_update'' = Some (PyFloat 1000)"
    by (simp add: DHT_register_agent_def dict_setitem_def DHT_store_def)
  have b: "c8_heap 0 ''last_update'' = None"
    by (simp add: c8_heap_def)
  have c: "DHT_find_agent (snd (snd (DHT_register_agent c8_heap c8_dht ''a1'' 0 1000))) ''a1'' = Some 0"
    by (simp add: DHT_register_agent_def DHT_store_def DHT_find_agent_def DHT_lookup_def)
  from a b have "?h 0 \<noteq> c8_heap 0" by auto
  with a b c show ?thesis by blast
qed

text \<open>
  Claim C8, amended. For every agent id and metadata dictionary,
  \<open>DHT.register_agent\<close> stamps \<open>last_update\<close> (now), \<open>node_id\<close> (the hex string of
  the local node id), \<open>node_ip\<close> and \<open>node_port\<close> into the caller's metadata
  dictionary in place, leaving its other keys and every other object unchanged, stores
  that same dictionary object in the local data store under \<open>agent:\<close> followed by the agent id, and
  returns success; a subsequent \<open>find_agent\<close> on the same node returns that object.
\<close>

theorem C8_register_agent:
  "DHT_register_agent h d agent_id metadata now = (h', ok, d') \<Longrightarrow>
     ok \<and>
     h' metadata = (h metadata)(''last_update'' \<mapsto> PyFloat now,
                      ''node_id'' \<mapsto> PyStr (NodeID_str (dht_node_id d)),
                      ''node_ip'' \<mapsto> PyStr (dht_ip d),
                      ''node_port'' \<mapsto> PyInt (dht_port d)) \<and>
     (\<forall>r. r \<noteq> metadata \<longrightarrow> h' r = h r) \<and>
     d' = d\<lparr>data_store := (data_store d)(''agent:'' @ agent_id \<mapsto> metadata)\<rparr> \<and>
     DHT_find_agent d' agent_id = Some metadata"
  by (auto simp: DHT_register_agent_def dict_setitem_def DHT_store_def DHT_find_agent_def DHT_lookup_def agent_key_def Let_def)

theorem C8_register_agent_witness:
  "DHT_register_agent c8_heap c8_dht ''a1'' 0 1000 =
     (fst (DHT_register_agent c8_heap c8_dht ''a1'' 0 1000), True,
      c8_dht\<lparr>data_store := (data_store c8_dht)(''agent:a1'' \<mapsto> 0)\<rparr>)
   \<and> fst (DHT_register_agent c8_heap c8_dht ''a1'' 0 1000) 0 =
       [''k'' \<mapsto> PyStr ''v'', ''last_update'' \<mapsto> PyFloat 1000,
        ''node_id'' \<mapsto> PyStr ''00000000000000000000000000000000000000ab'',
        ''node_ip'' \<mapsto> PyStr ''127.0.0.1'', ''node_port'' \<mapsto> PyInt 9000]
   \<and> fst (DHT_register_agent c8_heap c8_dht ''a1'' 0 1000) 1 = c8_heap 1
   \<and> DHT_find_agent (snd (snd (DHT_register_agent c8_heap c8_dht ''a1'' 0 1000))) ''a1'' = Some 0"
proof -
  obtain h' ok d' where r: "DHT_register_agent c8_heap c8_dht ''a1'' 0 1000 = (h', ok, d')"
    by (cases "DHT_register_agent c8_heap c8_dht ''a1'' 0 1000") auto
  have s: "NodeID_str (dht_node_id c8_dht) = ''00000000000000000000000000000000000000ab''"
    by code_simp
  have i: "dht_ip c8_dht = ''127.0.0.1''" "dht_port c8_dht = 9000"
    by (simp_all add: c8_dht_def DHT_init_def)
  have k: "c8_heap 0 = [''k'' \<mapsto> PyStr ''v'']"
    by (simp add: c8_heap_def)
  from C8_register_agent [OF r] s i k show ?thesis
    unfolding r by (simp add: DHT_find_agent_def DHT_lookup_def agent_key_def)
qed

section \<open>The store handler\<close>

text \<open>
  Claim C10. In the store handler, a request whose \<open>key\<close> is missing or empty, or whose
  \<open>value\<close> is \<open>None\<close>, leaves the protocol state unchanged: the data store is not
  written and no datagram is sent. When the key is non-empty and the value is not
  \<open>None\<close>, the value is written under the key and a pong with status \<open>success\<close> and
  \<open>request_id\<close> equal to the request's message id is handed to \<open>_send_message\<close>
  for the requester's address (it leaves when the transport is up). The handler changes
  the state only in that case.
\<close>

theorem C10_handle_store:
  "((md_key (msg_data m) = None \<or> md_key (msg_data m) = Some [] \<or> md_value (msg_data m) = None)
      \<longrightarrow> handle_store H p m addr = p)
   \<and> (\<forall>k v. md_key (msg_data m) = Some k \<and> k \<noteq> [] \<and> md_value (msg_data m) = Some v \<longrightarrow>
         data_store (dht (handle_store H p m addr)) = (data_store (dht p))(k \<mapsto> v) \<and>
         sent (handle_store H p m addr) =
           (if transport p then sent p @ [(store_ack H p m, addr)] else sent p) \<and>
         md_status (msg_data (store_ack H p m)) = Some ''success'' \<and>
         md_request_id (msg_data (store_ack H p m)) = Some (msg_message_id m) \<and>
         msg_type (store_ack H p m) = ''pong'')
   \<and> (handle_store H p m addr \<noteq> p \<longrightarrow>
         (\<exists>k v. md_key (msg_data m) = Some k \<and> k \<noteq> [] \<and> md_value (msg_data m) = Some v))"
  by (auto simp: handle_store_def store_ack_def truthy_def Message_init_def MSG_PONG_def
      send_message_def Let_def empty_data_def split: option.splits)

theorem C10_handle_store_witness:
  "handle_store demo_dht_hash demo_proto (c10_request None (Some 5)) (''10.0.0.7'', 9000) = demo_proto
   \<and> handle_store demo_dht_hash demo_proto (c10_request (Some []) (Some 5)) (''10.0.0.7'', 9000) = demo_proto
   \<and> handle_store demo_dht_hash demo_proto (c10_request (Some ''k'') None) (''10.0.0.7'', 9000) = demo_proto
   \<and> data_store (dht (handle_store demo_dht_hash demo_proto (c10_request (Some ''k'') (Some 5)) (''10.0.0.7'', 9000)))
       = [''k'' \<mapsto> 5]
   \<and> sent (handle_store demo_dht_hash demo_proto (c10_request (Some ''k'') (Some 5)) (''10.0.0.7'', 9000))
       = [(\<lparr>msg_type = ''pong'', msg_sender_id = ''00000000000000000000000000000000000000ab'',
            msg_data = empty_data\<lparr>md_request_id := Some ''77'', md_status := Some ''success''\<rparr>,
            msg_message_id = ''47''\<rparr>, (''10.0.0.7'', 9000))]"
proof -
  let ?a = "(''10.0.0.7'', 9000 :: int)"
  have k1: "md_key (msg_data (c10_request None (Some 5))) = None"
    and k2: "md_key (msg_data (c10_request (Some []) (Some 5))) = Some []"
    and k3: "md_value (msg_data (c10_request (Some ''k'') None)) = None"
    and k4: "md_key (msg_data (c10_request (Some ''k'') (Some 5))) = Some ''k'' \<and> ''k'' \<noteq> [] \<and>
             md_value (msg_data (c10_request (Some ''k'') (Some 5))) = Some 5"
    by (simp_all add: c10_request_def empty_data_def)
  have a1: "handle_store demo_dht_hash demo_proto (c10_request None (Some 5)) ?a = demo_proto"
    using C10_handle_store [of "c10_request None (Some 5)" demo_dht_hash demo_proto ?a] k1 by blast
  have a2: "handle_store demo_dht_hash demo_proto (c10_request (Some []) (Some 5)) ?a = demo_proto"
    using C10_handle_store [of "c10_request (Some []) (Some 5)" demo_dht_hash demo_proto ?a] k2 by blast
  have a3: "handle_store demo_dht_hash demo_proto (c10_request (Some ''k'') None) ?a = demo_proto"
    using C10_handle_store [of "c10_request (Some ''k'') None" demo_dht_hash demo_proto ?a] k3 by blast
  have a4: "data_store (dht (handle_store demo_dht_hash demo_proto (c10_request (Some ''k'') (Some 5)) ?a))
              = (data_store (dht demo_proto))(''k'' \<mapsto> 5) \<and>
            sent (handle_store demo_dht_hash demo_proto (c10_request (Some ''k'') (Some 5)) ?a)
              = (if transport demo_proto
                 then sent demo_proto @ [(store_ack demo_dht_hash demo_proto (c10_request (Some ''k'') (Some 5)), ?a)]
                 else sent demo_proto)"
    using C10_handle_store [of "c10_request (Some ''k'') (Some 5)" demo_dht_hash demo_proto ?a] k4 by blast
  have s: "store_ack demo_dht_hash demo_proto (c10_request (Some ''k'') (Some 5)) =
           \<lparr>msg_type = ''pong'', msg_sender_id = ''00000000000000000000000000000000000000ab'',
            msg_data = empty_data\<lparr>md_request_id := Some ''77'', md_status := Some ''success''\<rparr>,
            msg_message_id = ''47''\<rparr>"
    by code_simp
  have t: "transport demo_proto" "sent demo_proto = []" "data_store (dht demo_proto) = Map.empty"
    by (simp_all add: demo_proto_def DHT_init_def)
  from a1 a2 a3 a4 s t show ?thesis by simp
qed

section \<open>Requests and their pending futures\<close>










section \<open>A dead peer stays dead\<close>

lemma peers_gossip_send [simp]: "peers (gossip_send s m a) = peers s"
  by (simp add: gossip_send_def)

lemma peers_send_to_peers [simp]: "peers (state_of (send_to_peers s m ps)) = peers s"
  by (induction ps arbitrary: s) (auto split: option.splits)

lemma peers_propagate_to_entries [simp]:
  "peers (state_of (propagate_to_entries s m ps)) = peers s"
  by (induction ps arbitrary: s) (auto split: option.splits)

lemma peers_propagate_to_all [simp]: "peers (state_of (propagate_to_all s m)) = peers s"
  by (simp add: propagate_to_all_def)

lemma peers_propagate_message [simp]:
  "peers (state_of (propagate_message H pick s m now)) = peers s"
  by (simp add: propagate_message_def Let_def split: sum.splits)

lemma peers_trigger_callbacks [simp]: "peers (trigger_callbacks s m) = peers s"
  by (simp add: trigger_callbacks_def)

lemma states_distinct [simp]: "ALIVE \<noteq> DEAD" "SUSPECT \<noteq> DEAD" "ALIVE \<noteq> SUSPECT"
  "DEAD \<noteq> ALIVE" "DEAD \<noteq> SUSPECT" "SUSPECT \<noteq> ALIVE"
  by (simp_all add: ALIVE_def DEAD_def SUSPECT_def)

lemma dead_with_peers: "peers s' = peers s \<Longrightarrow> dead_with s' p i = dead_with s p i"
  by (simp add: dead_with_def)

lemma dead_with_set_peer:
  "dead_with (set_peer s q e) p i =
     (if q = p then peer_state e = Some DEAD \<and> incarnation_of e = i else dead_with s p i)"
  by (simp add: dead_with_def set_peer_def update_conv')

lemma update_peer_shape:
  "state_of (update_peer s q host prt st now) = s \<or>
   (\<exists>e'. state_of (update_peer s q host prt st now) = set_peer s q e' \<and>
      (case map_of (peers s) q of
         None \<Rightarrow> True
       | Some e \<Rightarrow>
           peer_incarnation e' = peer_incarnation e \<and>
           (peer_state e' = peer_state e \<or>
            peer_state e' = Some st \<and> (st = DEAD \<or> st = SUSPECT \<and> peer_state e = Some ALIVE))))"
proof (cases "q = gp_node_id s")
  case True
  then show ?thesis by (simp add: update_peer_def)
next
  case False
  show ?thesis
  proof (cases "map_of (peers s) q")
    case None
    with False show ?thesis by (auto simp: update_peer_def)
  next
    case (Some e)
    with False show ?thesis
      by (auto simp: update_peer_def Let_def split: option.splits sum.splits)
  qed
qed

lemma dead_with_set_existing:
  assumes "dead_with s p i"
    and "q = p \<Longrightarrow> peer_state e' = Some DEAD \<and> incarnation_of e' = i"
  shows "dead_with (set_peer s q e') p i"
  using assms by (simp add: dead_with_set_peer)

lemma update_peer_dead:
  assumes "dead_with s p i"
  shows "dead_with (state_of (update_peer s q host prt st now)) p i"
proof -
  from update_peer_shape [of s q host prt st now]
  consider "state_of (update_peer s q host prt st now) = s"
    | e' where "state_of (update_peer s q host prt st now) = set_peer s q e'"
        "case map_of (peers s) q of
           None \<Rightarrow> True
         | Some e \<Rightarrow>
             peer_incarnation e' = peer_incarnation e \<and>
             (peer_state e' = peer_state e \<or>
              peer_state e' = Some st \<and> (st = DEAD \<or> st = SUSPECT \<and> peer_state e = Some ALIVE))"
    by blast
  then show ?thesis
  proof cases
    case 1
    with assms show ?thesis by simp
  next
    case 2
    show ?thesis
    proof (cases "q = p")
      case False
      with 2 assms show ?thesis by (simp add: dead_with_set_peer)
    next
      case True
      from assms obtain e where e: "map_of (peers s) p = Some e" "peer_state e = Some DEAD"
        "incarnation_of e = i"
        by (auto simp: dead_with_def split: option.splits)
      with 2(2) True have "peer_state e' = Some DEAD \<and> incarnation_of e' = i"
        by (auto simp: incarnation_of_def)
      with 2(1) True show ?thesis by (simp add: dead_with_set_peer)
    qed
  qed
qed

lemma handle_ack_dead: "dead_with s p i \<Longrightarrow> dead_with (state_of (handle_ack s m)) p i"
proof -
  assume d: "dead_with s p i"
  have "state_of (handle_ack s m) = s \<or>
        (\<exists>e. map_of (peers s) (sender_id m) = Some e \<and> peer_state e = Some SUSPECT \<and>
           state_of (handle_ack s m) = set_peer s (sender_id m) (e\<lparr>peer_state := Some ALIVE\<rparr>))"
    by (auto simp: handle_ack_def split: option.splits)
  then show ?thesis
  proof
    assume "state_of (handle_ack s m) = s"
    with d show ?thesis by simp
  next
    assume "\<exists>e. map_of (peers s) (sender_id m) = Some e \<and> peer_state e = Some SUSPECT \<and>
           state_of (handle_ack s m) = set_peer s (sender_id m) (e\<lparr>peer_state := Some ALIVE\<rparr>)"
    then obtain e where e: "map_of (peers s) (sender_id m) = Some e" "peer_state e = Some SUSPECT"
      "state_of (handle_ack s m) = set_peer s (sender_id m) (e\<lparr>peer_state := Some ALIVE\<rparr>)"
      by blast
    from d e(1,2) have "sender_id m \<noteq> p"
      by (auto simp: dead_with_def)
    with d e(3) show ?thesis by (simp add: dead_with_set_peer)
  qed
qed

lemma handle_suspect_dead: "dead_with s p i \<Longrightarrow> dead_with (state_of (handle_suspect s m now)) p i"
proof -
  assume d: "dead_with s p i"
  have "state_of (handle_suspect s m now) = s \<or>
        (\<exists>q e st. map_of (peers s) q = Some e \<and> peer_state e = Some st \<and> st \<noteq> DEAD \<and>
           state_of (handle_suspect s m now) =
             set_peer s q (e\<lparr>peer_state := Some SUSPECT, peer_suspect_time := Some now\<rparr>))"
    by (auto simp: handle_suspect_def Let_def split: option.splits)
  then show ?thesis
  proof
    assume "state_of (handle_suspect s m now) = s"
    with d show ?thesis by simp
  next
    assume "\<exists>q e st. map_of (peers s) q = Some e \<and> peer_state e = Some st \<and> st \<noteq> DEAD \<and>
           state_of (handle_suspect s m now) =
             set_peer s q (e\<lparr>peer_state := Some SUSPECT, peer_suspect_time := Some now\<rparr>)"
    then obtain q e st where e: "map_of (peers s) q = Some e" "peer_state e = Some st" "st \<noteq> DEAD"
      "state_of (handle_suspect s m now) =
         set_peer s q (e\<lparr>peer_state := Some SUSPECT, peer_suspect_time := Some now\<rparr>)"
      by blast
    from d e(1,2,3) have "q \<noteq> p"
      by (auto simp: dead_with_def)
    with d e(4) show ?thesis by (simp add: dead_with_set_peer)
  qed
qed

lemma handle_dead_dead: "dead_with s p i \<Longrightarrow> dead_with (handle_dead s m) p i"
proof -
  assume d: "dead_with s p i"
  have "handle_dead s m = s \<or>
        (\<exists>q e. map_of (peers s) q = Some e \<and>
           handle_dead s m = set_peer s q (e\<lparr>peer_state := Some DEAD\<rparr>))"
    by (auto simp: handle_dead_def Let_def split: option.splits)
  then show ?thesis
  proof
    assume "handle_dead s m = s"
    with d show ?thesis by simp
  next
    assume "\<exists>q e. map_of (peers s) q = Some e \<and>
           handle_dead s m = set_peer s q (e\<lparr>peer_state := Some DEAD\<rparr>)"
    then obtain q e where e: "map_of (peers s) q = Some e"
      "handle_dead s m = set_peer s q (e\<lparr>peer_state := Some DEAD\<rparr>)"
      by blast
    show ?thesis
    proof (cases "q = p")
      case False
      with d e(2) show ?thesis by (simp add: dead_with_set_peer)
    next
      case True
      with d e(1) have "incarnation_of e = i" by (simp add: dead_with_def)
      then have "incarnation_of (e\<lparr>peer_state := Some DEAD\<rparr>) = i"
        by (simp add: incarnation_of_def)
      with e(2) True show ?thesis by (simp add: dead_with_set_peer)
    qed
  qed
qed

text \<open>The loop of \<open>_handle_state\<close> leaves the entry of a peer as it is unless the message
  has an entry for the peer with a higher incarnation.\<close>

lemma merge_remote_peer_entry:
  "map_of ps p = Some e \<Longrightarrow>
     map_of (fst (merge_remote_peer self now r ps)) p = Some e \<or>
     (fst r = p \<and> incarnation_of (snd r) > incarnation_of e)"
  by (cases "fst r = p") (auto simp: merge_remote_peer_def Let_def update_conv' split: option.splits)

lemma merge_remote_peers_fst:
  "fst (merge_remote_peers self now (r # rs) ps) =
     fst (merge_remote_peers self now rs (fst (merge_remote_peer self now r ps)))"
  by (simp add: case_prod_beta)

lemma merge_fold_entry:
  "map_of ps p = Some e \<Longrightarrow>
     map_of (fst (merge_remote_peers self now rs ps)) p = Some e \<or>
     list_ex (\<lambda>(q, d). q = p \<and> incarnation_of d > incarnation_of e) rs"
proof (induction rs arbitrary: ps)
  case Nil
  then show ?case by simp
next
  case (Cons r rs)
  from merge_remote_peer_entry [OF Cons.prems, of self now r]
  show ?case
  proof
    assume "map_of (fst (merge_remote_peer self now r ps)) p = Some e"
    from Cons.IH [OF this] show ?thesis unfolding merge_remote_peers_fst by auto
  next
    assume "fst r = p \<and> incarnation_of e < incarnation_of (snd r)"
    then have "list_ex (\<lambda>(q, d). q = p \<and> incarnation_of d > incarnation_of e) (r # rs)"
      by (cases r) auto
    then show ?thesis by (rule disjI2)
  qed
qed

lemma peers_handle_state:
  "peers (fst (handle_state s m now)) =
     fst (merge_remote_peers (gp_node_id s) now (remote_peers m) (peers s))"
  by (simp add: handle_state_def remote_peers_def case_prod_beta split: option.splits)

lemma handle_state_dead:
  "dead_with s p i \<Longrightarrow>
     dead_with (fst (handle_state s m now)) p i \<or>
     list_ex (\<lambda>(q, d). q = p \<and> incarnation_of d > i) (remote_peers m)"
proof -
  assume d: "dead_with s p i"
  then obtain e where e: "map_of (peers s) p = Some e" "peer_state e = Some DEAD"
    "incarnation_of e = i"
    by (auto simp: dead_with_def split: option.splits)
  from merge_fold_entry [OF e(1), of "gp_node_id s" now "remote_peers m"] e
  show ?thesis
    by (auto simp: peers_handle_state dead_with_def)
qed

lemma dispatch_fst:
  "fst (dispatch H s m addr now) =
     (if message_type m = ''ping'' then Ok (handle_ping H s m addr now)
      else if message_type m = ''ack'' then handle_ack s m
      else if message_type m = ''sync'' then Ok (handle_sync H s m addr now)
      else if message_type m = ''state'' then Ok (fst (handle_state s m now))
      else if message_type m = ''suspect'' then handle_suspect s m now
      else if message_type m = ''dead'' then Ok (handle_dead s m)
      else Ok s)"
  by (simp add: dispatch_def case_prod_beta)

lemma dispatch_snd:
  "snd (dispatch H s m addr now) =
     (if message_type m = ''state'' then snd (handle_state s m now) else m)"
  by (simp add: dispatch_def case_prod_beta)

lemma builtin_handling_fst:
  "fst (builtin_handling H s m addr now) =
     and_then (update_peer s (sender_id m) (fst addr) (snd addr) ALIVE now)
       (\<lambda>s1. fst (dispatch H s1 m addr now))"
  by (simp add: builtin_handling_def split: outcome.splits)

lemma process_message_eq:
  "process_message H pick s m addr now =
     and_then (fst (builtin_handling H s m addr now))
       (\<lambda>s2. propagate_message H pick (trigger_callbacks s2 (handled_message H s m addr now))
               (handled_message H s m addr now) now)"
  by (simp add: process_message_def handled_message_def case_prod_beta)

lemma dispatch_dead:
  assumes d: "dead_with s p i"
  shows "dead_with (state_of (fst (dispatch H s m addr now))) p i \<or>
     (message_type m = ''state'' \<and>
      list_ex (\<lambda>(q, d). q = p \<and> incarnation_of d > i) (remote_peers m))"
proof -
  consider (ping) "message_type m = ''ping''"
    | (ack) "message_type m \<noteq> ''ping''" "message_type m = ''ack''"
    | (sync) "message_type m \<noteq> ''ping''" "message_type m \<noteq> ''ack''" "message_type m = ''sync''"
    | (state) "message_type m \<noteq> ''ping''" "message_type m \<noteq> ''ack''"
        "message_type m \<noteq> ''sync''" "message_type m = ''state''"
    | (suspect) "message_type m \<noteq> ''ping''" "message_type m \<noteq> ''ack''"
        "message_type m \<noteq> ''sync''" "message_type m \<noteq> ''state''" "message_type m = ''suspect''"
    | (dead) "message_type m \<noteq> ''ping''" "message_type m \<noteq> ''ack''"
        "message_type m \<noteq> ''sync''" "message_type m \<noteq> ''state''"
        "message_type m \<noteq> ''suspect''" "message_type m = ''dead''"
    | (other) "message_type m \<noteq> ''ping''" "message_type m \<noteq> ''ack''"
        "message_type m \<noteq> ''sync''" "message_type m \<noteq> ''state''"
        "message_type m \<noteq> ''suspect''" "message_type m \<noteq> ''dead''"
    by blast
  then show ?thesis
  proof cases
    case ping
    then have "fst (dispatch H s m addr now) = Ok (handle_ping H s m addr now)"
      by (simp add: dispatch_fst)
    moreover have "peers (handle_ping H s m addr now) = peers s"
      by (simp add: handle_ping_def)
    ultimately show ?thesis using d by (simp add: dead_with_def)
  next
    case ack
    then have "fst (dispatch H s m addr now) = handle_ack s m"
      by (simp add: dispatch_fst)
    with handle_ack_dead [OF d, of m] show ?thesis by simp
  next
    case sync
    then have "fst (dispatch H s m addr now) = Ok (handle_sync H s m addr now)"
      by (simp add: dispatch_fst)
    moreover have "peers (handle_sync H s m addr now) = peers s"
      by (simp add: handle_sync_def)
    ultimately show ?thesis using d by (simp add: dead_with_def)
  next
    case state
    then have "fst (dispatch H s m addr now) = Ok (fst (handle_state s m now))"
      by (simp add: dispatch_fst)
    with handle_state_dead [OF d, of m now] state(4) show ?thesis by auto
  next
    case suspect
    then have "fst (dispatch H s m addr now) = handle_suspect s m now"
      by (simp add: dispatch_fst)
    with handle_suspect_dead [OF d, of m now] show ?thesis by simp
  next
    case dead
    then have "fst (dispatch H s m addr now) = Ok (handle_dead s m)"
      by (simp add: dispatch_fst)
    with handle_dead_dead [OF d, of m] show ?thesis by simp
  next
    case other
    then have "fst (dispatch H s m addr now) = Ok s"
      by (simp add: dispatch_fst)
    with d show ?thesis by simp
  qed
qed

lemma and_then_state:
  "state_of (and_then x f) = (case x of Ok s \<Rightarrow> state_of (f s) | Raise e s \<Rightarrow> s)"
  by (cases x) auto

lemma builtin_handling_dead:
  "dead_with s p i \<Longrightarrow>
     dead_with (state_of (fst (builtin_handling H s m addr now))) p i \<or>
     (message_type m = ''state'' \<and>
      list_ex (\<lambda>(q, d). q = p \<and> incarnation_of d > i) (remote_peers m))"
proof -
  assume d: "dead_with s p i"
  let ?u = "update_peer s (sender_id m) (fst addr) (snd addr) ALIVE now"
  from d have u: "dead_with (state_of ?u) p i" by (rule update_peer_dead)
  show ?thesis
  proof (cases ?u)
    case (Ok s1)
    with u have "dead_with s1 p i" by simp
    from dispatch_dead [OF this, of H m addr now] Ok show ?thesis
      by (simp add: builtin_handling_fst)
  next
    case (Raise err s1)
    with u show ?thesis by (simp add: builtin_handling_fst)
  qed
qed

lemma process_message_dead:
  assumes d: "dead_with s p i"
  shows "dead_with (state_of (process_message H pick s m addr now)) p i \<or>
     (message_type m = ''state'' \<and>
      list_ex (\<lambda>(q, d). q = p \<and> incarnation_of d > i) (remote_peers m))"
proof (cases "fst (builtin_handling H s m addr now)")
  case (Ok s2)
  have "peers (state_of (process_message H pick s m addr now)) = peers s2"
    using Ok by (simp add: process_message_eq)
  then have "dead_with (state_of (process_message H pick s m addr now)) p i = dead_with s2 p i"
    by (rule dead_with_peers)
  with builtin_handling_dead [OF d, of H m addr now] Ok show ?thesis by simp
next
  case (Raise err s2)
  then have "state_of (process_message H pick s m addr now) = s2"
    by (simp add: process_message_eq)
  with builtin_handling_dead [OF d, of H m addr now] Raise show ?thesis by simp
qed

lemma peers_should_process [simp]: "peers (snd (should_process_message s m now)) = peers s"
  by (simp add: should_process_message_def)

lemma datagram_received_dead:
  assumes d: "dead_with s p i"
  shows "dead_with (datagram_received H pick s dg addr now) p i \<or>
     higher_incarnation_sync H s (Receive dg addr pick) now p i"
proof -
  let ?m = "decode H dg now"
  obtain ok s1 where sp: "should_process_message s ?m now = (ok, s1)"
    by (cases "should_process_message s ?m now") auto
  then have "peers s1 = peers s"
    using peers_should_process [of s ?m now] by simp
  then have "dead_with s1 p i = dead_with s p i" by (rule dead_with_peers)
  with d have d1: "dead_with s1 p i" by simp
  show ?thesis
  proof (cases ok)
    case False
    with sp have "datagram_received H pick s dg addr now = s1"
      by (simp add: datagram_received_def)
    with d1 show ?thesis by simp
  next
    case True
    with sp have r: "datagram_received H pick s dg addr now =
        state_of (process_message H pick s1 ?m addr now)"
      by (simp add: datagram_received_def)
    from process_message_dead [OF d1, of H pick ?m addr now]
    show ?thesis
    proof
      assume "dead_with (state_of (process_message H pick s1 ?m addr now)) p i"
      with r show ?thesis by simp
    next
      assume "message_type ?m = ''state'' \<and>
        list_ex (\<lambda>(q, d). q = p \<and> incarnation_of d > i) (remote_peers ?m)"
      with sp True have "higher_incarnation_sync H s (Receive dg addr pick) now p i"
        by (simp add: higher_incarnation_sync_def)
      then show ?thesis ..
    qed
  qed
qed

text \<open>Sending changes nothing but the list of sent datagrams.\<close>

lemma gossip_send_shape: "\<exists>xs. gossip_send s m a = s\<lparr>gp_sent := gp_sent s @ xs\<rparr>"
proof (cases "gp_transport s")
  case True
  then have "gossip_send s m a = s\<lparr>gp_sent := gp_sent s @ [(m, a)]\<rparr>"
    by (simp add: gossip_send_def)
  then show ?thesis by blast
next
  case False
  then have "gossip_send s m a = s\<lparr>gp_sent := gp_sent s @ []\<rparr>"
    by (simp add: gossip_send_def)
  then show ?thesis by blast
qed

lemma send_to_peers_shape:
  "\<exists>xs. state_of (send_to_peers s m ps) = s\<lparr>gp_sent := gp_sent s @ xs\<rparr>"
proof (induction ps arbitrary: s)
  case Nil
  have "state_of (send_to_peers s m []) = s\<lparr>gp_sent := gp_sent s @ []\<rparr>" by simp
  then show ?case by blast
next
  case (Cons peer rest)
  show ?case
  proof (cases "peer_ip peer")
    case None
    then have "state_of (send_to_peers s m (peer # rest)) = s\<lparr>gp_sent := gp_sent s @ []\<rparr>"
      by simp
    then show ?thesis by blast
  next
    case (Some host)
    show ?thesis
    proof (cases "peer_port peer")
      case None
      with Some have "state_of (send_to_peers s m (peer # rest)) = s\<lparr>gp_sent := gp_sent s @ []\<rparr>"
        by simp
      then show ?thesis by blast
    next
      case (Some prt)
      obtain xs where xs: "gossip_send s m (host, prt) = s\<lparr>gp_sent := gp_sent s @ xs\<rparr>"
        using gossip_send_shape by blast
      obtain ys where ys: "state_of (send_to_peers (gossip_send s m (host, prt)) m rest) =
          (gossip_send s m (host, prt))\<lparr>gp_sent := gp_sent (gossip_send s m (host, prt)) @ ys\<rparr>"
        using Cons.IH by blast
      have "state_of (send_to_peers s m (peer # rest)) = s\<lparr>gp_sent := gp_sent s @ (xs @ ys)\<rparr>"
        using \<open>peer_ip peer = Some host\<close> Some ys by (simp add: xs)
      then show ?thesis by blast
    qed
  qed
qed

lemma propagate_to_entries_shape:
  "\<exists>xs. state_of (propagate_to_entries s m ps) = s\<lparr>gp_sent := gp_sent s @ xs\<rparr>"
proof (induction ps arbitrary: s)
  case Nil
  have "state_of (propagate_to_entries s m []) = s\<lparr>gp_sent := gp_sent s @ []\<rparr>" by simp
  then show ?case by blast
next
  case (Cons peer rest)
  have stop: "state_of (propagate_to_entries s m (peer # rest)) = s \<Longrightarrow> ?case"
  proof -
    assume "state_of (propagate_to_entries s m (peer # rest)) = s"
    then have "state_of (propagate_to_entries s m (peer # rest)) = s\<lparr>gp_sent := gp_sent s @ []\<rparr>"
      by simp
    then show ?case by blast
  qed
  have "state_of (propagate_to_entries s m (peer # rest)) = s
      \<or> propagate_to_entries s m (peer # rest) = propagate_to_entries s m rest
      \<or> (\<exists>host prt. propagate_to_entries s m (peer # rest) =
            propagate_to_entries (gossip_send s m (host, prt)) m rest)"
  proof (cases "peer_state peer")
    case None
    then show ?thesis by simp
  next
    case (Some st)
    note st = Some
    show ?thesis
    proof (cases "st = DEAD")
      case True
      with st show ?thesis by simp
    next
      case False
      show ?thesis
      proof (cases "peer_ip peer")
        case None
        with st False show ?thesis by simp
      next
        case (Some host)
        with st False show ?thesis by (cases "peer_port peer") auto
      qed
    qed
  qed
  then consider (raise) "state_of (propagate_to_entries s m (peer # rest)) = s"
    | (skip) "propagate_to_entries s m (peer # rest) = propagate_to_entries s m rest"
    | (send) host prt where "propagate_to_entries s m (peer # rest) =
        propagate_to_entries (gossip_send s m (host, prt)) m rest"
    by blast
  then show ?case
  proof cases
    case raise
    then show ?thesis by (rule stop)
  next
    case skip
    with Cons.IH [of s] show ?thesis by simp
  next
    case (send host prt)
    obtain xs where xs: "gossip_send s m (host, prt) = s\<lparr>gp_sent := gp_sent s @ xs\<rparr>"
      using gossip_send_shape by blast
    obtain ys where ys: "state_of (propagate_to_entries (gossip_send s m (host, prt)) m rest) =
        (gossip_send s m (host, prt))\<lparr>gp_sent := gp_sent (gossip_send s m (host, prt)) @ ys\<rparr>"
      using Cons.IH by blast
    have "state_of (propagate_to_entries s m (peer # rest)) = s\<lparr>gp_sent := gp_sent s @ (xs @ ys)\<rparr>"
      using send ys by (simp add: xs)
    then show ?thesis by blast
  qed
qed

lemma propagate_to_all_shape:
  "\<exists>xs. state_of (propagate_to_all s m) = s\<lparr>gp_sent := gp_sent s @ xs\<rparr>"
  unfolding propagate_to_all_def by (rule propagate_to_entries_shape)

text \<open>What one round of the loop of \<open>_check_peers\<close> does to the peer table: nothing, or
  it deletes a dead peer that was last seen more than \<open>dead_timeout\<close> ago, or it changes
  the entry of a peer that is not dead.\<close>

lemma check_peer_shape:
  "dead_timeout (state_of (check_peer H now q s)) = dead_timeout s \<and>
   (peers (state_of (check_peer H now q s)) = peers s
    \<or> (\<exists>e seen. map_of (peers s) q = Some e \<and> peer_state e = Some DEAD \<and>
          peer_last_seen e = Some seen \<and> now - seen > dead_timeout s \<and>
          peers (state_of (check_peer H now q s)) = AList.delete q (peers s))
    \<or> (\<exists>e e' st. map_of (peers s) q = Some e \<and> peer_state e = Some st \<and> st \<noteq> DEAD \<and>
          peers (state_of (check_peer H now q s)) = AList.update q e' (peers s)))"
proof (cases "map_of (peers s) q")
  case None
  then show ?thesis by (simp add: check_peer_def)
next
  case (Some peer)
  note peer = Some
  show ?thesis
  proof (cases "peer_state peer")
    case None
    with peer show ?thesis by (simp add: check_peer_def)
  next
    case (Some st)
    note st = Some
    consider (dead) "st = DEAD" | (suspect) "st \<noteq> DEAD" "st = SUSPECT"
      | (alive) "st \<noteq> DEAD" "st \<noteq> SUSPECT" "st = ALIVE"
      | (other) "st \<noteq> DEAD" "st \<noteq> SUSPECT" "st \<noteq> ALIVE"
      by blast
    then show ?thesis
    proof cases
      case dead
      with peer st show ?thesis
        by (cases "peer_last_seen peer") (auto simp: check_peer_def)
    next
      case suspect
      show ?thesis
      proof (cases "peer_suspect_time peer")
        case None
        with peer st suspect show ?thesis by (simp add: check_peer_def)
      next
        case (Some since)
        show ?thesis
        proof (cases "now - since > suspicion_timeout s")
          case False
          with peer st suspect Some show ?thesis by (simp add: check_peer_def)
        next
          case True
          let ?s1 = "set_peer s q (peer\<lparr>peer_state := Some DEAD\<rparr>)"
          let ?msg = "GossipMessage_init H (gp_node_id s) ''dead''
                             (no_data\<lparr>gd_peer_id := Some q\<rparr>) None
                             DEFAULT_MAX_TRANSMIT_COUNT now"
          from True peer st suspect Some
          have c: "check_peer H now q s = propagate_to_all ?s1 ?msg"
            by (simp add: check_peer_def)
          obtain xs where "state_of (propagate_to_all ?s1 ?msg) = ?s1\<lparr>gp_sent := gp_sent ?s1 @ xs\<rparr>"
            using propagate_to_all_shape by blast
          with c have "dead_timeout (state_of (check_peer H now q s)) = dead_timeout s"
            "peers (state_of (check_peer H now q s)) =
               AList.update q (peer\<lparr>peer_state := Some DEAD\<rparr>) (peers s)"
            by (simp_all add: set_peer_def)
          with peer st suspect show ?thesis by blast
        qed
      qed
    next
      case alive
      show ?thesis
      proof (cases "peer_last_seen peer")
        case None
        with peer st alive show ?thesis by (simp add: check_peer_def)
      next
        case (Some seen)
        show ?thesis
        proof (cases "now - seen > suspicion_timeout s")
          case False
          with peer st alive Some show ?thesis by (simp add: check_peer_def)
        next
          case True
          let ?e = "peer\<lparr>peer_state := Some SUSPECT, peer_suspect_time := Some now\<rparr>"
          let ?s1 = "set_peer s q ?e"
          let ?ping = "GossipMessage_init H (gp_node_id s) ''ping'' no_data None
                                   DEFAULT_MAX_TRANSMIT_COUNT now"
          let ?msg = "GossipMessage_init H (gp_node_id s) ''suspect''
                                   (no_data\<lparr>gd_peer_id := Some q\<rparr>) None
                                   DEFAULT_MAX_TRANSMIT_COUNT now"
          from True peer st alive Some
          have c: "check_peer H now q s =
              and_then (send_to_peers ?s1 ?ping [peer]) (\<lambda>s2. propagate_to_all s2 ?msg)"
            by (simp add: check_peer_def Let_def)
          obtain xs where xs: "state_of (send_to_peers ?s1 ?ping [peer]) = ?s1\<lparr>gp_sent := gp_sent ?s1 @ xs\<rparr>"
            using send_to_peers_shape by blast
          have "dead_timeout (state_of (check_peer H now q s)) = dead_timeout s \<and>
                peers (state_of (check_peer H now q s)) = AList.update q ?e (peers s)"
          proof (cases "send_to_peers ?s1 ?ping [peer]")
            case (Raise err t)
            with xs c show ?thesis by (simp add: set_peer_def)
          next
            case (Ok t)
            with xs have t: "t = ?s1\<lparr>gp_sent := gp_sent ?s1 @ xs\<rparr>" by simp
            obtain ys where "state_of (propagate_to_all t ?msg) = t\<lparr>gp_sent := gp_sent t @ ys\<rparr>"
              using propagate_to_all_shape by blast
            with Ok c t show ?thesis by (simp add: set_peer_def)
          qed
          with peer st alive show ?thesis by blast
        qed
      qed
    next
      case other
      with peer st show ?thesis by (simp add: check_peer_def)
    qed
  qed
qed

lemma check_peer_dead_entry:
  assumes e: "map_of (peers s) p = Some e" "peer_state e = Some DEAD"
  shows "map_of (peers (state_of (check_peer H now q s))) p = Some e \<or>
         (expired s p now \<and> map_of (peers (state_of (check_peer H now q s))) p = None)"
proof -
  let ?s1 = "state_of (check_peer H now q s)"
  from check_peer_shape [of H now q s]
  consider (same) "peers ?s1 = peers s"
    | (del) e0 seen where "map_of (peers s) q = Some e0" "peer_state e0 = Some DEAD"
        "peer_last_seen e0 = Some seen" "now - seen > dead_timeout s"
        "peers ?s1 = AList.delete q (peers s)"
    | (upd) e0 e' st where "map_of (peers s) q = Some e0" "peer_state e0 = Some st" "st \<noteq> DEAD"
        "peers ?s1 = AList.update q e' (peers s)"
    by blast
  then show ?thesis
  proof cases
    case same
    with e show ?thesis by simp
  next
    case del
    show ?thesis
    proof (cases "q = p")
      case True
      with del e have "expired s p now" by (simp add: expired_def)
      moreover from del True have "map_of (peers ?s1) p = None" by (simp add: delete_conv')
      ultimately show ?thesis by blast
    next
      case False
      with del e show ?thesis by (simp add: delete_conv')
    qed
  next
    case upd
    with e have "q \<noteq> p" by auto
    with upd e show ?thesis by (simp add: update_conv')
  qed
qed

lemma check_peer_absent:
  assumes "map_of (peers s) p = None"
  shows "map_of (peers (state_of (check_peer H now q s))) p = None"
proof -
  let ?s1 = "state_of (check_peer H now q s)"
  from check_peer_shape [of H now q s]
  consider (same) "peers ?s1 = peers s"
    | (del) "peers ?s1 = AList.delete q (peers s)"
    | (upd) e0 e' where "map_of (peers s) q = Some e0" "peers ?s1 = AList.update q e' (peers s)"
    by blast
  then show ?thesis
  proof cases
    case same
    with assms show ?thesis by simp
  next
    case del
    with assms show ?thesis by (simp add: delete_conv')
  next
    case upd
    with assms have "q \<noteq> p" by auto
    with upd assms show ?thesis by (simp add: update_conv')
  qed
qed

lemma check_peers_loop_absent:
  "map_of (peers s) p = None \<Longrightarrow> map_of (peers (state_of (check_peers_loop H now ids s))) p = None"
proof (induction ids arbitrary: s)
  case Nil
  then show ?case by simp
next
  case (Cons q rest)
  from check_peer_absent [OF Cons.prems, of H now q]
  have a: "map_of (peers (state_of (check_peer H now q s))) p = None" .
  show ?case
  proof (cases "check_peer H now q s")
    case (Ok s1)
    with a Cons.IH [of s1] show ?thesis by simp
  next
    case (Raise err s1)
    with a show ?thesis by simp
  qed
qed

lemma expired_cong:
  "map_of (peers s1) p = map_of (peers s) p \<Longrightarrow> dead_timeout s1 = dead_timeout s \<Longrightarrow>
     expired s1 p now = expired s p now"
  by (simp add: expired_def split: option.splits)

lemma check_peers_loop_dead_entry:
  "map_of (peers s) p = Some e \<Longrightarrow> peer_state e = Some DEAD \<Longrightarrow>
     map_of (peers (state_of (check_peers_loop H now ids s))) p = Some e \<or>
     (expired s p now \<and> map_of (peers (state_of (check_peers_loop H now ids s))) p = None)"
proof (induction ids arbitrary: s)
  case Nil
  then show ?case by simp
next
  case (Cons q rest)
  let ?s1 = "state_of (check_peer H now q s)"
  have dt: "dead_timeout ?s1 = dead_timeout s"
    using check_peer_shape [of H now q s] by blast
  from check_peer_dead_entry [OF Cons.prems, of H now q]
  show ?case
  proof
    assume same: "map_of (peers ?s1) p = Some e"
    show ?thesis
    proof (cases "check_peer H now q s")
      case (Raise err s1)
      with same show ?thesis by simp
    next
      case (Ok s1)
      with same dt have s1: "map_of (peers s1) p = Some e" "dead_timeout s1 = dead_timeout s"
        by simp_all
      with Cons.prems have "expired s1 p now = expired s p now"
        by (simp add: expired_cong)
      with Cons.IH [OF s1(1) Cons.prems(2)] Ok show ?thesis by simp
    qed
  next
    assume gone: "expired s p now \<and> map_of (peers ?s1) p = None"
    show ?thesis
    proof (cases "check_peer H now q s")
      case (Raise err s1)
      with gone show ?thesis by simp
    next
      case (Ok s1)
      with gone have "map_of (peers s1) p = None" by simp
      from check_peers_loop_absent [OF this, of H now rest] Ok gone show ?thesis by simp
    qed
  qed
qed

lemma cleanup_round_peers:
  "peers (cleanup_round H s now) = peers (state_of (check_peers H s now))"
  by (cases "check_peers H s now") (simp_all add: cleanup_round_def clean_message_cache_def)

lemma cleanup_round_dead:
  assumes d: "dead_with s p i"
  shows "dead_with (cleanup_round H s now) p i \<or>
         (expired s p now \<and> map_of (peers (cleanup_round H s now)) p = None)"
proof -
  from d obtain e where e: "map_of (peers s) p = Some e" "peer_state e = Some DEAD"
    "incarnation_of e = i"
    by (auto simp: dead_with_def split: option.splits)
  from check_peers_loop_dead_entry [OF e(1,2), of H now "map fst (peers s)"] e(2,3)
  show ?thesis
    by (auto simp: cleanup_round_peers check_peers_def dead_with_def)
qed

lemma gossip_round_peers: "peers (gossip_round H select s now) = peers s"
proof (cases "live_peers (peers s)")
  case (Inl err)
  then show ?thesis by (simp add: gossip_round_def)
next
  case (Inr live)
  let ?msg = "GossipMessage_init H (gp_node_id s) ''sync'' no_data None
                    DEFAULT_MAX_TRANSMIT_COUNT now"
  have "peers (state_of (send_to_peers s ?msg [select live])) = peers s"
    by (rule peers_send_to_peers)
  with Inr show ?thesis by (simp add: gossip_round_def del: send_to_peers.simps)
qed

lemma gossip_step_dead:
  assumes d: "dead_with s p i"
  shows "dead_with (gossip_step H s ev now) p i \<or> leaves_dead H s ev now p i"
proof (cases ev)
  case (Receive dg addr pick)
  with datagram_received_dead [OF d, of H pick dg addr now] show ?thesis
    by (auto simp: gossip_step_def leaves_dead_def)
next
  case (AddPeer q host prt)
  with update_peer_dead [OF d, of q host prt ALIVE now] show ?thesis
    by (simp add: gossip_step_def add_peer_def)
next
  case CleanupRound
  with cleanup_round_dead [OF d, of H now] show ?thesis
    by (auto simp: gossip_step_def leaves_dead_def)
next
  case (GossipRound select)
  have "dead_with (gossip_round H select s now) p i = dead_with s p i"
    using gossip_round_peers by (rule dead_with_peers)
  with d GossipRound show ?thesis by (simp add: gossip_step_def)
qed

text \<open>
  Claim C2. At every node and for every sequence of locally applied gossip steps (inbound
  datagrams of any type, peer updates, cleanup rounds, gossip rounds), a peer recorded as
  DEAD with incarnation \<open>i\<close> is still recorded as DEAD with incarnation \<open>i\<close> at the
  end, unless at some step of the sequence, with the peer still DEAD before it, either a
  cleanup round removed the peer (last seen more than \<open>dead_timeout\<close> ago), or an
  accepted \<open>state\<close> message carried an entry for the peer with an incarnation strictly
  above \<open>i\<close>. In particular no step sets a DEAD peer back to ALIVE within its
  incarnation.
\<close>

theorem C2_dead_never_alive_again:
  "dead_with s p i \<Longrightarrow>
     dead_with (gossip_run H s evs) p i \<or>
     (\<exists>pre ev now post. evs = pre @ (ev, now) # post \<and>
        dead_with (gossip_run H s pre) p i \<and>
        leaves_dead H (gossip_run H s pre) ev now p i)"
proof (induction evs arbitrary: s)
  case Nil
  then show ?case by simp
next
  case (Cons x rest)
  obtain ev now where x: "x = (ev, now)" by (cases x) auto
  from gossip_step_dead [OF Cons.prems, of H ev now]
  show ?case
  proof
    assume d1: "dead_with (gossip_step H s ev now) p i"
    from Cons.IH [OF d1]
    show ?thesis
    proof
      assume "dead_with (gossip_run H (gossip_step H s ev now) rest) p i"
      with x show ?thesis by simp
    next
      assume "\<exists>pre ev' now' post. rest = pre @ (ev', now') # post \<and>
        dead_with (gossip_run H (gossip_step H s ev now) pre) p i \<and>
        leaves_dead H (gossip_run H (gossip_step H s ev now) pre) ev' now' p i"
      then obtain pre ev' now' post where
        r: "rest = pre @ (ev', now') # post"
          "dead_with (gossip_run H (gossip_step H s ev now) pre) p i"
          "leaves_dead H (gossip_run H (gossip_step H s ev now) pre) ev' now' p i"
        by blast
      from r x have "x # rest = ((ev, now) # pre) @ (ev', now') # post \<and>
          dead_with (gossip_run H s ((ev, now) # pre)) p i \<and>
          leaves_dead H (gossip_run H s ((ev, now) # pre)) ev' now' p i"
        by simp
      then show ?thesis by blast
    qed
  next
    assume l: "leaves_dead H s ev now p i"
    from x Cons.prems l have "x # rest = [] @ (ev, now) # rest \<and>
        dead_with (gossip_run H s []) p i \<and> leaves_dead H (gossip_run H s []) ev now p i"
      by simp
    then show ?thesis by blast
  qed
qed

theorem C2_dead_never_alive_again_witness:
  "dead_with c2_state ''b'' 0
   \<and> dead_with (gossip_run demo_hash c2_state c2_events) ''b'' 0
   \<and> (dead_with (gossip_run demo_hash c2_state c2_events) ''b'' 0 \<or>
       (\<exists>pre ev now post. c2_events = pre @ (ev, now) # post \<and>
          dead_with (gossip_run demo_hash c2_state pre) ''b'' 0 \<and>
          leaves_dead demo_hash (gossip_run demo_hash c2_state pre) ev now ''b'' 0))"
proof -
  have h: "dead_with c2_state ''b'' 0"
    by code_simp
  have e: "dead_with (gossip_run demo_hash c2_state c2_events) ''b'' 0"
    by code_simp
  from C2_dead_never_alive_again [OF h, of demo_hash c2_events] h e show ?thesis by blast
qed

section \<open>What the steps leave unchanged\<close>

lemma frame_refl [simp]: "frame s s"
  by (simp add: frame_def)


lemma frame_set_peer [simp]: "frame s (set_peer s q e)"
  by (simp add: frame_def set_peer_def)

lemma frame_sent [simp]: "frame s (s\<lparr>gp_sent := xs\<rparr>)"
  by (simp add: frame_def)

lemma frame_gossip_send [simp]: "frame s (gossip_send s m a)"
  by (simp add: gossip_send_def)




lemma frame_handle_ack [simp]: "frame s (state_of (handle_ack s m))"
  by (simp add: handle_ack_def split: option.splits)

lemma frame_handle_suspect [simp]: "frame s (state_of (handle_suspect s m now))"
  by (simp add: handle_suspect_def Let_def split: option.splits)

lemma frame_handle_dead [simp]: "frame s (handle_dead s m)"
  by (simp add: handle_dead_def Let_def split: option.splits)

lemma frame_handle_state [simp]: "frame s (fst (handle_state s m now))"
  by (simp add: handle_state_def frame_def case_prod_beta split: option.splits)

lemma frame_handle_ping [simp]: "frame s (handle_ping H s m addr now)"
  by (simp add: handle_ping_def)

lemma frame_handle_sync [simp]: "frame s (handle_sync H s m addr now)"
  by (simp add: handle_sync_def)




section \<open>Deduplication\<close>


lemma registered_frame: "frame s s' \<Longrightarrow> registered s' t = registered s t"
  by (simp add: registered_def frame_def)

text \<open>The built-in handling writes to a message only in \<open>_handle_state\<close>, and there
  only to the \<open>peers\<close> of its data.\<close>

lemma handle_state_message:
  "sender_id (snd (handle_state s m now)) = sender_id m"
  "message_type (snd (handle_state s m now)) = message_type m"
  "timestamp (snd (handle_state s m now)) = timestamp m"
  "ttl (snd (handle_state s m now)) = ttl m"
  "message_id (snd (handle_state s m now)) = message_id m"
  "data (snd (handle_state s m now)) =
     (data m)\<lparr>gd_peers := gd_peers (data (snd (handle_state s m now)))\<rparr>"
  by (simp_all add: handle_state_def case_prod_beta split: option.splits)

lemma handled_message_cases:
  "handled_message H s m addr now = m \<or>
   (message_type m = ''state'' \<and>
    (\<exists>s1. handled_message H s m addr now = snd (handle_state s1 m now)))"
proof (cases "update_peer s (sender_id m) (fst addr) (snd addr) ALIVE now")
  case (Ok s1)
  then have "handled_message H s m addr now = snd (dispatch H s1 m addr now)"
    by (simp add: handled_message_def builtin_handling_def)
  then show ?thesis by (auto simp: dispatch_snd)
next
  case (Raise err s1)
  then show ?thesis by (simp add: handled_message_def builtin_handling_def)
qed

lemma handled_message_fields:
  "sender_id (handled_message H s m addr now) = sender_id m"
  "message_type (handled_message H s m addr now) = message_type m"
  "timestamp (handled_message H s m addr now) = timestamp m"
  "ttl (handled_message H s m addr now) = ttl m"
  "message_id (handled_message H s m addr now) = message_id m"
  using handled_message_cases [of H s m addr now] by (auto simp: handle_state_message)

lemma handled_message_same:
  "message_type m \<noteq> ''state'' \<Longrightarrow> handled_message H s m addr now = m"
  using handled_message_cases [of H s m addr now] by auto




lemma should_process_message_eq:
  "should_process_message s m now =
     (if dropped s m then (False, s) else (True, note_message s m now))"
  by (auto simp: should_process_message_def dropped_def note_message_def)

lemma datagram_received_eq:
  "datagram_received H pick s dg addr now =
     (if dropped s (decode H dg now) then s
      else state_of (process_message H pick (note_message s (decode H dg now) now)
                       (decode H dg now) addr now))"
  by (simp add: datagram_received_def should_process_message_eq Let_def)





lemma list_all_update:
  "list_all P al \<Longrightarrow> P (k, v) \<Longrightarrow> list_all P (AList.update k v al)"
  by (induction al) auto







section \<open>Eviction from the dedup cache\<close>










text \<open>
  A \<open>state\<close> message that tells of a new peer leaves the handler with that peer's
  \<open>last_seen\<close> overwritten by the time of receipt, and is forwarded so.
\<close>

lemma state_message_is_stamped:
  "map (peer_last_seen \<circ> snd) (remote_peers (decode demo_hash state_datagram 121)) = [Some 50]
   \<and> map (peer_last_seen \<circ> snd)
         (remote_peers (handled_message demo_hash
            (note_message c4_state (decode demo_hash state_datagram 121) 121)
            (decode demo_hash state_datagram 121) c4_addr 121)) = [Some 121]
   \<and> map (\<lambda>(m, a). (map (peer_last_seen \<circ> snd) (remote_peers m), ttl m, a))
         (gp_sent (datagram_received demo_hash first_peers c4_state state_datagram c4_addr 121)) =
       [([Some 121], 2, (''10.0.0.2'', 8001)), ([Some 121], 2, (''10.0.0.3'', 8001))]"
  by code_simp



section \<open>Epidemic propagation\<close>

lemma floor_sqrt_upto_sq: "floor_sqrt_upto n r * floor_sqrt_upto n r \<le> n"
  by (induction r) auto

lemma floor_sqrt_upto_le: "floor_sqrt_upto n r \<le> r"
  by (induction r) auto

lemma floor_sqrt_upto_greatest: "k \<le> r \<Longrightarrow> k * k \<le> n \<Longrightarrow> k \<le> floor_sqrt_upto n r"
proof (induction r)
  case 0
  then show ?case by simp
next
  case (Suc r)
  show ?case
  proof (cases "k = Suc r")
    case True
    with Suc.prems show ?thesis by simp
  next
    case False
    with Suc.prems have "k \<le> r" by simp
    from Suc.IH [OF this Suc.prems(2)] floor_sqrt_upto_le [of n r] show ?thesis by auto
  qed
qed

lemma floor_sqrt_bounds:
  "floor_sqrt n * floor_sqrt n \<le> n \<and> n < Suc (floor_sqrt n) * Suc (floor_sqrt n)"
proof -
  let ?r = "floor_sqrt n"
  have lo: "?r * ?r \<le> n"
    by (simp add: floor_sqrt_def floor_sqrt_upto_sq)
  have hi: "n < Suc ?r * Suc ?r"
  proof (rule ccontr)
    assume "\<not> n < Suc ?r * Suc ?r"
    then have sq: "Suc ?r * Suc ?r \<le> n" by simp
    have "Suc ?r \<le> Suc ?r * Suc ?r" by simp
    with sq have "Suc ?r \<le> n" by linarith
    from floor_sqrt_upto_greatest [OF this sq] show False
      by (simp add: floor_sqrt_def)
  qed
  from lo hi show ?thesis ..
qed

lemma floor_sqrt_eq: "floor_sqrt n = nat \<lfloor>sqrt (real n)\<rfloor>"
proof -
  let ?r = "floor_sqrt n"
  from floor_sqrt_bounds [of n] have lo: "?r * ?r \<le> n" and hi: "n < Suc ?r * Suc ?r"
    by simp_all
  from lo have "(real ?r)\<^sup>2 \<le> real n"
    by (metis of_nat_le_iff of_nat_mult power2_eq_square)
  then have a: "real ?r \<le> sqrt (real n)"
    by (rule real_le_rsqrt)
  from hi have "real n < (real (Suc ?r))\<^sup>2"
    by (metis of_nat_less_iff of_nat_mult power2_eq_square)
  then have "sqrt (real n) < real (Suc ?r)"
    by (intro real_less_lsqrt) simp_all
  then have b: "sqrt (real n) < of_int (int ?r) + 1"
    by simp
  from a have a': "of_int (int ?r) \<le> sqrt (real n)" by simp
  from a' b have "\<lfloor>sqrt (real n)\<rfloor> = int ?r"
    by (rule floor_unique)
  then show ?thesis by simp
qed

lemma live_peers_complete:
  "list_all (\<lambda>(q, e). complete_entry e) ps \<Longrightarrow>
     live_peers ps = Inr (filter (\<lambda>e. peer_state e \<noteq> Some DEAD) (map snd ps))"
  by (induction ps) (auto simp: complete_entry_def)

lemma non_dead_complete:
  "complete_peers s \<Longrightarrow> e \<in> set (non_dead_peers s) \<Longrightarrow> complete_entry e"
  by (auto simp: complete_peers_def non_dead_peers_def list_all_iff)

lemma is_sample_length: "is_sample population k chosen \<Longrightarrow> length chosen = k"
  by (auto simp: is_sample_def)

lemma is_sample_subset: "is_sample population k chosen \<Longrightarrow> set chosen \<subseteq> set population"
  by (auto simp: is_sample_def list_all_iff)

lemma is_sample_take: "k \<le> length xs \<Longrightarrow> is_sample xs k (take k xs)"
proof -
  assume k: "k \<le> length xs"
  have "map ((!) xs) [0..<k] = take k xs"
    using k by (simp add: list_eq_iff_nth_eq)
  with k have "length [0..<k] = k \<and> distinct [0..<k] \<and> list_all (\<lambda>i. i < length xs) [0..<k] \<and>
      take k xs = map ((!) xs) [0..<k]"
    by (simp add: list_all_iff)
  then show ?thesis unfolding is_sample_def by blast
qed

lemma send_to_peers_complete:
  "gp_transport s \<Longrightarrow> list_all complete_entry targets \<Longrightarrow>
     send_to_peers s m targets =
       Ok (s\<lparr>gp_sent := gp_sent s @ map (\<lambda>e. (m, peer_addr e)) targets\<rparr>)"
proof (induction targets arbitrary: s)
  case Nil
  then show ?case by simp
next
  case (Cons e rest)
  from Cons.prems obtain host prt where e: "peer_ip e = Some host" "peer_port e = Some prt"
    by (auto simp: complete_entry_def)
  let ?s1 = "gossip_send s m (host, prt)"
  from Cons.prems have s1: "?s1 = s\<lparr>gp_sent := gp_sent s @ [(m, host, prt)]\<rparr>"
    by (simp add: gossip_send_def)
  then have "gp_transport ?s1" using Cons.prems by simp
  from Cons.IH [OF this] Cons.prems e s1 show ?case
    by (simp add: peer_addr_def)
qed

lemma propagate_message_complete:
  assumes c: "complete_peers s" and tr: "gp_transport s" and hops: "1 < ttl m"
    and sample: "is_sample (non_dead_peers s) (target_count (length (non_dead_peers s)))
                   (pick (non_dead_peers s) (target_count (length (non_dead_peers s))))"
  shows "propagate_message H pick s m now =
           Ok (s\<lparr>gp_sent := gp_sent s @
                 map (\<lambda>e. (forward_copy H m now, peer_addr e))
                   (pick (non_dead_peers s) (target_count (length (non_dead_peers s))))\<rparr>)"
proof -
  let ?live = "non_dead_peers s"
  let ?targets = "pick ?live (target_count (length ?live))"
  from c have lp: "live_peers (peers s) = Inr ?live"
    by (simp add: complete_peers_def non_dead_peers_def live_peers_complete)
  show ?thesis
  proof (cases "?live = []")
    case True
    with sample have "?targets = []"
      by (auto simp: is_sample_def target_count_def)
    with True lp hops show ?thesis
      by (simp add: propagate_message_def Let_def)
  next
    case False
    from is_sample_subset [OF sample] non_dead_complete [OF c]
    have "list_all complete_entry ?targets"
      by (auto simp: list_all_iff)
    from send_to_peers_complete [OF tr this, of "forward_copy H m now"] False lp hops
    show ?thesis
      by (simp add: propagate_message_def Let_def forward_copy_def)
  qed
qed

lemma forward_copy_fields:
  "sender_id (forward_copy H m now) = sender_id m"
  "message_type (forward_copy H m now) = message_type m"
  "data (forward_copy H m now) = data m"
  "ttl (forward_copy H m now) = ttl m - 1"
  "timestamp m \<noteq> 0 \<Longrightarrow> timestamp (forward_copy H m now) = timestamp m"
  "timestamp m \<noteq> 0 \<Longrightarrow> message_id (forward_copy H m now) = (sender_id m, timestamp m, H (data m))"
  by (simp_all add: forward_copy_def GossipMessage_init_def Let_def)

text \<open>
  Claim C6 as stated gives the sample the size \<open>max(3, \<lceil>\<surd>N\<rceil>)\<close>, capped at N. With
  N = 10 peers that are not dead this is 4, but the code, which takes the integer part
  of the square root, forwards the message to 3 peers.
\<close>

theorem C6_sample_size_is_not_the_ceiling:
  "length (non_dead_peers c6_state) = 10
   \<and> length (gp_sent (state_of (propagate_message demo_hash first_peers c6_state c6_message 121))) = 3
   \<and> min 10 (max 3 (nat \<lceil>sqrt 10\<rceil>)) = (4::nat)
   \<and> length (gp_sent (state_of (propagate_message demo_hash first_peers c6_state c6_message 121)))
       \<noteq> min 10 (max 3 (nat \<lceil>sqrt 10\<rceil>))"
proof -
  have a: "length (non_dead_peers c6_state) = 10"
    by code_simp
  have b: "length (gp_sent (state_of (propagate_message demo_hash first_peers c6_state c6_message 121))) = 3"
    by code_simp
  have "(3::real)\<^sup>2 < 10" by simp
  then have lo: "(3::real) < sqrt 10" by (rule real_less_rsqrt)
  have "(10::real) \<le> 4\<^sup>2" by simp
  then have hi: "sqrt 10 \<le> (4::real)" by (intro real_le_lsqrt) simp_all
  from lo hi have "\<lceil>sqrt 10\<rceil> = (4::int)"
    by (intro ceiling_unique) simp_all
  then have c: "nat \<lceil>sqrt 10\<rceil> = 4" by simp
  from a b show ?thesis by (simp add: c)
qed

text \<open>
  Claim C6, amended. When a node whose transport is up and whose peer entries all have
  \<open>ip\<close>, \<open>port\<close> and \<open>state\<close> propagates a message with TTL above 1, it sends a copy
  with the TTL decremented by 1 (same sender, type, data, timestamp and id) to each peer
  of a random sample of its N peers that are not DEAD; the sample has
  \<open>min(N, max(3, \<lfloor>\<surd>N\<rfloor>))\<close> members, the integer part of the square root and not its
  ceiling. A datagram from the node itself, with TTL at most 0, or with an id in the
  dedup cache is dropped: the state stays as it is, nothing is processed or forwarded.
  An accepted datagram is forwarded in this way after the handler and the callbacks,
  unless the handler raised; what is forwarded is the message as the handler left it,
  which is the received message unless that is a \<open>state\<close> message (the handler writes
  its \<open>last_seen\<close> stamp into the entries of the peers it learns of).
\<close>

theorem C6_propagation:
  "(complete_peers s \<and> gp_transport s \<and> 1 < ttl m \<and>
    is_sample (non_dead_peers s) (target_count (length (non_dead_peers s)))
      (pick (non_dead_peers s) (target_count (length (non_dead_peers s)))) \<longrightarrow>
      propagate_message H pick s m now =
        Ok (s\<lparr>gp_sent := gp_sent s @
              map (\<lambda>e. (forward_copy H m now, peer_addr e))
                (pick (non_dead_peers s) (target_count (length (non_dead_peers s))))\<rparr>) \<and>
      length (pick (non_dead_peers s) (target_count (length (non_dead_peers s)))) =
        min (length (non_dead_peers s))
          (max 3 (nat \<lfloor>sqrt (real (length (non_dead_peers s)))\<rfloor>)) \<and>
      set (pick (non_dead_peers s) (target_count (length (non_dead_peers s))))
        \<subseteq> set (non_dead_peers s))
   \<and> sender_id (forward_copy H m now) = sender_id m
   \<and> message_type (forward_copy H m now) = message_type m
   \<and> data (forward_copy H m now) = data m
   \<and> ttl (forward_copy H m now) = ttl m - 1
   \<and> (timestamp m \<noteq> 0 \<longrightarrow>
        timestamp (forward_copy H m now) = timestamp m \<and>
        message_id (forward_copy H m now) = (sender_id m, timestamp m, H (data m)))
   \<and> (sender_id (decode H dg now) = gp_node_id s \<or> ttl (decode H dg now) \<le> 0 \<or>
       map_of (message_cache s) (message_id (decode H dg now)) \<noteq> None \<longrightarrow>
        datagram_received H pick s dg addr now = s)
   \<and> (\<forall>s2 m1. \<not> dropped s (decode H dg now) \<and>
        builtin_handling H (note_message s (decode H dg now) now) (decode H dg now) addr now =
          (Ok s2, m1) \<longrightarrow>
        datagram_received H pick s dg addr now =
          state_of (propagate_message H pick (trigger_callbacks s2 m1) m1 now) \<and>
        sender_id m1 = sender_id (decode H dg now) \<and>
        message_type m1 = message_type (decode H dg now) \<and>
        timestamp m1 = timestamp (decode H dg now) \<and>
        ttl m1 = ttl (decode H dg now) \<and>
        (message_type (decode H dg now) \<noteq> ''state'' \<longrightarrow> m1 = decode H dg now))"
proof -
  let ?live = "non_dead_peers s"
  let ?k = "target_count (length ?live)"
  have a: "complete_peers s \<and> gp_transport s \<and> 1 < ttl m \<and> is_sample ?live ?k (pick ?live ?k) \<longrightarrow>
      propagate_message H pick s m now =
        Ok (s\<lparr>gp_sent := gp_sent s @ map (\<lambda>e. (forward_copy H m now, peer_addr e)) (pick ?live ?k)\<rparr>) \<and>
      length (pick ?live ?k) = min (length ?live) (max 3 (nat \<lfloor>sqrt (real (length ?live))\<rfloor>)) \<and>
      set (pick ?live ?k) \<subseteq> set ?live"
  proof
    assume h: "complete_peers s \<and> gp_transport s \<and> 1 < ttl m \<and> is_sample ?live ?k (pick ?live ?k)"
    then have c: "complete_peers s" and tr: "gp_transport s" and hops: "1 < ttl m"
      and sample: "is_sample ?live ?k (pick ?live ?k)"
      by simp_all
    have k: "?k = min (length ?live) (max 3 (nat \<lfloor>sqrt (real (length ?live))\<rfloor>))"
      by (simp add: target_count_def floor_sqrt_eq)
    from propagate_message_complete [where s = s and m = m and pick = pick and H = H and now = now,
        OF c tr hops sample]
      is_sample_length [OF sample] is_sample_subset [OF sample] k
    show "propagate_message H pick s m now =
        Ok (s\<lparr>gp_sent := gp_sent s @ map (\<lambda>e. (forward_copy H m now, peer_addr e)) (pick ?live ?k)\<rparr>) \<and>
      length (pick ?live ?k) = min (length ?live) (max 3 (nat \<lfloor>sqrt (real (length ?live))\<rfloor>)) \<and>
      set (pick ?live ?k) \<subseteq> set ?live"
      by simp
  qed
  have d: "sender_id (decode H dg now) = gp_node_id s \<or> ttl (decode H dg now) \<le> 0 \<or>
       map_of (message_cache s) (message_id (decode H dg now)) \<noteq> None \<longrightarrow>
        datagram_received H pick s dg addr now = s"
    by (auto simp: datagram_received_eq dropped_def)
  have e: "\<forall>s2 m1. \<not> dropped s (decode H dg now) \<and>
        builtin_handling H (note_message s (decode H dg now) now) (decode H dg now) addr now =
          (Ok s2, m1) \<longrightarrow>
        datagram_received H pick s dg addr now =
          state_of (propagate_message H pick (trigger_callbacks s2 m1) m1 now) \<and>
        sender_id m1 = sender_id (decode H dg now) \<and>
        message_type m1 = message_type (decode H dg now) \<and>
        timestamp m1 = timestamp (decode H dg now) \<and>
        ttl m1 = ttl (decode H dg now) \<and>
        (message_type (decode H dg now) \<noteq> ''state'' \<longrightarrow> m1 = decode H dg now)"
  proof (intro allI impI)
    fix s2 m1
    let ?m = "decode H dg now"
    let ?s1 = "note_message s ?m now"
    assume h: "\<not> dropped s ?m \<and> builtin_handling H ?s1 ?m addr now = (Ok s2, m1)"
    then have m1: "m1 = handled_message H ?s1 ?m addr now"
      by (simp add: handled_message_def)
    from h have "datagram_received H pick s dg addr now =
          state_of (propagate_message H pick (trigger_callbacks s2 m1) m1 now)"
      by (simp add: datagram_received_eq process_message_def)
    with handled_message_fields [of H ?s1 ?m addr now] handled_message_same [of ?m H ?s1 addr now]
    show "datagram_received H pick s dg addr now =
          state_of (propagate_message H pick (trigger_callbacks s2 m1) m1 now) \<and>
        sender_id m1 = sender_id ?m \<and> message_type m1 = message_type ?m \<and>
        timestamp m1 = timestamp ?m \<and> ttl m1 = ttl ?m \<and>
        (message_type ?m \<noteq> ''state'' \<longrightarrow> m1 = ?m)"
      unfolding m1 by simp
  qed
  from a d e forward_copy_fields [where H = H and m = m and now = now] show ?thesis by blast
qed

theorem C6_propagation_witness:
  "complete_peers c6_state \<and> gp_transport c6_state \<and> 1 < ttl c6_message
   \<and> is_sample (non_dead_peers c6_state) 3 (first_peers (non_dead_peers c6_state) 3)
   \<and> propagate_message demo_hash first_peers c6_state c6_message 121 =
       Ok (c6_state\<lparr>gp_sent :=
             [(c6_message\<lparr>ttl := 2\<rparr>, (''10.0.1.0'', 8001)),
              (c6_message\<lparr>ttl := 2\<rparr>, (''10.0.1.1'', 8001)),
              (c6_message\<lparr>ttl := 2\<rparr>, (''10.0.1.2'', 8001))]\<rparr>)
   \<and> length (first_peers (non_dead_peers c6_state) 3) = min 10 (max 3 (nat \<lfloor>sqrt 10\<rfloor>))"
proof -
  have n: "length (non_dead_peers c6_state) = 10"
    by code_simp
  have k: "target_count 10 = 3"
    by code_simp
  have h1: "complete_peers c6_state" by code_simp
  have h2: "gp_transport c6_state" by code_simp
  have h3: "1 < ttl c6_message" by code_simp
  have h4: "is_sample (non_dead_peers c6_state) 3 (first_peers (non_dead_peers c6_state) 3)"
    unfolding first_peers_def by (rule is_sample_take) (simp add: n)
  note t = C6_propagation [of c6_state c6_message first_peers demo_hash 121 Malformed "(''x'', 0)",
      THEN conjunct1, THEN mp, unfolded n k, OF conjI [OF h1 conjI [OF h2 conjI [OF h3 h4]]]]
  have s: "c6_state\<lparr>gp_sent := gp_sent c6_state @
              map (\<lambda>e. (forward_copy demo_hash c6_message 121, peer_addr e))
                (first_peers (non_dead_peers c6_state) 3)\<rparr> =
           c6_state\<lparr>gp_sent :=
             [(c6_message\<lparr>ttl := 2\<rparr>, (''10.0.1.0'', 8001)),
              (c6_message\<lparr>ttl := 2\<rparr>, (''10.0.1.1'', 8001)),
              (c6_message\<lparr>ttl := 2\<rparr>, (''10.0.1.2'', 8001))]\<rparr>"
    by code_simp
  from t s h1 h2 h3 h4 show ?thesis by simp
qed

section \<open>The two presence maps\<close>

lemma same_maps_refl [simp]: "same_maps s s"
  by (simp add: same_maps_def)

lemma same_maps_broadcast [simp]: "same_maps s (snd (broadcast s m))"
  by (simp add: broadcast_def same_maps_def split: option.splits sum.splits outcome.splits)

lemma same_maps_trigger [simp]: "same_maps s (aps_trigger_callbacks s t a p)"
  by (simp add: aps_trigger_callbacks_def same_maps_def)

lemma same_maps_send_agent_info [simp]: "same_maps s (send_agent_info H s p target now)"
  by (simp add: send_agent_info_def same_maps_def split: option.splits)

lemma same_maps_handle_agent_query [simp]: "same_maps s (handle_agent_query H s m now)"
  by (simp add: handle_agent_query_def Let_def split: option.splits)

lemma same_maps_start [simp]: "same_maps s (start s bound)"
  by (simp add: start_def same_maps_def Let_def)

lemma same_maps_stop [simp]: "same_maps s (stop s)"
  by (simp add: stop_def same_maps_def)

lemma same_maps_query [simp]: "same_maps s (snd (query_agent H s a now))"
  by (simp add: query_agent_def propagate_agent_query_def case_prod_beta split: option.splits)

lemma same_maps_register_callback [simp]: "same_maps s (aps_register_callback s t cb)"
  by (simp add: aps_register_callback_def same_maps_def split: option.splits)

lemma hosted_apart_same: "same_maps s s' \<Longrightarrow> hosted_apart s \<Longrightarrow> hosted_apart s'"
  by (simp add: same_maps_def hosted_apart_def)

lemma list_all_delete: "list_all P al \<Longrightarrow> list_all P (AList.delete k al)"
  by (induction al) auto

lemma hosted_apart_local:
  assumes "hosted_apart s" "ap_node_id p = aps_node_id s" "ap_agent_id p = a"
  shows "hosted_apart (s\<lparr>local_agents := AList.update a p (local_agents s)\<rparr>)"
  using assms by (simp add: hosted_apart_def list_all_update)

lemma hosted_apart_local_delete:
  "hosted_apart s \<Longrightarrow> hosted_apart (s\<lparr>local_agents := AList.delete a (local_agents s)\<rparr>)"
  by (simp add: hosted_apart_def list_all_delete)

lemma hosted_apart_remote:
  assumes "hosted_apart s" "ap_node_id p \<noteq> aps_node_id s" "ap_agent_id p = a"
  shows "hosted_apart (s\<lparr>remote_agents := AList.update a p (remote_agents s)\<rparr>)"
  using assms by (simp add: hosted_apart_def list_all_update)

lemma hosted_apart_remote_delete:
  "hosted_apart s \<Longrightarrow> hosted_apart (s\<lparr>remote_agents := AList.delete a (remote_agents s)\<rparr>)"
  by (simp add: hosted_apart_def list_all_delete)

lemma hosted_lookup_local:
  "hosted_apart s \<Longrightarrow> map_of (local_agents s) a = Some p \<Longrightarrow>
     ap_node_id p = aps_node_id s \<and> ap_agent_id p = a"
  by (auto simp: hosted_apart_def list_all_iff dest: map_of_SomeD)

lemma hosted_apart_register:
  assumes h: "hosted_apart s"
  shows "hosted_apart (snd (register_agent H s a caps now))"
proof (cases "aps_running s")
  case False
  with h show ?thesis by (simp add: register_agent_def)
next
  case True
  let ?p = "AgentPresence_init a (aps_node_id s) caps None now"
  let ?s1 = "s\<lparr>local_agents := AList.update a ?p (local_agents s)\<rparr>"
  have "hosted_apart ?s1"
    by (rule hosted_apart_local [OF h]) (simp_all add: AgentPresence_init_def)
  then have "hosted_apart (snd (propagate_agent_active H ?s1 ?p now))"
    unfolding propagate_agent_active_def by (rule hosted_apart_same [OF same_maps_broadcast])
  with True show ?thesis by (simp add: register_agent_def Let_def)
qed

lemma hosted_apart_unregister:
  assumes h: "hosted_apart s"
  shows "hosted_apart (snd (unregister_agent H s a now))"
proof (cases "aps_running s \<and> map_of (local_agents s) a \<noteq> None")
  case False
  with h show ?thesis by (auto simp: unregister_agent_def)
next
  case True
  then obtain p where p: "map_of (local_agents s) a = Some p" by auto
  let ?s1 = "s\<lparr>local_agents := AList.delete a (local_agents s)\<rparr>"
  have "hosted_apart ?s1" by (rule hosted_apart_local_delete [OF h])
  then have "hosted_apart (snd (propagate_agent_inactive H ?s1 p now))"
    unfolding propagate_agent_inactive_def by (rule hosted_apart_same [OF same_maps_broadcast])
  with True p show ?thesis by (simp add: unregister_agent_def)
qed

lemma hosted_apart_update_capabilities:
  assumes h: "hosted_apart s"
  shows "hosted_apart (snd (update_agent_capabilities H s a caps now))"
proof (cases "aps_running s \<and> map_of (local_agents s) a \<noteq> None")
  case False
  with h show ?thesis by (auto simp: update_agent_capabilities_def)
next
  case True
  then obtain p where p: "map_of (local_agents s) a = Some p" by auto
  let ?p = "p\<lparr>ap_capabilities := caps, ap_last_updated := now\<rparr>"
  let ?s1 = "s\<lparr>local_agents := AList.update a ?p (local_agents s)\<rparr>"
  from hosted_lookup_local [OF h p] have "hosted_apart ?s1"
    by (intro hosted_apart_local [OF h]) simp_all
  then have "hosted_apart (snd (propagate_agent_active H ?s1 ?p now))"
    unfolding propagate_agent_active_def by (rule hosted_apart_same [OF same_maps_broadcast])
  with True p show ?thesis by (simp add: update_agent_capabilities_def Let_def)
qed

lemma hosted_apart_merge:
  assumes h: "hosted_apart s"
  shows "hosted_apart (merge_presence s p)"
proof (cases "ap_node_id p = aps_node_id s")
  case True
  with h show ?thesis by (simp add: merge_presence_def)
next
  case False
  let ?s1 = "s\<lparr>remote_agents := AList.update (ap_agent_id p) p (remote_agents s)\<rparr>"
  have s1: "hosted_apart ?s1"
    by (rule hosted_apart_remote [OF h False]) simp
  have t: "hosted_apart (aps_trigger_callbacks ?s1 ev (ap_agent_id p) p)" for ev
    using s1 by (rule hosted_apart_same [OF same_maps_trigger])
  from False h t show ?thesis
    by (simp add: merge_presence_def Let_def split: option.splits)
qed

lemma hosted_apart_active: "hosted_apart s \<Longrightarrow> hosted_apart (handle_agent_active s m now)"
  by (simp add: handle_agent_active_def hosted_apart_merge split: option.splits)

lemma hosted_apart_info: "hosted_apart s \<Longrightarrow> hosted_apart (handle_agent_info s m now)"
  by (simp add: handle_agent_info_def hosted_apart_merge split: option.splits)

lemma hosted_apart_inactive:
  assumes h: "hosted_apart s"
  shows "hosted_apart (handle_agent_inactive s m)"
proof -
  have t: "hosted_apart (aps_trigger_callbacks
      (s\<lparr>remote_agents := AList.delete a (remote_agents s)\<rparr>) ev a p)" for a ev p
    using hosted_apart_remote_delete [OF h, of a] by (rule hosted_apart_same [OF same_maps_trigger])
  from h t show ?thesis
    by (simp add: handle_agent_inactive_def Let_def split: option.splits)
qed

lemma hosted_apart_handler: "hosted_apart s \<Longrightarrow> hosted_apart (run_handler H m now s cb)"
  using hosted_apart_same [OF same_maps_handle_agent_query, of s H m now]
  by (simp add: run_handler_def hosted_apart_active hosted_apart_info hosted_apart_inactive)

lemma hosted_apart_handlers:
  "hosted_apart s \<Longrightarrow> hosted_apart (foldl (run_handler H m now) s cbs)"
  by (induction cbs arbitrary: s) (simp_all add: hosted_apart_handler)

lemma hosted_apart_deliver: "hosted_apart s \<Longrightarrow> hosted_apart (deliver H s m now)"
  by (simp add: deliver_def hosted_apart_handlers split: option.splits)

lemma hosted_apart_gossip: "hosted_apart s \<Longrightarrow> hosted_apart (s\<lparr>aps_gossip := g\<rparr>)"
  by (simp add: hosted_apart_def)

lemma hosted_apart_service_datagram:
  assumes h: "hosted_apart s"
  shows "hosted_apart (service_datagram_received H pick s dg addr now)"
proof (cases "aps_gossip s")
  case None
  with h show ?thesis by (simp add: service_datagram_received_def)
next
  case (Some g)
  let ?m = "decode H dg now"
  obtain ok g1 where sp: "should_process_message g ?m now = (ok, g1)"
    by (cases "should_process_message g ?m now") auto
  show ?thesis
  proof (cases ok)
    case False
    with Some sp hosted_apart_gossip [OF h] show ?thesis
      by (simp add: service_datagram_received_def)
  next
    case True
    obtain r m1 where bh: "builtin_handling H g1 ?m addr now = (r, m1)"
      by (cases "builtin_handling H g1 ?m addr now") auto
    show ?thesis
    proof (cases r)
      case (Raise err g2)
      with Some sp True bh hosted_apart_gossip [OF h] show ?thesis
        by (simp add: service_datagram_received_def)
    next
      case (Ok g2)
      let ?s1 = "deliver H (s\<lparr>aps_gossip := Some (trigger_callbacks g2 m1)\<rparr>) m1 now"
      have "hosted_apart ?s1"
        by (rule hosted_apart_deliver [OF hosted_apart_gossip [OF h]])
      then have "hosted_apart (?s1\<lparr>aps_gossip :=
          map_option (\<lambda>g3. state_of (propagate_message H pick g3 m1 now)) (aps_gossip ?s1)\<rparr>)"
        by (rule hosted_apart_gossip)
      with Some sp True bh Ok show ?thesis
        by (simp add: service_datagram_received_def Let_def)
    qed
  qed
qed

lemma hosted_apart_step:
  assumes h: "hosted_apart s"
  shows "hosted_apart (presence_step H s ev now)"
proof (cases ev)
  case (Start bound)
  with hosted_apart_same [OF same_maps_start h] show ?thesis by (simp add: presence_step_def)
next
  case Stop
  with hosted_apart_same [OF same_maps_stop h] show ?thesis by (simp add: presence_step_def)
next
  case (Register a caps)
  with hosted_apart_register [OF h] show ?thesis by (simp add: presence_step_def)
next
  case (Unregister a)
  with hosted_apart_unregister [OF h] show ?thesis by (simp add: presence_step_def)
next
  case (UpdateCapabilities a caps)
  with hosted_apart_update_capabilities [OF h] show ?thesis by (simp add: presence_step_def)
next
  case (Query a)
  with hosted_apart_same [OF same_maps_query h] show ?thesis by (simp add: presence_step_def)
next
  case (RegisterCallback t cb)
  with hosted_apart_same [OF same_maps_register_callback h] show ?thesis
    by (simp add: presence_step_def)
next
  case (Inbound m)
  with hosted_apart_deliver [OF h] show ?thesis by (simp add: presence_step_def)
next
  case (Gossip gev)
  with h hosted_apart_service_datagram [OF h] show ?thesis
    by (cases gev) (simp_all add: presence_step_def hosted_apart_def)
qed

lemma hosted_apart_run: "hosted_apart s \<Longrightarrow> hosted_apart (presence_run H s evs)"
  by (induction evs arbitrary: s) (auto simp: hosted_apart_step)

lemma hosted_apart_init: "hosted_apart (AgentPresenceService_init nid)"
  by (simp add: hosted_apart_def AgentPresenceService_init_def)

text \<open>
  Claim C9 as stated says that no agent id is in \<open>local_agents\<close> and in
  \<open>remote_agents\<close> at once. After the three events above both maps have the key \<open>x\<close>:
  registering looks at \<open>local_agents\<close> only, and the inbound handler skips a presence
  only when its node id is the local one.
\<close>

theorem C9_agent_id_in_both_maps:
  "map fst (local_agents (presence_run demo_hash (AgentPresenceService_init ''a'') both_maps_events)) = [''x'']
   \<and> map fst (remote_agents (presence_run demo_hash (AgentPresenceService_init ''a'') both_maps_events)) = [''x'']
   \<and> set (map fst (local_agents (presence_run demo_hash (AgentPresenceService_init ''a'') both_maps_events)))
       \<inter> set (map fst (remote_agents (presence_run demo_hash (AgentPresenceService_init ''a'') both_maps_events)))
       \<noteq> {}"
proof -
  have a: "map fst (local_agents (presence_run demo_hash (AgentPresenceService_init ''a'') both_maps_events)) = [''x'']"
    by code_simp
  have b: "map fst (remote_agents (presence_run demo_hash (AgentPresenceService_init ''a'') both_maps_events)) = [''x'']"
    by code_simp
  show ?thesis unfolding a b by simp
qed

text \<open>
  Claim C9, amended. In every state that the service reaches from its initial state,
  under every interleaving of start, stop, \<open>register_agent\<close>, \<open>unregister_agent\<close>,
  \<open>update_agent_capabilities\<close>, \<open>query_agent\<close>, callback registration, received
  datagrams and the other gossip steps, and direct calls of the inbound handlers, every record of \<open>local_agents\<close> is hosted on the local node and
  every record of \<open>remote_agents\<close> on another node, each under its own agent id; so no
  presence record is in both maps. (An agent id can be a key of both.)
\<close>

theorem C9_maps_hosted_apart:
  "hosted_apart (presence_run H (AgentPresenceService_init nid) evs)
   \<and> set (map snd (local_agents (presence_run H (AgentPresenceService_init nid) evs)))
       \<inter> set (map snd (remote_agents (presence_run H (AgentPresenceService_init nid) evs))) = {}"
proof -
  let ?s = "presence_run H (AgentPresenceService_init nid) evs"
  have h: "hosted_apart ?s"
    by (rule hosted_apart_run [OF hosted_apart_init])
  have "set (map snd (local_agents ?s)) \<inter> set (map snd (remote_agents ?s)) = {}"
  proof (rule ccontr)
    assume "set (map snd (local_agents ?s)) \<inter> set (map snd (remote_agents ?s)) \<noteq> {}"
    then obtain p a b where "(a, p) \<in> set (local_agents ?s)" "(b, p) \<in> set (remote_agents ?s)"
      by auto
    with h have "ap_node_id p = aps_node_id ?s" "ap_node_id p \<noteq> aps_node_id ?s"
      by (auto simp: hosted_apart_def list_all_iff)
    then show False by simp
  qed
  with h show ?thesis ..
qed

theorem C9_maps_hosted_apart_witness:
  "map (ap_node_id \<circ> snd) (local_agents (presence_run demo_hash (AgentPresenceService_init ''a'') both_maps_events)) = [''a'']
   \<and> map (ap_node_id \<circ> snd) (remote_agents (presence_run demo_hash (AgentPresenceService_init ''a'') both_maps_events)) = [''b'']
   \<and> hosted_apart (presence_run demo_hash (AgentPresenceService_init ''a'') both_maps_events)
   \<and> set (map snd (local_agents (presence_run demo_hash (AgentPresenceService_init ''a'') both_maps_events)))
       \<inter> set (map snd (remote_agents (presence_run demo_hash (AgentPresenceService_init ''a'') both_maps_events))) = {}"
proof -
  have a: "map (ap_node_id \<circ> snd) (local_agents (presence_run demo_hash (AgentPresenceService_init ''a'') both_maps_events)) = [''a'']"
    by code_simp
  have b: "map (ap_node_id \<circ> snd) (remote_agents (presence_run demo_hash (AgentPresenceService_init ''a'') both_maps_events)) = [''b'']"
    by code_simp
  from a b C9_maps_hosted_apart [of demo_hash "''a''" both_maps_events] show ?thesis by blast
qed

section \<open>Presence updates are monotone\<close>

lemma merge_presence_cases:
  "(ap_node_id p = aps_node_id s \<longrightarrow> merge_presence s p = s)
   \<and> (ap_node_id p \<noteq> aps_node_id s \<and> map_of (remote_agents s) (ap_agent_id p) = None \<longrightarrow>
        merge_presence s p =
          s\<lparr>remote_agents := AList.update (ap_agent_id p) p (remote_agents s),
            aps_fired := aps_fired s @
              map (\<lambda>cb. (cb, ''agent_discovered'', ap_agent_id p, to_dict p))
                (aps_registered s ''agent_discovered'')\<rparr>)
   \<and> (\<forall>old. ap_node_id p \<noteq> aps_node_id s \<and> map_of (remote_agents s) (ap_agent_id p) = Some old \<and>
        ap_last_updated p > ap_last_updated old \<longrightarrow>
        merge_presence s p =
          s\<lparr>remote_agents := AList.update (ap_agent_id p) p (remote_agents s),
            aps_fired := aps_fired s @
              map (\<lambda>cb. (cb, ''agent_updated'', ap_agent_id p, to_dict p))
                (aps_registered s ''agent_updated'')\<rparr>)
   \<and> (\<forall>old. ap_node_id p \<noteq> aps_node_id s \<and> map_of (remote_agents s) (ap_agent_id p) = Some old \<and>
        \<not> ap_last_updated p > ap_last_updated old \<longrightarrow>
        merge_presence s p = s)"
  by (simp add: merge_presence_def Let_def aps_trigger_callbacks_def aps_registered_def)

lemma merge_presence_mono:
  assumes "map_of (remote_agents s) a = Some old"
  shows "\<exists>new. map_of (remote_agents (merge_presence s p)) a = Some new \<and>
               ap_last_updated old \<le> ap_last_updated new"
proof (cases "ap_agent_id p = a")
  case False
  with assms show ?thesis
    by (auto simp: merge_presence_def Let_def aps_trigger_callbacks_def update_conv'
        split: option.splits)
next
  case True
  with assms show ?thesis
    by (auto simp: merge_presence_def Let_def aps_trigger_callbacks_def update_conv')
qed

lemma handle_agent_active_mono:
  assumes "map_of (remote_agents s) a = Some old"
  shows "\<exists>new. map_of (remote_agents (handle_agent_active s m now)) a = Some new \<and>
               ap_last_updated old \<le> ap_last_updated new"
  using assms merge_presence_mono [OF assms]
  by (auto simp: handle_agent_active_def split: option.splits)

lemma handle_agent_info_mono:
  assumes "map_of (remote_agents s) a = Some old"
  shows "\<exists>new. map_of (remote_agents (handle_agent_info s m now)) a = Some new \<and>
               ap_last_updated old \<le> ap_last_updated new"
  using assms merge_presence_mono [OF assms]
  by (auto simp: handle_agent_info_def split: option.splits)

lemma handle_agent_inactive_cases:
  "handle_agent_inactive s m = s \<or>
   (\<exists>a p. gd_agent_id (data m) = Some a \<and> map_of (remote_agents s) a = Some p \<and>
      gd_node_id (data m) = Some (ap_node_id p) \<and>
      remote_agents (handle_agent_inactive s m) = AList.delete a (remote_agents s))"
proof (cases "truthy (gd_agent_id (data m)) \<and> truthy (gd_node_id (data m))")
  case False
  then have "handle_agent_inactive s m = s"
    by (auto simp: handle_agent_inactive_def)
  then show ?thesis ..
next
  case True
  then obtain a n where an: "gd_agent_id (data m) = Some a" "gd_node_id (data m) = Some n"
    by (auto simp: truthy_def split: option.splits)
  show ?thesis
  proof (cases "map_of (remote_agents s) a")
    case None
    with True an have "handle_agent_inactive s m = s"
      by (simp add: handle_agent_inactive_def)
    then show ?thesis ..
  next
    case (Some p)
    show ?thesis
    proof (cases "ap_node_id p = n")
      case False
      with True an Some have "handle_agent_inactive s m = s"
        by (simp add: handle_agent_inactive_def)
      then show ?thesis ..
    next
      case eq: True
      with True an Some have "remote_agents (handle_agent_inactive s m) = AList.delete a (remote_agents s)"
        by (simp add: handle_agent_inactive_def aps_trigger_callbacks_def)
      with an Some eq show ?thesis by blast
    qed
  qed
qed

lemma handle_agent_inactive_other:
  assumes "map_of (remote_agents s) a = Some old" "gd_agent_id (data m) \<noteq> Some a"
  shows "map_of (remote_agents (handle_agent_inactive s m)) a = Some old"
  using handle_agent_inactive_cases [of s m] assms by (auto simp: delete_conv')

lemma inbound_step_mono:
  assumes "map_of (remote_agents s) a = Some old" "\<not> unregisters a i"
  shows "\<exists>new. map_of (remote_agents (inbound_step s i now)) a = Some new \<and>
               ap_last_updated old \<le> ap_last_updated new"
proof (cases i)
  case (ActiveMessage m)
  with handle_agent_active_mono [OF assms(1)] show ?thesis by simp
next
  case (InfoMessage m)
  with handle_agent_info_mono [OF assms(1)] show ?thesis by simp
next
  case (InactiveMessage m)
  with assms(2) have "gd_agent_id (data m) \<noteq> Some a" by simp
  from handle_agent_inactive_other [OF assms(1) this] InactiveMessage show ?thesis by simp
qed

lemma inbound_run_mono:
  "map_of (remote_agents s) a = Some old \<Longrightarrow> list_all (\<lambda>(i, now). \<not> unregisters a i) ms \<Longrightarrow>
     \<exists>new. map_of (remote_agents (inbound_run s ms)) a = Some new \<and>
           ap_last_updated old \<le> ap_last_updated new"
proof (induction ms arbitrary: s old)
  case Nil
  then show ?case by simp
next
  case (Cons x rest)
  obtain i now where x: "x = (i, now)" by (cases x) auto
  from Cons.prems(2) x have u: "\<not> unregisters a i"
    and r: "list_all (\<lambda>(i, now). \<not> unregisters a i) rest"
    by simp_all
  from inbound_step_mono [OF Cons.prems(1) u, of now] obtain mid where
    mid: "map_of (remote_agents (inbound_step s i now)) a = Some mid"
      "ap_last_updated old \<le> ap_last_updated mid"
    by blast
  from Cons.IH [OF mid(1) r] obtain new where
    "map_of (remote_agents (inbound_run (inbound_step s i now) rest)) a = Some new"
    "ap_last_updated mid \<le> ap_last_updated new"
    by blast
  with mid(2) x show ?case by auto
qed

lemma handle_agent_active_cases:
  "handle_agent_active s m now = s \<or>
   (\<exists>pd. gd_presence (data m) = Some pd \<and> \<not> empty_dict pd \<and>
      ap_node_id (AgentPresence_from_dict pd now) \<noteq> aps_node_id s \<and>
      handle_agent_active s m now = merge_presence s (AgentPresence_from_dict pd now))"
proof (cases "gd_presence (data m)")
  case None
  then show ?thesis by (simp add: handle_agent_active_def)
next
  case (Some pd)
  show ?thesis
  proof (cases "empty_dict pd \<or> ap_node_id (AgentPresence_from_dict pd now) = aps_node_id s")
    case True
    with Some have "handle_agent_active s m now = s"
      by (auto simp: handle_agent_active_def merge_presence_def)
    then show ?thesis ..
  next
    case False
    with Some show ?thesis by (simp add: handle_agent_active_def)
  qed
qed

lemma handle_agent_info_cases:
  "handle_agent_info s m now = s \<or>
   (\<exists>pd. gd_presence (data m) = Some pd \<and> \<not> empty_dict pd \<and>
      gd_target (data m) = Some (aps_node_id s) \<and>
      ap_node_id (AgentPresence_from_dict pd now) \<noteq> aps_node_id s \<and>
      handle_agent_info s m now = merge_presence s (AgentPresence_from_dict pd now))"
proof (cases "gd_presence (data m)")
  case None
  then show ?thesis by (simp add: handle_agent_info_def)
next
  case (Some pd)
  show ?thesis
  proof (cases "empty_dict pd \<or> gd_target (data m) \<noteq> Some (aps_node_id s) \<or>
                ap_node_id (AgentPresence_from_dict pd now) = aps_node_id s")
    case True
    with Some have "handle_agent_info s m now = s"
      by (auto simp: handle_agent_info_def merge_presence_def)
    then show ?thesis ..
  next
    case False
    with Some show ?thesis by (simp add: handle_agent_info_def)
  qed
qed

lemma remote_broadcast [simp]: "remote_agents (snd (broadcast s m)) = remote_agents s"
  using same_maps_broadcast [of s m] by (simp add: same_maps_def)

lemma remote_unchanged:
  assumes "\<not> runs_handlers ev"
  shows "remote_agents (presence_step H s ev now) = remote_agents s"
proof (cases ev)
  case (Start bound)
  with same_maps_start [of s bound] show ?thesis by (simp add: presence_step_def same_maps_def)
next
  case Stop
  with same_maps_stop [of s] show ?thesis by (simp add: presence_step_def same_maps_def)
next
  case (Register a caps)
  then show ?thesis
    by (simp add: presence_step_def register_agent_def propagate_agent_active_def Let_def)
next
  case (Unregister a)
  then show ?thesis
    by (simp add: presence_step_def unregister_agent_def propagate_agent_inactive_def
        split: option.splits)
next
  case (UpdateCapabilities a caps)
  then show ?thesis
    by (simp add: presence_step_def update_agent_capabilities_def propagate_agent_active_def Let_def
        split: option.splits)
next
  case (Query a)
  with same_maps_query [of s H a now] show ?thesis by (simp add: presence_step_def same_maps_def)
next
  case (RegisterCallback t cb)
  with same_maps_register_callback [of s t cb] show ?thesis
    by (simp add: presence_step_def same_maps_def)
next
  case (Inbound m)
  with assms show ?thesis by simp
next
  case (Gossip gev)
  with assms show ?thesis by (cases gev) (simp_all add: presence_step_def)
qed

text \<open>
  Claim C5 as stated concludes that for any agent id the \<open>last_updated\<close> of the remote
  cache never decreases over time. An \<open>agent_inactive\<close> message removes the entry, and
  a presence of the agent that arrives after it is inserted as new, whatever its
  \<open>last_updated\<close>: the cache holds \<open>x\<close> with 5, then not at all, then with 1, and
  \<open>agent_discovered\<close> fires a second time.
\<close>

theorem C5_last_updated_decreases_after_inactive:
  "map (ap_last_updated \<circ> snd)
     (remote_agents (inbound_run c5_state [(ActiveMessage (c5_message 5), 6)])) = [5]
   \<and> remote_agents
         (inbound_run c5_state
            [(ActiveMessage (c5_message 5), 6), (InactiveMessage inactive_x, 7)]) = []
   \<and> map (ap_last_updated \<circ> snd)
         (remote_agents
            (inbound_run c5_state
               [(ActiveMessage (c5_message 5), 6), (InactiveMessage inactive_x, 7),
                (ActiveMessage (c5_message 1), 8)])) = [1]
   \<and> aps_fired
         (inbound_run c5_state
            [(ActiveMessage (c5_message 5), 6), (InactiveMessage inactive_x, 7),
             (ActiveMessage (c5_message 1), 8)]) =
       [(4, ''agent_discovered'', ''x'', presence_x 2), (5, ''agent_updated'', ''x'', presence_x 5),
        (4, ''agent_discovered'', ''x'', presence_x 1)]"
  by code_simp

text \<open>
  Claim C5, amended. An inbound \<open>agent_active\<close> message, and an \<open>agent_info\<close> message
  addressed to this node, either leaves the service as it is or merges the presence it
  carries, which is hosted on another node. Merging inserts the presence when the agent
  id is new to \<open>remote_agents\<close> and fires the \<open>agent_discovered\<close> callbacks; it
  replaces a cached presence only when the incoming \<open>last_updated\<close> is strictly greater
  and then fires the \<open>agent_updated\<close> callbacks; otherwise nothing changes. Hence over
  any sequence of inbound messages among which no \<open>agent_inactive\<close> names the agent, an
  agent that is in the remote cache stays there and its \<open>last_updated\<close> never
  decreases. Every operation of the service that does not run the message handlers
  leaves \<open>remote_agents\<close> unchanged, and \<open>agent_inactive\<close> can only remove an entry.
\<close>

theorem C5_presence_monotone:
  "(handle_agent_active s m now = s \<or>
      (\<exists>pd. gd_presence (data m) = Some pd \<and> \<not> empty_dict pd \<and>
         ap_node_id (AgentPresence_from_dict pd now) \<noteq> aps_node_id s \<and>
         handle_agent_active s m now = merge_presence s (AgentPresence_from_dict pd now)))
   \<and> (handle_agent_info s m now = s \<or>
      (\<exists>pd. gd_presence (data m) = Some pd \<and> \<not> empty_dict pd \<and>
         gd_target (data m) = Some (aps_node_id s) \<and>
         ap_node_id (AgentPresence_from_dict pd now) \<noteq> aps_node_id s \<and>
         handle_agent_info s m now = merge_presence s (AgentPresence_from_dict pd now)))
   \<and> (ap_node_id p \<noteq> aps_node_id s \<and> map_of (remote_agents s) (ap_agent_id p) = None \<longrightarrow>
        merge_presence s p =
          s\<lparr>remote_agents := AList.update (ap_agent_id p) p (remote_agents s),
            aps_fired := aps_fired s @
              map (\<lambda>cb. (cb, ''agent_discovered'', ap_agent_id p, to_dict p))
                (aps_registered s ''agent_discovered'')\<rparr>)
   \<and> (\<forall>old. ap_node_id p \<noteq> aps_node_id s \<and> map_of (remote_agents s) (ap_agent_id p) = Some old \<and>
        ap_last_updated p > ap_last_updated old \<longrightarrow>
        merge_presence s p =
          s\<lparr>remote_agents := AList.update (ap_agent_id p) p (remote_agents s),
            aps_fired := aps_fired s @
              map (\<lambda>cb. (cb, ''agent_updated'', ap_agent_id p, to_dict p))
                (aps_registered s ''agent_updated'')\<rparr>)
   \<and> (\<forall>old. ap_node_id p \<noteq> aps_node_id s \<and> map_of (remote_agents s) (ap_agent_id p) = Some old \<and>
        \<not> ap_last_updated p > ap_last_updated old \<longrightarrow>
        merge_presence s p = s)
   \<and> (\<forall>old. map_of (remote_agents s) a = Some old \<and>
        list_all (\<lambda>(i, now). \<not> unregisters a i) ms \<longrightarrow>
        (\<exists>new. map_of (remote_agents (inbound_run s ms)) a = Some new \<and>
               ap_last_updated old \<le> ap_last_updated new))
   \<and> (\<not> runs_handlers ev \<longrightarrow> remote_agents (presence_step H s ev now) = remote_agents s)
   \<and> (handle_agent_inactive s m = s \<or>
       (\<exists>b q. gd_agent_id (data m) = Some b \<and> map_of (remote_agents s) b = Some q \<and>
          gd_node_id (data m) = Some (ap_node_id q) \<and>
          remote_agents (handle_agent_inactive s m) = AList.delete b (remote_agents s)))"
proof -
  note c = merge_presence_cases [of p s]
  have r: "\<not> runs_handlers ev \<longrightarrow> remote_agents (presence_step H s ev now) = remote_agents s"
    using remote_unchanged [of ev H s now] by blast
  have i: "\<forall>old. map_of (remote_agents s) a = Some old \<and>
        list_all (\<lambda>(i, now). \<not> unregisters a i) ms \<longrightarrow>
        (\<exists>new. map_of (remote_agents (inbound_run s ms)) a = Some new \<and>
               ap_last_updated old \<le> ap_last_updated new)"
    using inbound_run_mono [of s a _ ms] by blast
  show ?thesis
    using handle_agent_active_cases [of s m now] handle_agent_info_cases [of s m now]
      c [THEN conjunct2, THEN conjunct1] c [THEN conjunct2, THEN conjunct2, THEN conjunct1]
      c [THEN conjunct2, THEN conjunct2, THEN conjunct2] i r handle_agent_inactive_cases [of s m]
    by (intro conjI)
qed

theorem C5_presence_monotone_witness:
  "map (ap_last_updated \<circ> snd) (remote_agents c5_state) = [2]
   \<and> aps_fired c5_state = [(4, ''agent_discovered'', ''x'', presence_x 2)]
   \<and> handle_agent_active c5_state (c5_message 1) 6 = c5_state
   \<and> handle_agent_info c5_state (c5_message 2) 6 = c5_state
   \<and> remote_agents (handle_agent_active c5_state (c5_message 5) 6)
       = [(''x'', AgentPresence_from_dict (presence_x 5) 6)]
   \<and> aps_fired (handle_agent_active c5_state (c5_message 5) 6)
       = [(4, ''agent_discovered'', ''x'', presence_x 2), (5, ''agent_updated'', ''x'', presence_x 5)]
   \<and> (\<exists>new. map_of (remote_agents (inbound_run c5_state
                 [(ActiveMessage (c5_message 5), 6), (InfoMessage (c5_message 1), 7)])) ''x'' = Some new \<and>
              ap_last_updated (AgentPresence_from_dict (presence_x 2) 3) \<le> ap_last_updated new)"
proof -
  let ?old = "AgentPresence_from_dict (presence_x 2) 3"
  let ?new = "AgentPresence_from_dict (presence_x 5) 6"
  note t = C5_presence_monotone [of c5_state "c5_message 5" 6 ?new "''x''"
      "[(ActiveMessage (c5_message 5), 6), (InfoMessage (c5_message 1), 7)]" Stop demo_hash]
  have r: "remote_agents c5_state = [(''x'', ?old)]"
    by code_simp
  have f: "aps_fired c5_state = [(4, ''agent_discovered'', ''x'', presence_x 2)]"
    by code_simp
  have n: "aps_node_id c5_state = ''a''"
    by code_simp
  have u: "aps_registered c5_state ''agent_updated'' = [5]"
    by code_simp
  have h: "ap_node_id ?new \<noteq> aps_node_id c5_state \<and>
           map_of (remote_agents c5_state) (ap_agent_id ?new) = Some ?old \<and>
           ap_last_updated ?new > ap_last_updated ?old"
    unfolding r n by code_simp
  from t [THEN conjunct2, THEN conjunct2, THEN conjunct2, THEN conjunct1, rule_format, OF h]
  have m: "merge_presence c5_state ?new =
          c5_state\<lparr>remote_agents := AList.update (ap_agent_id ?new) ?new (remote_agents c5_state),
            aps_fired := aps_fired c5_state @
              map (\<lambda>cb. (cb, ''agent_updated'', ap_agent_id ?new, to_dict ?new))
                (aps_registered c5_state ''agent_updated'')\<rparr>" .
  have a: "handle_agent_active c5_state (c5_message 5) 6 = merge_presence c5_state ?new"
    by code_simp
  have d: "ap_agent_id ?new = ''x''" "to_dict ?new = presence_x 5"
    by code_simp+
  from m a have a1: "remote_agents (handle_agent_active c5_state (c5_message 5) 6) = [(''x'', ?new)]"
    unfolding r d by simp
  from m a have a2: "aps_fired (handle_agent_active c5_state (c5_message 5) 6)
       = [(4, ''agent_discovered'', ''x'', presence_x 2), (5, ''agent_updated'', ''x'', presence_x 5)]"
    unfolding f u d by simp
  have o1: "handle_agent_active c5_state (c5_message 1) 6 = c5_state"
    by code_simp
  have o2: "handle_agent_info c5_state (c5_message 2) 6 = c5_state"
    by code_simp
  have l: "map (ap_last_updated \<circ> snd) (remote_agents c5_state) = [2]"
    by code_simp
  have k: "map_of (remote_agents c5_state) ''x'' = Some ?old \<and>
           list_all (\<lambda>(i, now). \<not> unregisters ''x'' i)
             [(ActiveMessage (c5_message 5), 6), (InfoMessage (c5_message 1), 7)]"
    unfolding r by simp
  from t [THEN conjunct2, THEN conjunct2, THEN conjunct2, THEN conjunct2, THEN conjunct2,
      THEN conjunct1, rule_format, OF k]
  have e: "\<exists>new. map_of (remote_agents (inbound_run c5_state
                 [(ActiveMessage (c5_message 5), 6), (InfoMessage (c5_message 1), 7)])) ''x'' = Some new \<and>
              ap_last_updated ?old \<le> ap_last_updated new" .
  from l f o1 o2 a1 a2 e show ?thesis by blast
qed

end
